(* ===== verification/Eleel_Prelude.thy ===== *)
theory Eleel_Prelude
  imports Main "HOL-Library.Word"
begin

text \<open>
  Shared vocabulary of the development: the machine integers of the Rust code, the operations of
  Rust's standard library on them that the code calls (saturating and checked arithmetic, big-endian
  bytes, decimal formatting), the combinators of \<open>Result\<close>, and generic lemmas on association lists.
  A Rust \<open>Result<T, E>\<close> is the sum type \<open>'e + 't\<close> with \<open>Inl\<close> for \<open>Err\<close> and \<open>Inr\<close> for \<open>Ok\<close>.
\<close>

type_synonym u8 = "8 word"
type_synonym u64 = "64 word"
type_synonym u256 = "256 word"

named_theorems word_nat \<open>reading of the Rust integer operations as natural numbers\<close>
named_theorems cache_laws \<open>facts about the contents of an LRU cache after an operation\<close>
named_theorems safe_intros \<open>proof rules of the concurrent program logic\<close>


section \<open>Integers of the standard library\<close>

definition saturating_sub :: "'a::len word \<Rightarrow> 'a word \<Rightarrow> 'a word" where
  "saturating_sub a b = (if a \<le> b then 0 else a - b)"

definition checked_sub :: "'a::len word \<Rightarrow> 'a word \<Rightarrow> 'a word option" where
  "checked_sub a b = (if b \<le> a then Some (a - b) else None)"

definition checked_div :: "'a::len word \<Rightarrow> 'a word \<Rightarrow> 'a word option" where
  "checked_div a b = (if b = 0 then None else Some (a div b))"

fun be_bytes :: "nat \<Rightarrow> nat \<Rightarrow> u8 list" where
  "be_bytes 0 n = []"
| "be_bytes (Suc k) n = be_bytes k (n div 256) @ [of_nat n]"

definition to_be_bytes :: "u64 \<Rightarrow> u8 list" where
  "to_be_bytes w = be_bytes 8 (unat w)"

definition from_be_bytes :: "u8 list \<Rightarrow> u64" where
  "from_be_bytes bs = of_nat (foldl (\<lambda>n b. 256 * n + unat b) 0 bs)"

fun show_nat :: "nat \<Rightarrow> string" where
  "show_nat n =
     (if n < 10 then [char_of (48 + n)] else show_nat (n div 10) @ [char_of (48 + n mod 10)])"

declare show_nat.simps [simp del]

lemma unat_saturating_sub [word_nat]: "unat (saturating_sub a b) = unat a - unat b"
  by (auto simp: saturating_sub_def word_le_nat_alt unat_sub)

lemma checked_sub_Some_iff [word_nat]:
  "checked_sub a b = Some c \<longleftrightarrow> unat b \<le> unat a \<and> unat c = unat a - unat b"
  by (auto simp: checked_sub_def word_le_nat_alt unat_sub word_unat_eq_iff)

lemma checked_div_Some_iff [word_nat]:
  "checked_div a b = Some c \<longleftrightarrow> b \<noteq> 0 \<and> unat c = unat a div unat b"
  by (auto simp: checked_div_def unat_div word_unat_eq_iff)

lemma length_be_bytes [simp]: "length (be_bytes k n) = k"
  by (induction k arbitrary: n) auto

lemma foldl_be_bytes: "foldl (\<lambda>n b. 256 * n + unat b) 0 (be_bytes k n) = n mod 256 ^ k"
proof (induction k arbitrary: n)
  case 0
  then show ?case by simp
next
  case (Suc k)
  have "unat (of_nat n :: u8) = n mod 256"
    by (simp add: unat_of_nat)
  with Suc.IH [of "n div 256"] show ?case
    by (simp add: mod_mult2_eq)
qed

lemma from_to_be_bytes [simp]: "from_be_bytes (to_be_bytes w) = w"
proof -
  have "unat w < 256 ^ 8"
    using unsigned_less [of w, where ?'a = nat] by simp
  then have "foldl (\<lambda>n b. 256 * n + unat b) 0 (to_be_bytes w) = unat w"
    unfolding to_be_bytes_def by (simp only: foldl_be_bytes mod_less)
  then show ?thesis
    by (simp add: from_be_bytes_def)
qed

lemma to_be_bytes_inject [simp]: "to_be_bytes a = to_be_bytes b \<longleftrightarrow> a = b"
  by (metis from_to_be_bytes)


section \<open>Results\<close>

definition map_err :: "('e \<Rightarrow> 'f) \<Rightarrow> 'e + 'a \<Rightarrow> 'f + 'a" where
  "map_err f r = (case r of Inl e \<Rightarrow> Inl (f e) | Inr x \<Rightarrow> Inr x)"

definition and_then :: "'e + 'a \<Rightarrow> ('a \<Rightarrow> 'e + 'b) \<Rightarrow> 'e + 'b" where
  "and_then r f = (case r of Inl e \<Rightarrow> Inl e | Inr x \<Rightarrow> f x)"

definition ok_or_else :: "'a option \<Rightarrow> 'e \<Rightarrow> 'e + 'a" where
  "ok_or_else r e = (case r of None \<Rightarrow> Inl e | Some x \<Rightarrow> Inr x)"

text \<open>\<open>Option<Result<T, E>>::transpose\<close>, as used after \<open>map\<close>.\<close>

definition transpose_map :: "('a \<Rightarrow> 'e + 'b) \<Rightarrow> 'a option \<Rightarrow> 'e + 'b option" where
  "transpose_map f r = (case r of None \<Rightarrow> Inr None
     | Some x \<Rightarrow> (case f x of Inl e \<Rightarrow> Inl e | Inr y \<Rightarrow> Inr (Some y)))"

lemma map_err_simps [simp]:
  "map_err f (Inl e) = Inl (f e)" "map_err f (Inr x) = Inr x"
  "map_err f r = Inr y \<longleftrightarrow> r = Inr y"
  by (auto simp: map_err_def split: sum.splits)

lemma and_then_simps [simp]:
  "and_then (Inl e) f = Inl e" "and_then (Inr x) f = f x"
  by (simp_all add: and_then_def)

lemma and_then_Inr_iff: "and_then r f = Inr y \<longleftrightarrow> (\<exists>x. r = Inr x \<and> f x = Inr y)"
  by (cases r) auto

lemma and_then_Inl_iff:
  "and_then r f = Inl e \<longleftrightarrow> r = Inl e \<or> (\<exists>x. r = Inr x \<and> f x = Inl e)"
  by (cases r) auto

lemma map_err_Inl_iff: "map_err f r = Inl e \<longleftrightarrow> (\<exists>e'. r = Inl e' \<and> e = f e')"
  by (cases r) auto

lemma ok_or_else_simps [simp]:
  "ok_or_else None e = Inl e" "ok_or_else (Some x) e = Inr x"
  "ok_or_else r e = Inr y \<longleftrightarrow> r = Some y"
  "ok_or_else r e = Inl e' \<longleftrightarrow> r = None \<and> e = e'"
  by (auto simp: ok_or_else_def split: option.splits)


section \<open>Association lists\<close>

definition remove_key :: "'k \<Rightarrow> ('k \<times> 'v) list \<Rightarrow> ('k \<times> 'v) list" where
  "remove_key k xs = filter (\<lambda>p. fst p \<noteq> k) xs"

lemma map_of_remove_key [simp]:
  "map_of (remove_key k xs) k' = (if k' = k then None else map_of xs k')"
  by (induction xs) (auto simp: remove_key_def)

lemma keys_remove_key [simp]: "fst ` set (remove_key k xs) = fst ` set xs - {k}"
  by (auto simp: remove_key_def)

lemma distinct_remove_key [simp]:
  "distinct (map fst xs) \<Longrightarrow> distinct (map fst (remove_key k xs))"
  by (induction xs) (auto simp: remove_key_def)

lemma length_remove_key_le: "length (remove_key k xs) \<le> length xs"
  by (simp add: remove_key_def)

lemma length_remove_key_less:
  "map_of xs k \<noteq> None \<Longrightarrow> length (remove_key k xs) < length xs"
  by (induction xs) (auto simp: remove_key_def le_imp_less_Suc split: if_splits)

lemma remove_key_absent [simp]: "map_of xs k = None \<Longrightarrow> remove_key k xs = xs"
  by (induction xs) (auto simp: remove_key_def split: if_splits)

lemma map_of_butlast:
  assumes "distinct (map fst xs)"
  shows "map_of (butlast xs) k = map_of xs k \<or> map_of (butlast xs) k = None"
proof (cases xs rule: rev_cases)
  case Nil
  then show ?thesis by simp
next
  case (snoc ys y)
  with assms show ?thesis
    by (auto simp: map_add_def split: option.splits)
qed

end
