(* ===== verification/Json_Rpc.thy ===== *)
theory Json_Rpc
  imports Eleel_Prelude
begin

text \<open>
  The JSON-RPC messages of \<open>types.rs\<close>: requests, responses, error codes and their constructors.
  \<open>JsonValue\<close> is the value type of serde\_json with its documented variants. What serde's generated
  code does with a value of another type (decoding it from a \<open>JsonValue\<close>, encoding it into one) is a
  parameter of the operations that use it; a \<open>SerdeError\<close> is known by its two renderings.
\<close>

datatype JsonValue =
    JNull
  | JBool bool
  | JNumber int
  | JString string
  | JArray "JsonValue list"
  | JObject "(string \<times> JsonValue) list"

record SerdeError =
  serde_debug :: string
  serde_display :: string

record Request =
  req_jsonrpc :: string
  req_method :: string
  req_params :: JsonValue
  req_id :: JsonValue

datatype Requests = Single_request Request | Multiple_requests "Request list"

definition empty_params :: JsonValue where
  "empty_params = JArray []"

datatype ErrorCode =
    ParseError
  | InvalidRequest
  | MethodNotFound
  | InvalidParams
  | InternalError
  | ServerError
  | UnknownPayload
  | InvalidForkChoiceState
  | InvalidPayloadAttributes
  | TooLargeRequest

primrec error_code_repr :: "ErrorCode \<Rightarrow> int" where
  "error_code_repr ParseError = -32700"
| "error_code_repr InvalidRequest = -32600"
| "error_code_repr MethodNotFound = -32601"
| "error_code_repr InvalidParams = -32602"
| "error_code_repr InternalError = -32603"
| "error_code_repr ServerError = -32000"
| "error_code_repr UnknownPayload = -38001"
| "error_code_repr InvalidForkChoiceState = -38002"
| "error_code_repr InvalidPayloadAttributes = -38003"
| "error_code_repr TooLargeRequest = -38004"

record JsonError =
  err_code :: ErrorCode
  err_message :: string

record Response =
  resp_jsonrpc :: string
  resp_id :: JsonValue
  resp_result :: JsonValue

record ErrorResponse =
  eresp_jsonrpc :: string
  eresp_id :: JsonValue
  eresp_error :: JsonError

datatype MaybeErrorResponse = MaybeOk Response | MaybeErr ErrorResponse

primrec maybe_error_response_from :: "ErrorResponse + Response \<Rightarrow> MaybeErrorResponse" where
  "maybe_error_response_from (Inr x) = MaybeOk x"
| "maybe_error_response_from (Inl x) = MaybeErr x"

datatype Responses =
  Single_response MaybeErrorResponse | Multiple_responses "MaybeErrorResponse list"

definition error_response :: "JsonValue \<Rightarrow> ErrorCode \<Rightarrow> string \<Rightarrow> ErrorResponse" where
  "error_response i c m =
     \<lparr>eresp_jsonrpc = ''2.0'', eresp_id = i, eresp_error = \<lparr>err_code = c, err_message = m\<rparr>\<rparr>"

definition unsupported_method :: "JsonValue \<Rightarrow> string \<Rightarrow> ErrorResponse" where
  "unsupported_method i m = error_response i MethodNotFound (''method `'' @ m @ ''` not supported'')"

definition parse_error_generic :: "JsonValue \<Rightarrow> string \<Rightarrow> ErrorResponse" where
  "parse_error_generic i m = error_response i ParseError m"

definition parse_error :: "JsonValue \<Rightarrow> SerdeError \<Rightarrow> ErrorResponse" where
  "parse_error i e = parse_error_generic i (''parse error: '' @ serde_debug e)"

definition invalid_request :: "JsonValue \<Rightarrow> string \<Rightarrow> ErrorResponse" where
  "invalid_request i m = error_response i InvalidRequest m"

definition invalid_payload_attributes :: "JsonValue \<Rightarrow> string \<Rightarrow> ErrorResponse" where
  "invalid_payload_attributes i m = error_response i InvalidPayloadAttributes m"

definition unknown_payload :: "JsonValue \<Rightarrow> string \<Rightarrow> ErrorResponse" where
  "unknown_payload i m = error_response i UnknownPayload m"

definition parse_as ::
  "(JsonValue \<Rightarrow> SerdeError + 'a) \<Rightarrow> Request \<Rightarrow> ErrorResponse + JsonValue \<times> 'a" where
  "parse_as from_value request =
     (let i = req_id request in
      and_then (map_err (parse_error i) (from_value (req_params request))) (\<lambda>params.
      Inr (i, params)))"

definition response_new ::
  "('a \<Rightarrow> SerdeError + JsonValue) \<Rightarrow> JsonValue \<Rightarrow> 'a \<Rightarrow> ErrorResponse + Response" where
  "response_new to_value i result =
     and_then (map_err (parse_error i) (to_value result)) (\<lambda>value.
     Inr \<lparr>resp_jsonrpc = ''2.0'', resp_id = i, resp_result = value\<rparr>)"

text \<open>A reply that carries the given request id and the protocol version, in either form.\<close>

definition answers :: "JsonValue \<Rightarrow> ErrorResponse + Response \<Rightarrow> bool" where
  "answers i r = (case r of
     Inl e \<Rightarrow> eresp_id e = i \<and> eresp_jsonrpc e = ''2.0''
   | Inr x \<Rightarrow> resp_id x = i \<and> resp_jsonrpc x = ''2.0'')"

lemmas error_response_defs =
  unsupported_method_def parse_error_def parse_error_generic_def invalid_request_def
  invalid_payload_attributes_def unknown_payload_def error_response_def

lemma answers_error [simp]:
  "answers i (Inl (unsupported_method i m))" "answers i (Inl (parse_error i e))"
  "answers i (Inl (parse_error_generic i m))" "answers i (Inl (invalid_request i m))"
  "answers i (Inl (invalid_payload_attributes i m))" "answers i (Inl (unknown_payload i m))"
  by (simp_all add: answers_def error_response_defs)

lemma answers_response_new [simp]: "answers i (response_new to_value i x)"
  by (cases "to_value x") (auto simp: answers_def response_new_def error_response_defs)

lemma parse_as_Inl:
  "parse_as f request = Inl e \<longleftrightarrow>
     (\<exists>e'. f (req_params request) = Inl e' \<and> e = parse_error (req_id request) e')"
  by (cases "f (req_params request)") (auto simp: parse_as_def)

lemma parse_as_Inr:
  "parse_as f request = Inr (i, p) \<longleftrightarrow> f (req_params request) = Inr p \<and> i = req_id request"
  by (cases "f (req_params request)") (auto simp: parse_as_def)

lemma response_new_Inr:
  "response_new to_value i x = Inr y \<longleftrightarrow>
     to_value x = Inr (resp_result y) \<and> resp_id y = i \<and> resp_jsonrpc y = ''2.0''"
  by (cases "to_value x") (auto simp: response_new_def)

end
