(* ===== verification/Lru_Cache.thy ===== *)
theory Lru_Cache
  imports Eleel_Prelude
begin

text \<open>
  The interface of the \<open>lru\<close> crate that the multiplexer and the payload builder use. The crate is
  not part of the repository, so its operations are a parameter of the model: a record \<open>LruOps\<close> that
  every definition using a cache receives. A cache is represented by what the crate lets a client
  observe of it: its capacity (\<open>cap()\<close>) and the pairs that \<open>iter()\<close> visits, in the order visited.

  Two contracts are stated as locales. \<open>lru_map\<close> is what most of the code relies on: a cache is a map
  that may forget other keys when a new key is put. \<open>lru_crate\<close> adds the crate's documented recency
  order: \<open>iter\<close> visits entries from the most to the least recently used, \<open>get\<close>, \<open>get_mut\<close>, \<open>put\<close> and
  \<open>get_or_insert\<close> move the key to the front, and \<open>put\<close> of a new key into a full cache drops the last
  entry. Every \<open>lru_crate\<close> is an \<open>lru_map\<close>, and the list implementation \<open>lru_list\<close> satisfies both.
\<close>

record ('k, 'v) LruCache =
  lru_cap :: nat
  lru_iter :: "('k \<times> 'v) list"

text \<open>
  \<open>lru_get_mut c k\<close> returns the stored value and, for the mutable reference, the function from the
  value written through it to the resulting cache.
\<close>

record ('k, 'v) LruOps =
  lru_new :: "nat \<Rightarrow> ('k, 'v) LruCache"
  lru_get :: "('k, 'v) LruCache \<Rightarrow> 'k \<Rightarrow> 'v option \<times> ('k, 'v) LruCache"
  lru_get_mut :: "('k, 'v) LruCache \<Rightarrow> 'k \<Rightarrow> ('v \<times> ('v \<Rightarrow> ('k, 'v) LruCache)) option"
  lru_put :: "('k, 'v) LruCache \<Rightarrow> 'k \<Rightarrow> 'v \<Rightarrow> ('k, 'v) LruCache"
  lru_contains :: "('k, 'v) LruCache \<Rightarrow> 'k \<Rightarrow> bool"
  lru_get_or_insert :: "('k, 'v) LruCache \<Rightarrow> 'k \<Rightarrow> 'v \<Rightarrow> 'v \<times> ('k, 'v) LruCache"

definition lru_lookup :: "('k, 'v) LruCache \<Rightarrow> 'k \<rightharpoonup> 'v" where
  "lru_lookup c = map_of (lru_iter c)"

definition lru_wf :: "('k, 'v) LruCache \<Rightarrow> bool" where
  "lru_wf c \<longleftrightarrow> 0 < lru_cap c \<and> distinct (map fst (lru_iter c)) \<and> length (lru_iter c) \<le> lru_cap c"

text \<open>
  \<open>m'\<close> is \<open>m\<close> with \<open>k\<close> set to \<open>v\<close>, except that it may have forgotten other keys.
\<close>

definition forgetful_upd :: "('k \<rightharpoonup> 'v) \<Rightarrow> 'k \<Rightarrow> 'v \<Rightarrow> ('k \<rightharpoonup> 'v) \<Rightarrow> bool" where
  "forgetful_upd m k v m' \<longleftrightarrow> m' k = Some v \<and> (\<forall>k'. k' \<noteq> k \<longrightarrow> m' k' = m k' \<or> m' k' = None)"

definition promote :: "'k \<Rightarrow> 'v \<Rightarrow> ('k, 'v) LruCache \<Rightarrow> ('k, 'v) LruCache" where
  "promote k v c = c\<lparr>lru_iter := (k, v) # remove_key k (lru_iter c)\<rparr>"

definition evict :: "('k, 'v) LruCache \<Rightarrow> ('k, 'v) LruCache" where
  "evict c = (if length (lru_iter c) = lru_cap c then c\<lparr>lru_iter := butlast (lru_iter c)\<rparr> else c)"

definition lru_list :: "('k, 'v) LruOps" where
  "lru_list = \<lparr>
     lru_new = (\<lambda>n. \<lparr>lru_cap = n, lru_iter = []\<rparr>),
     lru_get = (\<lambda>c k. case lru_lookup c k of None \<Rightarrow> (None, c) | Some v \<Rightarrow> (Some v, promote k v c)),
     lru_get_mut = (\<lambda>c k. case lru_lookup c k of None \<Rightarrow> None
        | Some v \<Rightarrow> Some (v, \<lambda>v'. promote k v' c)),
     lru_put = (\<lambda>c k v. case lru_lookup c k of None \<Rightarrow> promote k v (evict c)
        | Some _ \<Rightarrow> promote k v c),
     lru_contains = (\<lambda>c k. lru_lookup c k \<noteq> None),
     lru_get_or_insert = (\<lambda>c k v. case lru_lookup c k of None \<Rightarrow> (v, promote k v (evict c))
        | Some v' \<Rightarrow> (v', promote k v' c)) \<rparr>"

lemma forgetful_updD:
  "forgetful_upd m k v m' \<Longrightarrow> m' k' = Some w \<Longrightarrow> k' = k \<and> w = v \<or> k' \<noteq> k \<and> m k' = Some w"
  by (cases "k' = k") (auto simp: forgetful_upd_def)

lemma forgetful_upd_same: "forgetful_upd m k v m' \<Longrightarrow> m' k = Some v"
  by (simp add: forgetful_upd_def)

lemma lru_lookup_promote [simp]: "lru_lookup (promote k v c) = (lru_lookup c)(k \<mapsto> v)"
  by (auto simp: lru_lookup_def promote_def)

lemma lru_wf_promote_present:
  "lru_wf c \<Longrightarrow> lru_lookup c k \<noteq> None \<Longrightarrow> lru_wf (promote k v c)"
  using length_remove_key_less [of "lru_iter c" k]
  by (auto simp: lru_wf_def promote_def lru_lookup_def)

lemma lru_wf_promote_room:
  "lru_wf c \<Longrightarrow> length (lru_iter c) < lru_cap c \<Longrightarrow> lru_wf (promote k v c)"
  using length_remove_key_le [of k "lru_iter c"]
  by (auto simp: lru_wf_def promote_def)

lemma evict_room: "lru_wf c \<Longrightarrow> lru_wf (evict c) \<and> length (lru_iter (evict c)) < lru_cap (evict c)"
  by (auto simp: lru_wf_def evict_def map_butlast distinct_butlast)

lemma lru_wf_promote_evict: "lru_wf c \<Longrightarrow> lru_wf (promote k v (evict c))"
  using evict_room [of c] lru_wf_promote_room [of "evict c" k v] by blast

lemmas lru_wf_steps = lru_wf_promote_present lru_wf_promote_room lru_wf_promote_evict

lemma lru_lookup_evict:
  "lru_wf c \<Longrightarrow> lru_lookup (evict c) k = lru_lookup c k \<or> lru_lookup (evict c) k = None"
  using map_of_butlast [of "lru_iter c" k]
  by (auto simp: lru_wf_def lru_lookup_def evict_def)

text \<open>What a full cache drops, and what it keeps, when it makes room.\<close>

lemma evict_last:
  assumes "lru_wf c" and "lru_iter c = newer @ [(k, v)]" and "length (lru_iter c) = lru_cap c"
  shows "lru_lookup (evict c) k = None"
proof -
  have "k \<notin> fst ` set newer" using assms(1,2) by (auto simp: lru_wf_def)
  with assms(2,3) show ?thesis by (simp add: evict_def lru_lookup_def map_of_eq_None_iff)
qed

lemma evict_promoted:
  assumes "2 \<le> lru_cap c"
  shows "lru_lookup (evict (promote k v c)) k = Some v"
  using assms by (cases "remove_key k (lru_iter c)") (auto simp: evict_def lru_lookup_def promote_def)

lemma lru_cap_promote [simp]: "lru_cap (promote k v c) = lru_cap c"
  by (simp add: promote_def)

lemma lru_cap_evict [simp]: "lru_cap (evict c) = lru_cap c"
  by (simp add: evict_def)

lemma lru_iter_promote [simp]:
  "lru_iter (promote k v c) = (k, v) # remove_key k (lru_iter c)"
  by (simp add: promote_def)


section \<open>A cache as a forgetful map\<close>

locale lru_map =
  fixes ops :: "('k, 'v) LruOps"
  assumes new_wf [cache_laws]: "0 < n \<Longrightarrow> lru_wf (lru_new ops n)"
    and new_cap: "lru_cap (lru_new ops n) = n"
    and new_empty [cache_laws]: "lru_lookup (lru_new ops n) k = None"
    and get_value [cache_laws]: "lru_wf c \<Longrightarrow> fst (lru_get ops c k) = lru_lookup c k"
    and get_same [cache_laws]: "lru_wf c \<Longrightarrow> lru_lookup (snd (lru_get ops c k)) = lru_lookup c"
    and get_wf [cache_laws]: "lru_wf c \<Longrightarrow> lru_wf (snd (lru_get ops c k))"
    and get_mut_None: "lru_wf c \<Longrightarrow> lru_get_mut ops c k = None \<longleftrightarrow> lru_lookup c k = None"
    and get_mut_value: "lru_wf c \<Longrightarrow> lru_get_mut ops c k = Some (v, wr) \<Longrightarrow> lru_lookup c k = Some v"
    and get_mut_write: "lru_wf c \<Longrightarrow> lru_get_mut ops c k = Some (v, wr) \<Longrightarrow>
          lru_wf (wr v') \<and> lru_lookup (wr v') = (lru_lookup c)(k \<mapsto> v')"
    and put_wf [cache_laws]: "lru_wf c \<Longrightarrow> lru_wf (lru_put ops c k v)"
    and put_same [cache_laws]: "lru_wf c \<Longrightarrow> lru_lookup (lru_put ops c k v) k = Some v"
    and put_other: "lru_wf c \<Longrightarrow> k' \<noteq> k \<Longrightarrow>
          lru_lookup (lru_put ops c k v) k' = lru_lookup c k' \<or> lru_lookup (lru_put ops c k v) k' = None"
    and put_room: "lru_wf c \<Longrightarrow> length (lru_iter c) < lru_cap c \<or> lru_lookup c k \<noteq> None \<Longrightarrow>
          lru_lookup (lru_put ops c k v) = (lru_lookup c)(k \<mapsto> v)"
    and contains_iff [cache_laws]: "lru_wf c \<Longrightarrow> lru_contains ops c k \<longleftrightarrow> lru_lookup c k \<noteq> None"
    and get_or_insert_wf [cache_laws]: "lru_wf c \<Longrightarrow> lru_wf (snd (lru_get_or_insert ops c k v))"
    and get_or_insert_hit: "lru_wf c \<Longrightarrow> lru_lookup c k = Some v' \<Longrightarrow>
          lru_lookup (snd (lru_get_or_insert ops c k v)) = lru_lookup c"
    and get_or_insert_miss: "lru_wf c \<Longrightarrow> lru_lookup c k = None \<Longrightarrow>
          lru_lookup (snd (lru_get_or_insert ops c k v)) = lru_lookup (lru_put ops c k v)"
begin

lemma put_forgetful:
  "lru_wf c \<Longrightarrow> forgetful_upd (lru_lookup c) k v (lru_lookup (lru_put ops c k v))"
  using put_same [of c k v] put_other [of c _ k v] by (auto simp: forgetful_upd_def)

lemma get_or_insert_forgetful:
  assumes "lru_wf c"
  shows "(\<exists>w. lru_lookup c k = Some w \<and>
            lru_lookup (snd (lru_get_or_insert ops c k v)) = lru_lookup c) \<or>
         lru_lookup c k = None \<and>
            forgetful_upd (lru_lookup c) k v (lru_lookup (snd (lru_get_or_insert ops c k v)))"
  using assms get_or_insert_hit [of c k _ v] get_or_insert_miss [of c k v] put_forgetful [of c k v]
  by (cases "lru_lookup c k") auto

lemma get_or_insert_present:
  assumes "lru_wf c"
  shows "\<exists>w. lru_lookup (snd (lru_get_or_insert ops c k v)) k = Some w"
  using assms get_or_insert_miss [of c k v] get_or_insert_hit [of c k _ v] put_same [of c k v]
  by (cases "lru_lookup c k") auto

lemma get_pair:
  "lru_wf c \<Longrightarrow> lru_get ops c k = (r, c') \<Longrightarrow>
     r = lru_lookup c k \<and> lru_lookup c' = lru_lookup c \<and> lru_wf c'"
  using get_value [of c k] get_same [of c k] get_wf [of c k] by auto

end


section \<open>The crate's recency order\<close>

locale lru_crate =
  fixes ops :: "('k, 'v) LruOps"
  assumes new_eq: "lru_new ops n = \<lparr>lru_cap = n, lru_iter = []\<rparr>"
    and get_hit: "lru_wf c \<Longrightarrow> lru_lookup c k = Some v \<Longrightarrow> lru_get ops c k = (Some v, promote k v c)"
    and get_miss: "lru_wf c \<Longrightarrow> lru_lookup c k = None \<Longrightarrow> lru_get ops c k = (None, c)"
    and get_mut_hit: "lru_wf c \<Longrightarrow> lru_lookup c k = Some v \<Longrightarrow>
          lru_get_mut ops c k = Some (v, \<lambda>v'. promote k v' c)"
    and get_mut_miss: "lru_wf c \<Longrightarrow> lru_lookup c k = None \<Longrightarrow> lru_get_mut ops c k = None"
    and put_hit: "lru_wf c \<Longrightarrow> lru_lookup c k \<noteq> None \<Longrightarrow> lru_put ops c k v = promote k v c"
    and put_miss: "lru_wf c \<Longrightarrow> lru_lookup c k = None \<Longrightarrow> lru_put ops c k v = promote k v (evict c)"
    and contains_eq: "lru_wf c \<Longrightarrow> lru_contains ops c k \<longleftrightarrow> lru_lookup c k \<noteq> None"
    and get_or_insert_old: "lru_wf c \<Longrightarrow> lru_lookup c k = Some v' \<Longrightarrow>
          lru_get_or_insert ops c k v = (v', promote k v' c)"
    and get_or_insert_new: "lru_wf c \<Longrightarrow> lru_lookup c k = None \<Longrightarrow>
          lru_get_or_insert ops c k v = (v, promote k v (evict c))"
begin

lemma get_unfold:
  "lru_wf c \<Longrightarrow> lru_get ops c k =
     (lru_lookup c k, case lru_lookup c k of None \<Rightarrow> c | Some v \<Rightarrow> promote k v c)"
  by (cases "lru_lookup c k") (auto simp: get_hit get_miss)

lemma put_unfold:
  "lru_wf c \<Longrightarrow> lru_put ops c k v =
     promote k v (if lru_lookup c k = None then evict c else c)"
  by (cases "lru_lookup c k") (auto simp: put_hit put_miss)

end

sublocale lru_crate \<subseteq> lru_map
proof (unfold_locales, goal_cases)
  case (1 n)
  then show ?case by (simp add: new_eq lru_wf_def)
next
  case (3 n k)
  then show ?case by (simp add: new_eq lru_lookup_def)
next
  case (7 c k)
  then show ?case by (cases "lru_lookup c k") (auto simp: get_mut_hit get_mut_miss)
next
  case (8 c k v wr)
  then show ?case by (cases "lru_lookup c k") (auto simp: get_mut_hit get_mut_miss)
next
  case (9 c k v wr v')
  then show ?case
    by (cases "lru_lookup c k") (auto simp: get_mut_hit get_mut_miss lru_wf_steps)
next
  case (12 c k' k v)
  then show ?case
    using lru_lookup_evict [of c k'] by (auto simp: put_unfold)
next
  case (13 c k v)
  then show ?case by (auto simp: put_unfold evict_def)
next
  case (15 c k v)
  then show ?case
    by (cases "lru_lookup c k") (auto simp: get_or_insert_old get_or_insert_new lru_wf_steps)
next
  case (16 c k v' v)
  then show ?case by (auto simp: get_or_insert_old)
qed (auto simp: new_eq get_unfold contains_eq put_unfold lru_wf_steps
       get_or_insert_new fun_upd_idem split: option.splits)

interpretation list_lru: lru_crate "lru_list :: ('k, 'v) LruOps"
  by unfold_locales (auto simp: lru_list_def split: option.splits)

end
