(* ===== verification/Base_Fee.thy ===== *)
theory Base_Fee
  imports Eleel_Prelude
begin

text \<open>
  The EIP-1559 base fee calculation of \<open>base_fee.rs\<close>. \<open>Uint256\<close> is a third-party integer type: its
  values are 256-bit words and its operators are a parameter (\<open>U256Ops\<close>), with \<open>None\<close> for a panic.
  The locale \<open>uint256\<close> states what the calculation relies on: the operators are exact where the
  mathematical result fits, and division by zero panics. What they do on overflow is left open.
  The reference is the Python function of the EIP on natural numbers.
\<close>

record U256Ops =
  u256_add :: "u256 \<Rightarrow> u256 \<Rightarrow> u256 option"
  u256_mul :: "u256 \<Rightarrow> u256 \<Rightarrow> u256 option"
  u256_div :: "u256 \<Rightarrow> u256 \<Rightarrow> u256 option"
  u256_saturating_sub :: "u256 \<Rightarrow> u256 \<Rightarrow> u256"

definition ELASTICITY_MULTIPLIER :: u64 where
  "ELASTICITY_MULTIPLIER = 2"

definition BASE_FEE_MAX_CHANGE_DENOMINATOR :: u64 where
  "BASE_FEE_MAX_CHANGE_DENOMINATOR = 8"

definition u256_from :: "u64 \<Rightarrow> u256" where
  "u256_from x = ucast x"

text \<open>The common subterm \<open>fee * delta / target / DENOMINATOR\<close>, evaluated from left to right.\<close>

definition fee_fraction :: "U256Ops \<Rightarrow> u256 \<Rightarrow> u64 \<Rightarrow> u64 \<Rightarrow> u256 option" where
  "fee_fraction U fee gas_used_delta parent_gas_target =
     Option.bind (u256_mul U fee (u256_from gas_used_delta)) (\<lambda>product.
     Option.bind (u256_div U product (u256_from parent_gas_target)) (\<lambda>scaled.
     u256_div U scaled (u256_from BASE_FEE_MAX_CHANGE_DENOMINATOR)))"

definition expected_base_fee_per_gas :: "U256Ops \<Rightarrow> u256 \<Rightarrow> u64 \<Rightarrow> u64 \<Rightarrow> u256 option" where
  "expected_base_fee_per_gas U parent_base_fee_per_gas parent_gas_used parent_gas_limit =
     (let parent_gas_target = parent_gas_limit div ELASTICITY_MULTIPLIER in
      if parent_gas_used = parent_gas_target then Some parent_base_fee_per_gas
      else if parent_gas_used > parent_gas_target then
        (let gas_used_delta = saturating_sub parent_gas_used parent_gas_target in
         Option.bind (fee_fraction U parent_base_fee_per_gas gas_used_delta parent_gas_target)
           (\<lambda>fraction. u256_add U parent_base_fee_per_gas (max fraction (u256_from 1))))
      else
        (let gas_used_delta = saturating_sub parent_gas_target parent_gas_used in
         Option.bind (fee_fraction U parent_base_fee_per_gas gas_used_delta parent_gas_target)
           (\<lambda>base_fee_per_gas_delta.
              Some (u256_saturating_sub U parent_base_fee_per_gas base_fee_per_gas_delta))))"

text \<open>The EIP's specification.\<close>

definition eip1559_base_fee :: "nat \<Rightarrow> nat \<Rightarrow> nat \<Rightarrow> nat" where
  "eip1559_base_fee fee used limit =
     (let target = limit div 2 in
      if used = target then fee
      else if used > target then fee + max (fee * (used - target) div target div 8) 1
      else fee - fee * (target - used) div target div 8)"

text \<open>An instance of the operators: wrapping addition and multiplication.\<close>

definition wrapping_u256 :: U256Ops where
  "wrapping_u256 = \<lparr>
     u256_add = (\<lambda>a b. Some (a + b)),
     u256_mul = (\<lambda>a b. Some (a * b)),
     u256_div = (\<lambda>a b. if b = 0 then None else Some (a div b)),
     u256_saturating_sub = saturating_sub \<rparr>"


section \<open>Arithmetic of the reference\<close>

lemma fee_change_le: "used \<le> 2 * target \<Longrightarrow> fee * (used - target) div target div 8 \<le> fee div (8::nat)"
proof (cases "target = 0")
  case False
  assume "used \<le> 2 * target"
  then have "fee * (used - target) div target \<le> fee * target div target"
    by (intro div_le_mono mult_le_mono) auto
  with False show ?thesis
    by (simp add: div_le_mono)
qed simp

lemma fee_drop_le: "fee * (target - used) div target div 8 \<le> fee div (8::nat)"
proof (cases "target = 0")
  case False
  have "fee * (target - used) div target \<le> fee * target div target"
    by (intro div_le_mono mult_le_mono) auto
  with False show ?thesis
    by (simp add: div_le_mono)
qed simp


section \<open>The code against the reference\<close>

lemma unat_u256_from [simp]: "unat (u256_from x) = unat x"
proof -
  have "unat x < 2 ^ 256"
    using unsigned_less [of x, where ?'a = nat] by simp
  then show ?thesis
    by (simp add: u256_from_def unsigned_ucast_eq take_bit_nat_eq_self_iff)
qed

lemma u256_from_eq_0_iff [simp]: "u256_from x = 0 \<longleftrightarrow> x = 0"
  by (metis unat_u256_from unat_eq_zero)

lemma unat_gas_target: "unat (limit div ELASTICITY_MULTIPLIER) = unat limit div 2"
  by (simp add: ELASTICITY_MULTIPLIER_def unat_div)

lemma unat_max: "unat (max a b) = max (unat a) (unat b)"
  by (simp add: max_def word_le_nat_alt)

locale uint256 =
  fixes U :: U256Ops
  assumes add_exact: "unat a + unat b < 2 ^ 256 \<Longrightarrow> u256_add U a b = Some (a + b)"
    and mul_exact: "unat a * unat b < 2 ^ 256 \<Longrightarrow> u256_mul U a b = Some (a * b)"
    and div_exact: "b \<noteq> 0 \<Longrightarrow> u256_div U a b = Some (a div b)"
    and div_zero: "u256_div U a 0 = None"
    and saturating_sub_exact: "unat (u256_saturating_sub U a b) = unat a - unat b"
begin

lemma fee_product_fits:
  assumes "unat fee < 2 ^ 192"
  shows "unat fee * unat (u256_from delta) < 2 ^ 256"
proof -
  have "unat delta < 2 ^ 64"
    using unsigned_less [of delta, where ?'a = nat] by simp
  with assms have "unat fee * unat delta < 2 ^ 192 * 2 ^ 64"
    by (intro mult_strict_mono) auto
  then show ?thesis by simp
qed

lemma fee_fraction_exact:
  assumes fee: "unat fee < 2 ^ 192" and target: "target \<noteq> 0"
  shows "\<exists>r. fee_fraction U fee delta target = Some r
    \<and> unat r = unat fee * unat delta div unat target div 8"
proof -
  have fits: "unat fee * unat (u256_from delta) < 2 ^ 256"
    using fee by (rule fee_product_fits)
  then have "unat (fee * u256_from delta) = unat fee * unat delta"
    by (simp add: unat_word_ariths)
  moreover have "u256_from BASE_FEE_MAX_CHANGE_DENOMINATOR \<noteq> 0"
    and "unat (u256_from BASE_FEE_MAX_CHANGE_DENOMINATOR) = 8"
    by (simp_all add: BASE_FEE_MAX_CHANGE_DENOMINATOR_def)
  ultimately show ?thesis
    using fits target by (simp add: fee_fraction_def mul_exact div_exact unat_div)
qed

lemma fee_fraction_zero_target:
  assumes "unat fee < 2 ^ 192"
  shows "fee_fraction U fee delta 0 = None"
proof -
  have "u256_from 0 = 0" by simp
  with fee_product_fits [OF assms, of delta] show ?thesis
    by (simp add: fee_fraction_def mul_exact div_zero del: u256_from_eq_0_iff)
qed

lemma fraction_bound:
  fixes f d t :: nat
  assumes "f < 2 ^ 192" and "d < 2 ^ 64"
  shows "f + max (f * d div t div 8) 1 < 2 ^ 256"
proof -
  have "f * d < 2 ^ 192 * 2 ^ 64"
    using assms by (intro mult_strict_mono) auto
  moreover have "f * d div t div 8 \<le> f * d div 8"
    by (intro div_le_mono div_le_dividend)
  ultimately have "f * d div t div 8 < 2 ^ 253"
    by (simp add: less_mult_imp_div_less order_le_less_trans)
  with assms(1) show ?thesis by simp
qed

lemma refines_eip1559:
  assumes fee: "unat fee < 2 ^ 192" and limit: "2 \<le> unat limit"
  shows "\<exists>r. expected_base_fee_per_gas U fee used limit = Some r
    \<and> unat r = eip1559_base_fee (unat fee) (unat used) (unat limit)"
proof -
  let ?target = "limit div ELASTICITY_MULTIPLIER"
  have target: "?target \<noteq> 0" "unat ?target = unat limit div 2"
    using limit by (auto simp: unat_gas_target simp flip: unat_eq_zero)
  consider "used = ?target" | "used > ?target" | "used < ?target"
    by fastforce
  then show ?thesis
  proof cases
    case 1
    with target show ?thesis
      by (simp add: expected_base_fee_per_gas_def eip1559_base_fee_def)
  next
    case 2
    let ?delta = "saturating_sub used ?target"
    obtain r where r: "fee_fraction U fee ?delta ?target = Some r"
      "unat r = unat fee * unat ?delta div unat ?target div 8"
      using fee_fraction_exact [OF fee target(1)] by blast
    have "unat ?delta < 2 ^ 64"
      using unsigned_less [of ?delta, where ?'a = nat] by simp
    with fraction_bound [OF fee this, of "unat ?target"] r(2)
    have fits: "unat fee + unat (max r (u256_from 1)) < 2 ^ 256"
      by (simp add: unat_max)
    then have "unat (fee + max r (u256_from 1)) = unat fee + max (unat r) 1"
      by (simp add: unat_word_ariths(1) unat_max)
    moreover have "expected_base_fee_per_gas U fee used limit = Some (fee + max r (u256_from 1))"
      using 2 r(1) fits by (auto simp: expected_base_fee_per_gas_def add_exact Let_def)
    ultimately show ?thesis
      using 2 r(2) target(2)
      by (auto simp: eip1559_base_fee_def Let_def word_less_nat_alt word_nat)
  next
    case 3
    then obtain r where r: "fee_fraction U fee (saturating_sub ?target used) ?target = Some r"
      "unat r = unat fee * unat (saturating_sub ?target used) div unat ?target div 8"
      using fee_fraction_exact [OF fee target(1)] by blast
    then have "expected_base_fee_per_gas U fee used limit = Some (u256_saturating_sub U fee r)"
      using 3 by (auto simp: expected_base_fee_per_gas_def Let_def)
    with 3 r(2) target(2) show ?thesis
      by (auto simp: eip1559_base_fee_def Let_def saturating_sub_exact word_less_nat_alt word_nat)
  qed
qed

lemma panics_without_target:
  assumes "unat fee < 2 ^ 192" and "unat limit < 2" and "used \<noteq> 0"
  shows "expected_base_fee_per_gas U fee used limit = None"
proof -
  have "limit div ELASTICITY_MULTIPLIER = 0"
    using assms(2) by (simp add: unat_gas_target flip: unat_eq_zero)
  with assms show ?thesis
    by (auto simp: expected_base_fee_per_gas_def fee_fraction_zero_target word_greater_zero_iff)
qed

end

interpretation wrapping_u256: uint256 wrapping_u256
  by unfold_locales (simp_all add: wrapping_u256_def word_nat)


section \<open>Properties\<close>

text \<open>
  C21. For a parent fee below \<open>2 ^ 192\<close> and a parent gas limit of at least 2, the calculation returns
  (it neither panics nor overflows) and its result is the one of the EIP-1559 specification.
\<close>

theorem base_fee_refines_eip1559:
  assumes "uint256 U" and "unat fee < 2 ^ 192" and "2 \<le> unat limit"
  shows "\<exists>r. expected_base_fee_per_gas U fee used limit = Some r
    \<and> unat r = eip1559_base_fee (unat fee) (unat used) (unat limit)"
  using assms by (rule uint256.refines_eip1559)

theorem base_fee_refines_eip1559_witness:
  "\<exists>r. expected_base_fee_per_gas wrapping_u256 1000 20 30 = Some r \<and> unat r = 1041"
proof -
  have "unat (1000 :: u256) < 2 ^ 192" and "2 \<le> unat (30 :: u64)"
    by simp_all
  from base_fee_refines_eip1559 [OF wrapping_u256.uint256_axioms this, of 20]
  show ?thesis by (simp add: eip1559_base_fee_def)
qed

text \<open>
  C22. The fee of a child block never falls by more than one eighth of the parent's, and rises by at
  most one eighth, or by one where an eighth rounds to zero, when the parent kept to twice its target.
\<close>

theorem base_fee_change_bounded:
  assumes "uint256 U" and "unat fee < 2 ^ 192" and "2 \<le> unat limit"
  shows "\<exists>r. expected_base_fee_per_gas U fee used limit = Some r
    \<and> unat fee - unat fee div 8 \<le> unat r
    \<and> (unat used \<le> 2 * (unat limit div 2) \<longrightarrow> unat r \<le> unat fee + max (unat fee div 8) 1)"
proof -
  obtain r where r: "expected_base_fee_per_gas U fee used limit = Some r"
    "unat r = eip1559_base_fee (unat fee) (unat used) (unat limit)"
    using uint256.refines_eip1559 [OF assms] by blast
  have "unat fee - unat fee div 8 \<le> unat r"
    using fee_drop_le [of "unat fee" "unat limit div 2" "unat used"]
    by (auto simp: r(2) eip1559_base_fee_def Let_def intro: diff_le_mono2)
  moreover have "unat used \<le> 2 * (unat limit div 2) \<longrightarrow> unat r \<le> unat fee + max (unat fee div 8) 1"
    using fee_change_le [of "unat used" "unat limit div 2" "unat fee"]
    by (auto simp: r(2) eip1559_base_fee_def Let_def le_max_iff_disj)
  ultimately show ?thesis
    using r(1) by blast
qed

theorem base_fee_change_bounded_witness:
  "\<exists>r. expected_base_fee_per_gas wrapping_u256 800 30 30 = Some r \<and> 700 \<le> unat r \<and> unat r \<le> 900"
proof -
  have "unat (800 :: u256) < 2 ^ 192" and "2 \<le> unat (30 :: u64)"
    by simp_all
  from base_fee_change_bounded [OF wrapping_u256.uint256_axioms this, of 30]
  show ?thesis by auto
qed

text \<open>
  C39. With a parent gas limit of 0 or 1 the gas target is zero, and any gas used at all makes the
  calculation panic by a division by zero.
\<close>

theorem base_fee_panics_without_target:
  assumes "uint256 U" and "unat fee < 2 ^ 192" and "unat limit < 2" and "used \<noteq> 0"
  shows "expected_base_fee_per_gas U fee used limit = None"
  using assms by (rule uint256.panics_without_target)

theorem base_fee_panics_without_target_witness:
  "expected_base_fee_per_gas wrapping_u256 7 1 1 = None"
  using base_fee_panics_without_target [OF wrapping_u256.uint256_axioms, of 7 1 1] by simp

end
