(* ===== verification/Engine_Types.thy ===== *)
theory Engine_Types
  imports Json_Rpc Lru_Cache Base_Fee
begin

text \<open>
  The engine API data the handlers work on and everything the code calls outside the repository.

  The first part holds the data types: forkchoice states (\<open>types.rs\<close>), payload statuses, payload
  attributes and execution payloads, with the fields and variants the code names. Hashes are 256-bit
  words. The second part is the record \<open>External\<close> of the third-party operations: serde's decoders
  and encoders, Lighthouse's conversions, hash checks and constants, the LRU caches and \<open>Uint256\<close>.
  They are parameters of the model; the locale \<open>payload_conversions\<close> names what the code relies on
  about the conversions.
\<close>

type_synonym ExecutionBlockHash = u256
type_synonym Hash256 = u256
type_synonym VersionedHash = u256
type_synonym Address = "160 word"
type_synonym Slot = u64
type_synonym PayloadId = "u8 list"


section \<open>Forkchoice states and payload statuses\<close>

record JsonForkchoiceStateV1 =
  head_block_hash :: ExecutionBlockHash
  safe_block_hash :: ExecutionBlockHash
  finalized_block_hash :: ExecutionBlockHash

record ForkchoiceState =
  fs_head_block_hash :: ExecutionBlockHash
  fs_safe_block_hash :: ExecutionBlockHash
  fs_finalized_block_hash :: ExecutionBlockHash

definition json_forkchoice_state_from :: "ForkchoiceState \<Rightarrow> JsonForkchoiceStateV1" where
  "json_forkchoice_state_from f =
     \<lparr>head_block_hash = fs_head_block_hash f, safe_block_hash = fs_safe_block_hash f,
      finalized_block_hash = fs_finalized_block_hash f\<rparr>"

definition forkchoice_state_from :: "JsonForkchoiceStateV1 \<Rightarrow> ForkchoiceState" where
  "forkchoice_state_from j =
     \<lparr>fs_head_block_hash = head_block_hash j, fs_safe_block_hash = safe_block_hash j,
      fs_finalized_block_hash = finalized_block_hash j\<rparr>"

datatype JsonPayloadStatusV1Status = Valid | Invalid | Syncing | Accepted | InvalidBlockHash

record JsonPayloadStatusV1 =
  ps_status :: JsonPayloadStatusV1Status
  ps_latest_valid_hash :: "ExecutionBlockHash option"
  ps_validation_error :: "string option"

record JsonForkchoiceUpdatedV1Response =
  fr_payload_status :: JsonPayloadStatusV1
  fr_payload_id :: "PayloadId option"


section \<open>Payload attributes and payloads\<close>

record Withdrawal =
  wd_index :: u64
  wd_validator_index :: u64
  wd_address :: Address
  wd_amount :: u64

datatype PayloadAttributes =
    PayloadAttributesV1 (pa_timestamp: u64) (pa_prev_randao: Hash256)
      (pa_suggested_fee_recipient: Address)
  | PayloadAttributesV2 (pa_timestamp: u64) (pa_prev_randao: Hash256)
      (pa_suggested_fee_recipient: Address) (pa_v2_withdrawals: "Withdrawal list")
  | PayloadAttributesV3 (pa_timestamp: u64) (pa_prev_randao: Hash256)
      (pa_suggested_fee_recipient: Address) (pa_v3_withdrawals: "Withdrawal list")
      (pa_v3_parent_beacon_block_root: Hash256)

primrec pa_withdrawals :: "PayloadAttributes \<Rightarrow> Withdrawal list option" where
  "pa_withdrawals (PayloadAttributesV1 t r f) = None"
| "pa_withdrawals (PayloadAttributesV2 t r f w) = Some w"
| "pa_withdrawals (PayloadAttributesV3 t r f w b) = Some w"

primrec pa_parent_beacon_block_root :: "PayloadAttributes \<Rightarrow> Hash256 option" where
  "pa_parent_beacon_block_root (PayloadAttributesV1 t r f) = None"
| "pa_parent_beacon_block_root (PayloadAttributesV2 t r f w) = None"
| "pa_parent_beacon_block_root (PayloadAttributesV3 t r f w b) = Some b"

text \<open>The JSON mirrors of the second and third version, which the handlers decode.\<close>

record JsonPayloadAttributesV2 =
  jpa_timestamp :: u64
  jpa_prev_randao :: Hash256
  jpa_suggested_fee_recipient :: Address
  jpa_withdrawals :: "Withdrawal list"

record JsonPayloadAttributesV3 = JsonPayloadAttributesV2 +
  jpa_parent_beacon_block_root :: Hash256

datatype JsonPayloadAttributes =
  JsonAttributesV2 JsonPayloadAttributesV2 | JsonAttributesV3 JsonPayloadAttributesV3

record ExecutionPayloadBellatrix =
  ep_parent_hash :: ExecutionBlockHash
  ep_fee_recipient :: Address
  ep_state_root :: Hash256
  ep_receipts_root :: Hash256
  ep_logs_bloom :: "u8 list"
  ep_prev_randao :: Hash256
  ep_block_number :: u64
  ep_gas_limit :: u64
  ep_gas_used :: u64
  ep_timestamp :: u64
  ep_extra_data :: "u8 list"
  ep_base_fee_per_gas :: u256
  ep_block_hash :: ExecutionBlockHash
  ep_transactions :: "u8 list list"

record ExecutionPayloadCapella = ExecutionPayloadBellatrix +
  ep_withdrawals :: "Withdrawal list"

record ExecutionPayloadDeneb = ExecutionPayloadCapella +
  ep_blob_gas_used :: u64
  ep_excess_blob_gas :: u64

text \<open>Electra and Fulu payloads have the fields of a Deneb payload.\<close>

type_synonym ExecutionPayloadElectra = ExecutionPayloadDeneb
type_synonym ExecutionPayloadFulu = ExecutionPayloadDeneb

datatype ExecutionPayload =
    Bellatrix ExecutionPayloadBellatrix
  | Capella ExecutionPayloadCapella
  | Deneb ExecutionPayloadDeneb
  | Electra ExecutionPayloadElectra
  | Fulu ExecutionPayloadFulu

text \<open>The fields common to all variants.\<close>

primrec payload_header :: "ExecutionPayload \<Rightarrow> ExecutionPayloadBellatrix" where
  "payload_header (Bellatrix p) = p"
| "payload_header (Capella p) = ExecutionPayloadBellatrix.truncate p"
| "payload_header (Deneb p) = ExecutionPayloadBellatrix.truncate p"
| "payload_header (Electra p) = ExecutionPayloadBellatrix.truncate p"
| "payload_header (Fulu p) = ExecutionPayloadBellatrix.truncate p"

abbreviation payload_block_hash :: "ExecutionPayload \<Rightarrow> ExecutionBlockHash" where
  "payload_block_hash p \<equiv> ep_block_hash (payload_header p)"

abbreviation payload_block_number :: "ExecutionPayload \<Rightarrow> u64" where
  "payload_block_number p \<equiv> ep_block_number (payload_header p)"

text \<open>Assignment to \<open>*payload.block_hash_mut()\<close>.\<close>

primrec set_block_hash :: "ExecutionBlockHash \<Rightarrow> ExecutionPayload \<Rightarrow> ExecutionPayload" where
  "set_block_hash h (Bellatrix p) = Bellatrix (p\<lparr>ep_block_hash := h\<rparr>)"
| "set_block_hash h (Capella p) = Capella (p\<lparr>ep_block_hash := h\<rparr>)"
| "set_block_hash h (Deneb p) = Deneb (p\<lparr>ep_block_hash := h\<rparr>)"
| "set_block_hash h (Electra p) = Electra (p\<lparr>ep_block_hash := h\<rparr>)"
| "set_block_hash h (Fulu p) = Fulu (p\<lparr>ep_block_hash := h\<rparr>)"

text \<open>The JSON mirrors of the payloads: the same fields under another name.\<close>

datatype JsonExecutionPayload =
    JsonPayloadV1 ExecutionPayloadBellatrix
  | JsonPayloadV2 ExecutionPayloadCapella
  | JsonPayloadV3 ExecutionPayloadDeneb
  | JsonPayloadV4 ExecutionPayloadElectra
  | JsonPayloadV5 ExecutionPayloadFulu

record ExecutionRequests =
  er_deposits :: "u8 list list"
  er_withdrawals :: "u8 list list"
  er_consolidations :: "u8 list list"

definition default_execution_requests :: ExecutionRequests where
  "default_execution_requests = \<lparr>er_deposits = [], er_withdrawals = [], er_consolidations = []\<rparr>"

datatype NewPayloadRequest =
    NewPayloadRequestBellatrix ExecutionPayloadBellatrix
  | NewPayloadRequestCapella ExecutionPayloadCapella
  | NewPayloadRequestDeneb ExecutionPayloadDeneb "VersionedHash list" Hash256
  | NewPayloadRequestElectra ExecutionPayloadElectra "VersionedHash list" Hash256 ExecutionRequests

datatype ForkName =
  Fork_Base | Fork_Altair | Fork_Bellatrix | Fork_Capella | Fork_Deneb | Fork_Electra | Fork_Fulu

record ChainSpec =
  seconds_per_slot :: u64
  fork_name_at_slot :: "Slot \<Rightarrow> ForkName"

record PayloadInfo =
  pi_block_number :: u64
  pi_state_root :: Hash256
  pi_base_fee_per_gas :: u256
  pi_gas_used :: u64
  pi_gas_limit :: u64

record NewPayloadCacheEntry =
  npe_status :: JsonPayloadStatusV1
  npe_block_number :: u64


section \<open>Results that are encoded into a response\<close>

record BlobsBundle =
  bb_commitments :: "u8 list list"
  bb_proofs :: "u8 list list"
  bb_blobs :: "u8 list list"

definition default_blobs_bundle :: BlobsBundle where
  "default_blobs_bundle = \<lparr>bb_commitments = [], bb_proofs = [], bb_blobs = []\<rparr>"

text \<open>
  The fields of the four response types are the execution payload, the block value and, from the
  third version on, the blobs bundle and \<open>should_override_builder\<close>; the fourth adds the execution
  requests in their JSON form, a list of byte strings.
\<close>

datatype GetPayloadResponse =
    GetPayloadResponseV1 ExecutionPayloadBellatrix u256
  | GetPayloadResponseV2 ExecutionPayloadCapella u256
  | GetPayloadResponseV3 ExecutionPayloadDeneb u256 BlobsBundle bool
  | GetPayloadResponseV4 ExecutionPayloadElectra u256 BlobsBundle bool "u8 list list"

datatype RpcResult =
    PayloadStatusResult JsonPayloadStatusV1
  | ForkchoiceUpdatedResult JsonForkchoiceUpdatedV1Response
  | BoolResult bool
  | QuantityResult u64
  | CapabilitiesResult "string list"
  | ValueResult JsonValue
  | GetPayloadResult GetPayloadResponse


section \<open>The execution engine\<close>

text \<open>
  The requests sent to the execution engine, and its reply. The engine's behaviour is arbitrary: a
  reply holds one answer per kind of request, of which the handler reads the one it asked for. Errors
  are known by their debug rendering.
\<close>

datatype EngineCall =
    NotifyForkchoiceUpdated ForkchoiceState
  | NewPayload NewPayloadRequest
  | GetChainId
  | GetEngineCapabilities
  | RpcRequest string JsonValue

record EngineReply =
  reply_forkchoice :: "string + JsonForkchoiceUpdatedV1Response"
  reply_new_payload :: "string + JsonPayloadStatusV1"
  reply_chain_id :: "string + u64"
  reply_capabilities :: "string + string list"
  reply_rpc :: "string + JsonValue"


section \<open>Operations outside the repository\<close>

record Serde =
  decode_values :: "JsonValue \<Rightarrow> SerdeError + JsonValue list"
  decode_units :: "JsonValue \<Rightarrow> SerdeError + unit list"
  decode_capabilities :: "JsonValue \<Rightarrow> SerdeError + string list"
  decode_payload_id :: "JsonValue \<Rightarrow> SerdeError + PayloadId"
  decode_controller_fcu :: "JsonValue \<Rightarrow> SerdeError + JsonForkchoiceStateV1 \<times> JsonValue option"
  decode_client_fcu :: "JsonValue \<Rightarrow> SerdeError + JsonForkchoiceStateV1 \<times> JsonPayloadAttributesV2 option"
  decode_attributes_v2 :: "JsonValue \<Rightarrow> SerdeError + JsonPayloadAttributesV2"
  decode_attributes_v3 :: "JsonValue \<Rightarrow> SerdeError + JsonPayloadAttributesV3"
  decode_versioned_hashes :: "JsonValue \<Rightarrow> SerdeError + VersionedHash list"
  decode_hash :: "JsonValue \<Rightarrow> SerdeError + Hash256"
  decode_execution_requests :: "JsonValue \<Rightarrow> SerdeError + u8 list list"
  decode_quantity :: "JsonValue \<Rightarrow> SerdeError + u64"
  decode_payload_v1 :: "JsonValue \<Rightarrow> SerdeError + ExecutionPayloadBellatrix"
  decode_payload_v2 :: "JsonValue \<Rightarrow> SerdeError + ExecutionPayloadCapella"
  decode_payload_v3 :: "JsonValue \<Rightarrow> SerdeError + ExecutionPayloadDeneb"
  decode_payload_v4 :: "JsonValue \<Rightarrow> SerdeError + ExecutionPayloadElectra"
  json_get :: "JsonValue \<Rightarrow> string \<Rightarrow> JsonValue option"
  to_value :: "RpcResult \<Rightarrow> SerdeError + JsonValue"

record Lighthouse =
  execution_payload_from :: "JsonExecutionPayload \<Rightarrow> ExecutionPayload"
  json_execution_payload_from :: "ExecutionPayload \<Rightarrow> JsonExecutionPayload"
  payload_attributes_from :: "JsonPayloadAttributes \<Rightarrow> PayloadAttributes"
  execution_requests_try_from :: "u8 list list \<Rightarrow> string + ExecutionRequests"
  verify_payload_block_hash :: "NewPayloadRequest \<Rightarrow> string + unit"
  verify_versioned_hashes :: "NewPayloadRequest \<Rightarrow> string + unit"
  calculate_execution_block_hash ::
    "ExecutionPayload \<Rightarrow> Hash256 option \<Rightarrow> ExecutionRequests option \<Rightarrow> ExecutionBlockHash"
  keccak_empty_list_rlp :: Hash256
  default_logs_bloom :: "u8 list"
  max_extra_data_bytes :: nat
  variable_list_new :: "u8 list \<Rightarrow> string + u8 list"
  withdrawals_from :: "Withdrawal list \<Rightarrow> Withdrawal list"
  debug_hash :: "ExecutionBlockHash \<Rightarrow> string"
  display_fork :: "ForkName \<Rightarrow> string"

record Caches =
  fcu_ops :: "(JsonForkchoiceStateV1, JsonPayloadStatusV1) LruOps"
  new_payload_ops :: "(ExecutionBlockHash, NewPayloadCacheEntry) LruOps"
  block_ops :: "(ExecutionBlockHash, unit) LruOps"
  attributes_ops :: "(ExecutionBlockHash \<times> PayloadAttributes, PayloadId) LruOps"
  info_ops :: "(ExecutionBlockHash, PayloadInfo) LruOps"
  payload_ops :: "(PayloadId, ExecutionPayload) LruOps"

record External =
  serde :: Serde
  lighthouse :: Lighthouse
  caches :: Caches
  uint256_ops :: U256Ops


section \<open>What the code relies on about the conversions\<close>

text \<open>
  Each version of the JSON payload is converted to and from the payload of its fork with its fields
  unchanged, and JSON attributes become attributes of the same version.
\<close>

locale payload_conversions =
  fixes lh :: Lighthouse
  assumes from_v1: "execution_payload_from lh (JsonPayloadV1 p1) = Bellatrix p1"
    and from_v2: "execution_payload_from lh (JsonPayloadV2 p2) = Capella p2"
    and from_v3: "execution_payload_from lh (JsonPayloadV3 p3) = Deneb p3"
    and from_v4: "execution_payload_from lh (JsonPayloadV4 p4) = Electra p4"
    and to_v1: "json_execution_payload_from lh (Bellatrix p1) = JsonPayloadV1 p1"
    and to_v2: "json_execution_payload_from lh (Capella p2) = JsonPayloadV2 p2"
    and to_v3: "json_execution_payload_from lh (Deneb p3) = JsonPayloadV3 p3"
    and to_v4: "json_execution_payload_from lh (Electra p4) = JsonPayloadV4 p4"
    and attributes_v2: "payload_attributes_from lh (JsonAttributesV2 a2) =
          PayloadAttributesV2 (jpa_timestamp a2) (jpa_prev_randao a2)
            (jpa_suggested_fee_recipient a2) (jpa_withdrawals a2)"
    and attributes_v3: "payload_attributes_from lh (JsonAttributesV3 a3) =
          PayloadAttributesV3 (jpa_timestamp a3) (jpa_prev_randao a3)
            (jpa_suggested_fee_recipient a3) (jpa_withdrawals a3) (jpa_parent_beacon_block_root a3)"
begin

lemmas from_json = from_v1 from_v2 from_v3 from_v4

lemmas to_json = to_v1 to_v2 to_v3 to_v4

lemma from_to_json:
  "(\<nexists>p. ep = Fulu p) \<Longrightarrow> execution_payload_from lh (json_execution_payload_from lh ep) = ep"
  by (cases ep) (simp_all add: from_json to_json)

end

lemma payload_header_set_block_hash [simp]:
  "payload_header (set_block_hash h p) = (payload_header p)\<lparr>ep_block_hash := h\<rparr>"
  by (cases p) (simp_all add: ExecutionPayloadBellatrix.truncate_def)

text \<open>
  The two forkchoice state types convert into each other without loss, in both directions, and
  distinct states stay distinct, so a cache keyed by the JSON form separates exactly the states that
  the engine would be sent.
\<close>

theorem forkchoice_state_round_trip:
  "json_forkchoice_state_from (forkchoice_state_from j) = j \<and>
   forkchoice_state_from (json_forkchoice_state_from f) = f \<and>
   (forkchoice_state_from j = forkchoice_state_from j' \<longleftrightarrow> j = j')"
  by (cases j; cases j'; cases f)
    (simp add: json_forkchoice_state_from_def forkchoice_state_from_def)

end
