(* ===== verification/Reference_Ops.thy ===== *)
theory Reference_Ops
  imports Engine_Types
begin

text \<open>
  A concrete instance of the operations outside the repository: list-based LRU caches, wrapping
  256-bit arithmetic, conversions that keep every field, and decoders for a small JSON form (numbers
  for quantities and hashes, objects with the engine API's field names for payloads). It satisfies the
  contracts of the interfaces, so the contracts are consistent, and the examples evaluate on it.
\<close>

definition serde_failure :: SerdeError where
  "serde_failure = \<lparr>serde_debug = ''invalid type'', serde_display = ''invalid type''\<rparr>"

fun ref_number :: "JsonValue \<Rightarrow> SerdeError + 'a::len word" where
  "ref_number (JNumber n) = Inr (word_of_int n)"
| "ref_number v = Inl serde_failure"

fun ref_array :: "JsonValue \<Rightarrow> SerdeError + JsonValue list" where
  "ref_array (JArray xs) = Inr xs"
| "ref_array v = Inl serde_failure"

fun ref_json_get :: "JsonValue \<Rightarrow> string \<Rightarrow> JsonValue option" where
  "ref_json_get (JObject fs) k = map_of fs k"
| "ref_json_get v k = None"

fun ref_all :: "(JsonValue \<Rightarrow> SerdeError + 'a) \<Rightarrow> JsonValue list \<Rightarrow> SerdeError + 'a list" where
  "ref_all f [] = Inr []"
| "ref_all f (v # vs) = and_then (f v) (\<lambda>x. and_then (ref_all f vs) (\<lambda>xs. Inr (x # xs)))"

definition ref_list :: "(JsonValue \<Rightarrow> SerdeError + 'a) \<Rightarrow> JsonValue \<Rightarrow> SerdeError + 'a list" where
  "ref_list f v = and_then (ref_array v) (ref_all f)"

fun ref_unit :: "JsonValue \<Rightarrow> SerdeError + unit" where
  "ref_unit JNull = Inr ()"
| "ref_unit v = Inl serde_failure"

fun ref_string :: "JsonValue \<Rightarrow> SerdeError + string" where
  "ref_string (JString s) = Inr s"
| "ref_string v = Inl serde_failure"

fun ref_singleton :: "(JsonValue \<Rightarrow> SerdeError + 'a) \<Rightarrow> JsonValue \<Rightarrow> SerdeError + 'a" where
  "ref_singleton f (JArray [v]) = f v"
| "ref_singleton f v = Inl serde_failure"

fun ref_fcu :: "JsonValue \<Rightarrow> SerdeError + JsonForkchoiceStateV1" where
  "ref_fcu (JArray [JNumber h, JNumber s, JNumber f]) =
     Inr \<lparr>head_block_hash = word_of_int h, safe_block_hash = word_of_int s,
          finalized_block_hash = word_of_int f\<rparr>"
| "ref_fcu v = Inl serde_failure"

fun ref_pair ::
  "(JsonValue \<Rightarrow> SerdeError + 'a) \<Rightarrow> (JsonValue \<Rightarrow> SerdeError + 'b) \<Rightarrow> JsonValue \<Rightarrow>
   SerdeError + 'a \<times> 'b option" where
  "ref_pair f g (JArray [v, JNull]) = and_then (f v) (\<lambda>x. Inr (x, None))"
| "ref_pair f g (JArray [v, w]) = and_then (f v) (\<lambda>x. and_then (g w) (\<lambda>y. Inr (x, Some y)))"
| "ref_pair f g v = Inl serde_failure"

definition ref_field :: "string \<Rightarrow> JsonValue \<Rightarrow> 'a::len word" where
  "ref_field k v = (case ref_json_get v k of Some (JNumber n) \<Rightarrow> word_of_int n | _ \<Rightarrow> 0)"

fun ref_attributes_v2 :: "JsonValue \<Rightarrow> SerdeError + JsonPayloadAttributesV2" where
  "ref_attributes_v2 (JObject fs) =
     Inr \<lparr>jpa_timestamp = ref_field ''timestamp'' (JObject fs), jpa_prev_randao = 0,
          jpa_suggested_fee_recipient = 0, jpa_withdrawals = []\<rparr>"
| "ref_attributes_v2 v = Inl serde_failure"

fun ref_attributes_v3 :: "JsonValue \<Rightarrow> SerdeError + JsonPayloadAttributesV3" where
  "ref_attributes_v3 (JObject fs) =
     Inr \<lparr>jpa_timestamp = ref_field ''timestamp'' (JObject fs), jpa_prev_randao = 0,
          jpa_suggested_fee_recipient = 0, jpa_withdrawals = [],
          jpa_parent_beacon_block_root = ref_field ''parentBeaconBlockRoot'' (JObject fs)\<rparr>"
| "ref_attributes_v3 v = Inl serde_failure"

definition ref_header :: "JsonValue \<Rightarrow> ExecutionPayloadBellatrix" where
  "ref_header v = \<lparr>ep_parent_hash = ref_field ''parentHash'' v, ep_fee_recipient = 0,
     ep_state_root = ref_field ''stateRoot'' v, ep_receipts_root = 0, ep_logs_bloom = [],
     ep_prev_randao = 0, ep_block_number = ref_field ''blockNumber'' v,
     ep_gas_limit = ref_field ''gasLimit'' v, ep_gas_used = ref_field ''gasUsed'' v,
     ep_timestamp = ref_field ''timestamp'' v, ep_extra_data = [],
     ep_base_fee_per_gas = ref_field ''baseFeePerGas'' v,
     ep_block_hash = ref_field ''blockHash'' v, ep_transactions = []\<rparr>"

definition ref_capella :: "JsonValue \<Rightarrow> ExecutionPayloadCapella" where
  "ref_capella v = ExecutionPayloadBellatrix.extend (ref_header v) \<lparr>ep_withdrawals = []\<rparr>"

definition ref_deneb :: "JsonValue \<Rightarrow> ExecutionPayloadDeneb" where
  "ref_deneb v = ExecutionPayloadBellatrix.extend (ref_header v)
     \<lparr>ep_withdrawals = [], ep_blob_gas_used = 0, ep_excess_blob_gas = 0\<rparr>"

primrec ref_status_name :: "JsonPayloadStatusV1Status \<Rightarrow> string" where
  "ref_status_name Valid = ''VALID''"
| "ref_status_name Invalid = ''INVALID''"
| "ref_status_name Syncing = ''SYNCING''"
| "ref_status_name Accepted = ''ACCEPTED''"
| "ref_status_name InvalidBlockHash = ''INVALID_BLOCK_HASH''"

definition ref_id :: "PayloadId option \<Rightarrow> JsonValue" where
  "ref_id i = (case i of None \<Rightarrow> JNull | Some bs \<Rightarrow> JArray (map (\<lambda>b. JNumber (uint b)) bs))"

primrec ref_to_value :: "RpcResult \<Rightarrow> SerdeError + JsonValue" where
  "ref_to_value (PayloadStatusResult st) = Inr (JString (ref_status_name (ps_status st)))"
| "ref_to_value (ForkchoiceUpdatedResult r) =
     Inr (JArray [JString (ref_status_name (ps_status (fr_payload_status r))), ref_id (fr_payload_id r)])"
| "ref_to_value (BoolResult b) = Inr (JBool b)"
| "ref_to_value (QuantityResult q) = Inr (JNumber (uint q))"
| "ref_to_value (CapabilitiesResult cs) = Inr (JArray (map JString cs))"
| "ref_to_value (ValueResult v) = Inr v"
| "ref_to_value (GetPayloadResult p) = Inr (JObject [])"

definition ref_serde :: Serde where
  "ref_serde = \<lparr>
     decode_values = ref_array, decode_units = ref_list ref_unit,
     decode_capabilities = ref_singleton (ref_list ref_string),
     decode_payload_id = ref_singleton (ref_list ref_number),
     decode_controller_fcu = ref_pair ref_fcu Inr,
     decode_client_fcu = ref_pair ref_fcu ref_attributes_v2,
     decode_attributes_v2 = ref_attributes_v2, decode_attributes_v3 = ref_attributes_v3,
     decode_versioned_hashes = ref_list ref_number, decode_hash = ref_number,
     decode_execution_requests = ref_list (ref_list ref_number), decode_quantity = ref_number,
     decode_payload_v1 = (\<lambda>v. Inr (ref_header v)), decode_payload_v2 = (\<lambda>v. Inr (ref_capella v)),
     decode_payload_v3 = (\<lambda>v. Inr (ref_deneb v)), decode_payload_v4 = (\<lambda>v. Inr (ref_deneb v)),
     json_get = ref_json_get, to_value = ref_to_value \<rparr>"

primrec ref_payload_from :: "JsonExecutionPayload \<Rightarrow> ExecutionPayload" where
  "ref_payload_from (JsonPayloadV1 p) = Bellatrix p"
| "ref_payload_from (JsonPayloadV2 p) = Capella p"
| "ref_payload_from (JsonPayloadV3 p) = Deneb p"
| "ref_payload_from (JsonPayloadV4 p) = Electra p"
| "ref_payload_from (JsonPayloadV5 p) = Fulu p"

primrec ref_json_payload_from :: "ExecutionPayload \<Rightarrow> JsonExecutionPayload" where
  "ref_json_payload_from (Bellatrix p) = JsonPayloadV1 p"
| "ref_json_payload_from (Capella p) = JsonPayloadV2 p"
| "ref_json_payload_from (Deneb p) = JsonPayloadV3 p"
| "ref_json_payload_from (Electra p) = JsonPayloadV4 p"
| "ref_json_payload_from (Fulu p) = JsonPayloadV5 p"

primrec ref_attributes_from :: "JsonPayloadAttributes \<Rightarrow> PayloadAttributes" where
  "ref_attributes_from (JsonAttributesV2 a) =
     PayloadAttributesV2 (jpa_timestamp a) (jpa_prev_randao a) (jpa_suggested_fee_recipient a)
       (jpa_withdrawals a)"
| "ref_attributes_from (JsonAttributesV3 a) =
     PayloadAttributesV3 (jpa_timestamp a) (jpa_prev_randao a) (jpa_suggested_fee_recipient a)
       (jpa_withdrawals a) (jpa_parent_beacon_block_root a)"

text \<open>A stand-in for the hash: a number computed from the parent hash and the timestamp.\<close>

definition ref_hash :: "ExecutionPayload \<Rightarrow> ExecutionBlockHash" where
  "ref_hash p = 1000 * ep_parent_hash (payload_header p) + ucast (ep_timestamp (payload_header p))"

definition ref_lighthouse :: Lighthouse where
  "ref_lighthouse = \<lparr>
     execution_payload_from = ref_payload_from,
     json_execution_payload_from = ref_json_payload_from,
     payload_attributes_from = ref_attributes_from,
     execution_requests_try_from = (\<lambda>bs. Inr default_execution_requests),
     verify_payload_block_hash = (\<lambda>r. Inr ()), verify_versioned_hashes = (\<lambda>r. Inr ()),
     calculate_execution_block_hash = (\<lambda>p b r. ref_hash p),
     keccak_empty_list_rlp = 1, default_logs_bloom = [], max_extra_data_bytes = 32,
     variable_list_new = (\<lambda>bs. if length bs \<le> 32 then Inr bs else Inl ''too long''), withdrawals_from = take 16,
     debug_hash = (\<lambda>h. show_nat (unat h)), display_fork = (\<lambda>f. ''fork'') \<rparr>"

definition ref_caches :: Caches where
  "ref_caches = \<lparr>fcu_ops = lru_list, new_payload_ops = lru_list, block_ops = lru_list,
     attributes_ops = lru_list, info_ops = lru_list, payload_ops = lru_list\<rparr>"

definition ref_external :: External where
  "ref_external = \<lparr>serde = ref_serde, lighthouse = ref_lighthouse, caches = ref_caches,
     uint256_ops = wrapping_u256\<rparr>"

lemma ref_external_simps [simp]:
  "serde ref_external = ref_serde" "lighthouse ref_external = ref_lighthouse"
  "caches ref_external = ref_caches" "uint256_ops ref_external = wrapping_u256"
  by (simp_all add: ref_external_def)

lemma ref_caches_simps [simp]:
  "fcu_ops ref_caches = lru_list" "new_payload_ops ref_caches = lru_list"
  "block_ops ref_caches = lru_list" "attributes_ops ref_caches = lru_list"
  "info_ops ref_caches = lru_list" "payload_ops ref_caches = lru_list"
  by (simp_all add: ref_caches_def)

interpretation ref: payload_conversions ref_lighthouse
  by unfold_locales (simp_all add: ref_lighthouse_def)

end
