(* ===== verification/Eleel_Config.thy ===== *)
theory Eleel_Config
  imports Reference_Ops
begin

text \<open>
  The configuration of \<open>config.rs\<close>: the command-line options with their defaults, the forkchoice
  matching modes with their names, the network option and the file of client secrets. Reading a file,
  parsing TOML and looking a network up by name are parameters.
\<close>

datatype FcuMatching = Exact | Loose | HeadOnly

text \<open>The kebab-case name of a variant.\<close>

primrec fcu_matching_name :: "FcuMatching \<Rightarrow> string" where
  "fcu_matching_name Exact = ''exact''"
| "fcu_matching_name Loose = ''loose''"
| "fcu_matching_name HeadOnly = ''head-only''"

definition value_variants :: "FcuMatching list" where
  "value_variants = [Exact, Loose, HeadOnly]"

text \<open>A possible value: its name and its help text.\<close>

primrec to_possible_value :: "FcuMatching \<Rightarrow> (string \<times> string) option" where
  "to_possible_value Exact =
     Some (fcu_matching_name Exact, ''match head/safe/finalized from controller exactly'')"
| "to_possible_value Loose =
     Some (fcu_matching_name Loose, ''match head and sanity check safe/finalized'')"
| "to_possible_value HeadOnly =
     Some (fcu_matching_name HeadOnly, ''match head and ignore safe/finalized (dangerous)'')"

text \<open>What the code asks of a network: its chain specification and its genesis time.\<close>

record Eth2NetworkConfig =
  net_chain_spec :: "string + ChainSpec"
  net_genesis_time :: "string + u64 option"

record Network =
  network_config :: Eth2NetworkConfig

definition network_from_str ::
  "(string \<Rightarrow> string + Eth2NetworkConfig option) \<Rightarrow> string \<Rightarrow> string + Network" where
  "network_from_str constant s =
     and_then (constant s) (\<lambda>found.
     ok_or_else (map_option (\<lambda>n. \<lparr>network_config = n\<rparr>) found) (''unknown network: '' @ s))"

record Config =
  listen_address :: string
  listen_port :: "16 word"
  ee_url :: string
  ee_jwt_secret :: string
  controller_jwt_secret :: string
  client_jwt_secrets :: string
  new_payload_cache_size :: nat
  fcu_cache_size :: nat
  payload_builder_cache_size :: nat
  payload_builder_extra_data :: "u8 list"
  justified_block_cache_size :: nat
  finalized_block_cache_size :: nat
  fcu_matching :: FcuMatching
  network :: Network
  new_payload_wait_millis :: nat
  new_payload_wait_cutoff :: u64
  fcu_wait_millis :: nat
  body_limit_mb :: u64

text \<open>
  The options when only the three required paths are given; the default network \<open>mainnet\<close> is the
  argument. The bytes of the default extra data are those of \<open>Eleel\<close>.
\<close>

definition default_config :: "string \<Rightarrow> string \<Rightarrow> string \<Rightarrow> Network \<Rightarrow> Config" where
  "default_config ee_jwt controller_jwt clients_jwt mainnet = \<lparr>
     listen_address = ''127.0.0.1'', listen_port = 8552, ee_url = ''http://localhost:8551'',
     ee_jwt_secret = ee_jwt, controller_jwt_secret = controller_jwt,
     client_jwt_secrets = clients_jwt, new_payload_cache_size = 64, fcu_cache_size = 64,
     payload_builder_cache_size = 8, payload_builder_extra_data = [69, 108, 101, 101, 108],
     justified_block_cache_size = 4, finalized_block_cache_size = 4, fcu_matching = Loose,
     network = mainnet, new_payload_wait_millis = 2000, new_payload_wait_cutoff = 64,
     fcu_wait_millis = 1000, body_limit_mb = 128 \<rparr>"

text \<open>The secrets of the TOML file, as the entries of a hash map in its iteration order.\<close>

record ClientJwtSecrets =
  raw_secrets :: "(string \<times> string) list"

definition client_jwt_secrets_from_file ::
  "(string \<Rightarrow> string + string) \<Rightarrow> (string \<Rightarrow> string + ClientJwtSecrets) \<Rightarrow> string \<Rightarrow>
   string + ClientJwtSecrets" where
  "client_jwt_secrets_from_file read_to_string toml_from_str path =
     and_then (map_err (\<lambda>e. ''IO error reading secrets from '' @ path @ '': '' @ e)
                 (read_to_string path)) (\<lambda>secrets_str.
     map_err (\<lambda>e. ''Parse error reading secrets from '' @ path @ '': '' @ e)
       (toml_from_str secrets_str))"

end
