(* ===== verification/Async_Task.thy ===== *)
theory Async_Task
  imports Eleel_Prelude
begin

text \<open>
  The model of the asynchronous handlers. A request handler runs as a task on a multi-threaded
  executor; it shares the multiplexer's mutex-protected state with the other tasks, and other tasks
  run whenever it awaits. A task is a tree of the points where it interacts with its surroundings:
  \<^item> \<open>Atomic u k\<close>: a section under a lock, which updates the shared state by \<open>u\<close> and goes on as
    \<open>k\<close> of the state it found;
  \<^item> \<open>Await q k\<close>: the request \<open>q\<close> to the execution engine, whose reply \<open>k\<close> receives;
  \<^item> \<open>Sleep n k\<close>: \<open>n\<close> milliseconds of sleep, where \<open>k\<close> receives by how many milliseconds the pause
    was longer than asked for (scheduling, waiting for locks);
  \<^item> \<open>Done a\<close>: the handler returned \<open>a\<close>; \<open>Panic\<close>: it panicked.
  \<open>sys_step\<close> interleaves any number of tasks; \<open>run\<close> executes one task without interference. The
  predicate \<open>safe\<close> is the program logic: an invariant \<open>I\<close> of the shared state relative to the replies
  the engine has given so far, a relation \<open>G\<close> that every section of the task satisfies, and a
  condition \<open>Q\<close> on the returned value. \<open>reachable_safe\<close> is its soundness for all interleavings.
\<close>

datatype ('s, 'q, 'r, 'a) task =
    Done 'a
  | Panic
  | Atomic "'s \<Rightarrow> 's" "'s \<Rightarrow> ('s, 'q, 'r, 'a) task"
  | Await 'q "'r \<Rightarrow> ('s, 'q, 'r, 'a) task"
  | Sleep nat "nat \<Rightarrow> ('s, 'q, 'r, 'a) task"

primrec bind_task ::
  "('s, 'q, 'r, 'a) task \<Rightarrow> ('a \<Rightarrow> ('s, 'q, 'r, 'b) task) \<Rightarrow> ('s, 'q, 'r, 'b) task" where
  "bind_task (Done a) f = f a"
| "bind_task Panic f = Panic"
| "bind_task (Atomic u k) f = Atomic u (\<lambda>s. bind_task (k s) f)"
| "bind_task (Await q k) f = Await q (\<lambda>r. bind_task (k r) f)"
| "bind_task (Sleep n k) f = Sleep n (\<lambda>d. bind_task (k d) f)"

text \<open>A critical section given as a state transformer with a result.\<close>

definition atomically :: "('s \<Rightarrow> 'a \<times> 's) \<Rightarrow> ('s, 'q, 'r, 'a) task" where
  "atomically f = Atomic (\<lambda>s. snd (f s)) (\<lambda>s. Done (fst (f s)))"

text \<open>The \<open>?\<close> operator inside a handler: an error is returned at once.\<close>

definition try_task ::
  "'e + 'a \<Rightarrow> ('a \<Rightarrow> ('s, 'q, 'r, 'e + 'b) task) \<Rightarrow> ('s, 'q, 'r, 'e + 'b) task" where
  "try_task x f = (case x of Inl e \<Rightarrow> Done (Inl e) | Inr a \<Rightarrow> f a)"

text \<open>An operation that panics on \<open>None\<close> (\<open>unwrap\<close>).\<close>

definition unwrap_task :: "'a option \<Rightarrow> ('a \<Rightarrow> ('s, 'q, 'r, 'b) task) \<Rightarrow> ('s, 'q, 'r, 'b) task" where
  "unwrap_task x f = (case x of None \<Rightarrow> Panic | Some a \<Rightarrow> f a)"

text \<open>
  An execution without interference: \<open>ans\<close> answers the requests to the engine and every pause is
  \<open>d\<close> milliseconds longer than asked for. The result is \<open>None\<close> for a panic.
\<close>

primrec run ::
  "('q \<Rightarrow> 'r) \<Rightarrow> nat \<Rightarrow> ('s, 'q, 'r, 'a) task \<Rightarrow> 's \<Rightarrow> 'a option \<times> 's" where
  "run ans d (Done a) s = (Some a, s)"
| "run ans d Panic s = (None, s)"
| "run ans d (Atomic u k) s = run ans d (k s) (u s)"
| "run ans d (Await q k) s = run ans d (k (ans q)) s"
| "run ans d (Sleep n k) s = run ans d (k d) s"

text \<open>The requests an execution without interference sends to the engine, in order.\<close>

primrec requests ::
  "('q \<Rightarrow> 'r) \<Rightarrow> nat \<Rightarrow> ('s, 'q, 'r, 'a) task \<Rightarrow> 's \<Rightarrow> 'q list" where
  "requests ans d (Done a) s = []"
| "requests ans d Panic s = []"
| "requests ans d (Atomic u k) s = requests ans d (k s) (u s)"
| "requests ans d (Await q k) s = q # requests ans d (k (ans q)) s"
| "requests ans d (Sleep n k) s = requests ans d (k d) s"

text \<open>
  An execution under arbitrary interference, as the task sees it: its \<open>i\<close>-th section finds the state
  \<open>\<sigma> i\<close>, whatever the other tasks have made of it, and its \<open>j\<close>-th pause is \<open>\<delta> j\<close> milliseconds longer than
  asked for. The result comes with the numbers of sections and pauses and with the time spent in pauses.
\<close>

primrec observe ::
  "(nat \<Rightarrow> 's) \<Rightarrow> (nat \<Rightarrow> nat) \<Rightarrow> ('q \<Rightarrow> 'r) \<Rightarrow> ('s, 'q, 'r, 'a) task \<Rightarrow> nat \<Rightarrow> nat \<Rightarrow> nat \<Rightarrow>
   'a option \<times> nat \<times> nat \<times> nat" where
  "observe \<sigma> \<delta> ans (Done a) i j time = (Some a, i, j, time)"
| "observe \<sigma> \<delta> ans Panic i j time = (None, i, j, time)"
| "observe \<sigma> \<delta> ans (Atomic u k) i j time = observe \<sigma> \<delta> ans (k (\<sigma> i)) (Suc i) j time"
| "observe \<sigma> \<delta> ans (Await q k) i j time = observe \<sigma> \<delta> ans (k (ans q)) i j time"
| "observe \<sigma> \<delta> ans (Sleep n k) i j time = observe \<sigma> \<delta> ans (k (\<delta> j)) i (Suc j) (time + n + \<delta> j)"

text \<open>Every request to the engine on any path of the task satisfies \<open>P\<close>.\<close>

primrec only_awaits :: "('q \<Rightarrow> bool) \<Rightarrow> ('s, 'q, 'r, 'a) task \<Rightarrow> bool" where
  "only_awaits P (Done a) = True"
| "only_awaits P Panic = True"
| "only_awaits P (Atomic u k) = (\<forall>s. only_awaits P (k s))"
| "only_awaits P (Await q k) = (P q \<and> (\<forall>r. only_awaits P (k r)))"
| "only_awaits P (Sleep n k) = (\<forall>d. only_awaits P (k d))"

text \<open>No path of the task sleeps (for a positive time) more than \<open>m\<close> times.\<close>

primrec sleeps_at_most :: "('s, 'q, 'r, 'a) task \<Rightarrow> nat \<Rightarrow> bool" where
  "sleeps_at_most (Done a) m = True"
| "sleeps_at_most Panic m = True"
| "sleeps_at_most (Atomic u k) m = (\<forall>s. sleeps_at_most (k s) m)"
| "sleeps_at_most (Await q k) m = (\<forall>r. sleeps_at_most (k r) m)"
| "sleeps_at_most (Sleep n k) m =
     (if n = 0 then \<forall>d. sleeps_at_most (k d) m
      else 0 < m \<and> (\<forall>d. sleeps_at_most (k d) (m - 1)))"

primrec safe ::
  "(('q \<times> 'r) set \<Rightarrow> 's \<Rightarrow> bool) \<Rightarrow> ('s \<Rightarrow> 's \<Rightarrow> bool) \<Rightarrow> (('q \<times> 'r) set \<Rightarrow> 'a option \<Rightarrow> bool) \<Rightarrow>
   ('s, 'q, 'r, 'a) task \<Rightarrow> ('q \<times> 'r) set \<Rightarrow> bool" where
  "safe I G Q (Done a) h = Q h (Some a)"
| "safe I G Q Panic h = Q h None"
| "safe I G Q (Atomic u k) h =
     (\<forall>h' s. h \<subseteq> h' \<and> I h' s \<longrightarrow> I h' (u s) \<and> G s (u s) \<and> safe I G Q (k s) h')"
| "safe I G Q (Await q k) h = (\<forall>h' r. h \<subseteq> h' \<longrightarrow> safe I G Q (k r) (insert (q, r) h'))"
| "safe I G Q (Sleep n k) h = (\<forall>h' d. h \<subseteq> h' \<longrightarrow> safe I G Q (k d) h')"

text \<open>
  The concurrent system: the replies given by the engine so far, the shared state and the pool of
  tasks. A step starts a task for a new request (any of the given set of tasks) or lets one task of
  the pool take its next step; replies and delays are arbitrary.
\<close>

type_synonym ('s, 'q, 'r, 'a) sys = "('q \<times> 'r) set \<times> 's \<times> ('s, 'q, 'r, 'a) task list"

inductive sys_step ::
  "('s, 'q, 'r, 'a) task set \<Rightarrow> ('s, 'q, 'r, 'a) sys \<Rightarrow> ('s, 'q, 'r, 'a) sys \<Rightarrow> bool" for T where
  spawn: "t \<in> T \<Longrightarrow> sys_step T (h, s, ts) (h, s, ts @ [t])"
| atomic: "i < length ts \<Longrightarrow> ts ! i = Atomic u k \<Longrightarrow> sys_step T (h, s, ts) (h, u s, ts[i := k s])"
| await: "i < length ts \<Longrightarrow> ts ! i = Await q k \<Longrightarrow>
    sys_step T (h, s, ts) (insert (q, r) h, s, ts[i := k r])"
| sleep: "i < length ts \<Longrightarrow> ts ! i = Sleep n k \<Longrightarrow> sys_step T (h, s, ts) (h, s, ts[i := k d])"

inductive reachable ::
  "('s, 'q, 'r, 'a) task set \<Rightarrow> 's \<Rightarrow> ('s, 'q, 'r, 'a) sys \<Rightarrow> bool" for T s0 where
  start: "reachable T s0 ({}, s0, [])"
| step: "reachable T s0 c \<Longrightarrow> sys_step T c c' \<Longrightarrow> reachable T s0 c'"



section \<open>Sequencing\<close>

lemma bind_task_assoc: "bind_task (bind_task t f) g = bind_task t (\<lambda>a. bind_task (f a) g)"
  by (induction t) auto

lemma bind_task_Done [simp]: "bind_task t Done = t"
  by (induction t) auto

lemma bind_atomically [simp]:
  "bind_task (atomically f) g = Atomic (\<lambda>s. snd (f s)) (\<lambda>s. g (fst (f s)))"
  by (simp add: atomically_def)

lemma run_bind_task:
  "run ans d (bind_task t f) s =
     (case run ans d t s of (None, s') \<Rightarrow> (None, s') | (Some a, s') \<Rightarrow> run ans d (f a) s')"
  by (induction t arbitrary: s) auto

lemma requests_bind_task:
  "requests ans d (bind_task t f) s =
     requests ans d t s @ (case run ans d t s of (None, s') \<Rightarrow> [] | (Some a, s') \<Rightarrow> requests ans d (f a) s')"
  by (induction t arbitrary: s) auto

lemma observe_bind_task:
  "observe \<sigma> \<delta> ans (bind_task t f) i j time =
     (case observe \<sigma> \<delta> ans t i j time of
        (None, i', j', time') \<Rightarrow> (None, i', j', time')
      | (Some a, i', j', time') \<Rightarrow> observe \<sigma> \<delta> ans (f a) i' j' time')"
  by (induction t arbitrary: i j time) auto

lemma observe_atomically [simp]:
  "observe \<sigma> \<delta> ans (atomically f) i j time = (Some (fst (f (\<sigma> i))), Suc i, j, time)"
  by (simp add: atomically_def)

lemma run_atomically [simp]: "run ans d (atomically f) s = (Some (fst (f s)), snd (f s))"
  by (simp add: atomically_def)

lemma requests_atomically [simp]: "requests ans d (atomically f) s = []"
  by (simp add: atomically_def)

lemma only_awaits_bind_task:
  "only_awaits P t \<Longrightarrow> (\<And>a. only_awaits P (f a)) \<Longrightarrow> only_awaits P (bind_task t f)"
  by (induction t) auto

lemma only_awaits_atomically [simp]: "only_awaits P (atomically f)"
  by (simp add: atomically_def)

lemma only_awaits_try_task: "(\<And>a. only_awaits P (f a)) \<Longrightarrow> only_awaits P (try_task x f)"
  by (cases x) (auto simp: try_task_def)

lemma only_awaits_unwrap_task: "(\<And>a. only_awaits P (f a)) \<Longrightarrow> only_awaits P (unwrap_task x f)"
  by (cases x) (auto simp: unwrap_task_def)

lemma only_awaits_no_requests: "only_awaits (\<lambda>_. False) t \<Longrightarrow> requests ans d t s = []"
  by (induction t arbitrary: s) auto

lemma only_awaits_weaken: "only_awaits P t \<Longrightarrow> (\<And>q. P q \<Longrightarrow> P' q) \<Longrightarrow> only_awaits P' t"
  by (induction t) auto

lemma sleeps_at_most_mono: "sleeps_at_most t m \<Longrightarrow> m \<le> m' \<Longrightarrow> sleeps_at_most t m'"
proof (induction t arbitrary: m m')
  case (Sleep n k)
  show ?case
  proof (cases "n = 0")
    case True
    with Sleep.prems have "\<And>d. sleeps_at_most (k d) m" by simp
    with True Sleep.prems(2) show ?thesis
      using Sleep.IH [OF rangeI] by simp blast
  next
    case False
    with Sleep.prems have "0 < m'" and "\<And>d. sleeps_at_most (k d) (m - 1)" and "m - 1 \<le> m' - 1"
      by auto
    with False Sleep.IH [OF rangeI, of _ "m - 1" "m' - 1"] show ?thesis by simp
  qed
qed (simp_all, blast+)

lemma sleeps_at_most_bind_task:
  "sleeps_at_most t m \<Longrightarrow> (\<And>a. sleeps_at_most (f a) 0) \<Longrightarrow> sleeps_at_most (bind_task t f) m"
  by (induction t arbitrary: m) (auto intro: sleeps_at_most_mono)

lemma sleeps_bind_poll:
  "sleeps_at_most t 0 \<Longrightarrow> (\<And>a. sleeps_at_most (f a) m) \<Longrightarrow> sleeps_at_most (bind_task t f) m"
  by (induction t) (auto split: if_splits)

text \<open>The number of rounds of at least 50 milliseconds that fit into the waiting time.\<close>

definition poll_rounds :: "nat \<Rightarrow> nat" where
  "poll_rounds millis = (millis + 49) div 50"

lemma poll_rounds_step:
  assumes "elapsed < wait"
  shows "0 < poll_rounds (wait - elapsed)"
    and "poll_rounds (wait - (elapsed + 50 + delay)) \<le> poll_rounds (wait - elapsed) - 1"
  using assms by (auto simp: poll_rounds_def)


section \<open>The program logic\<close>

lemma safe_history_mono:
  assumes "\<And>h h' a. Q h a \<Longrightarrow> h \<subseteq> h' \<Longrightarrow> Q h' a"
  shows "safe I G Q t h \<Longrightarrow> h \<subseteq> h' \<Longrightarrow> safe I G Q t h'"
  using assms by (cases t) (simp_all, (meson order_trans)+)

lemma safe_weaken:
  assumes "safe I G Q t h" and "\<And>h a. Q h a \<Longrightarrow> Q' h a" and "\<And>s s'. G s s' \<Longrightarrow> G' s s'"
  shows "safe I G' Q' t h"
  using assms(1) by (induction t arbitrary: h) (simp_all add: assms(2,3) rangeI)

lemma safe_Done [safe_intros]: "Q h (Some a) \<Longrightarrow> safe I G Q (Done a) h"
  by simp

lemma safe_Await [safe_intros]:
  "(\<And>h' r. h \<subseteq> h' \<Longrightarrow> (q, r) \<in> h' \<Longrightarrow> safe I G Q (k r) h') \<Longrightarrow> safe I G Q (Await q k) h"
  by (simp add: subset_insertI2)

lemma safe_Sleep [safe_intros]:
  "(\<And>h' d. h \<subseteq> h' \<Longrightarrow> safe I G Q (k d) h') \<Longrightarrow> safe I G Q (Sleep n k) h"
  by auto

lemma safe_bind_task:
  assumes "safe I G R t h"
    and "\<And>h' a. h \<subseteq> h' \<Longrightarrow> R h' (Some a) \<Longrightarrow> safe I G Q (f a) h'"
    and "\<And>h'. h \<subseteq> h' \<Longrightarrow> R h' None \<Longrightarrow> Q h' None"
  shows "safe I G Q (bind_task t f) h"
  using assms
proof (induction t arbitrary: h)
  case (Atomic u k)
  have "safe I G Q (bind_task (k s) f) h'" if "h \<subseteq> h'" and "I h' s" for h' s
    using that Atomic.prems by (intro Atomic.IH [OF rangeI]) (auto intro: order_trans)
  with Atomic.prems(1) show ?case by simp
next
  case (Await q k)
  have "safe I G Q (bind_task (k r) f) (insert (q, r) h')" if "h \<subseteq> h'" for h' r
    using that Await.prems by (intro Await.IH [OF rangeI]) auto
  then show ?case by simp
next
  case (Sleep n k)
  have "safe I G Q (bind_task (k d) f) h'" if "h \<subseteq> h'" for h' d
    using that Sleep.prems by (intro Sleep.IH [OF rangeI]) (auto intro: order_trans)
  then show ?case by simp
qed auto

lemma safe_atomically [safe_intros]:
  assumes "\<And>h' s. h \<subseteq> h' \<Longrightarrow> I h' s \<Longrightarrow>
    I h' (snd (f s)) \<and> G s (snd (f s)) \<and> Q h' (Some (fst (f s)))"
  shows "safe I G Q (atomically f) h"
  unfolding atomically_def using assms by auto

lemma safe_bind_atomically:
  assumes "\<And>h' s. h \<subseteq> h' \<Longrightarrow> I h' s \<Longrightarrow>
    I h' (snd (f s)) \<and> G s (snd (f s)) \<and> safe I G Q (g (fst (f s))) h'"
  shows "safe I G Q (bind_task (atomically f) g) h"
  unfolding atomically_def using assms by auto

lemma safe_try_task [safe_intros]:
  assumes "\<And>e. x = Inl e \<Longrightarrow> Q h (Some (Inl e))" and "\<And>a. x = Inr a \<Longrightarrow> safe I G Q (f a) h"
  shows "safe I G Q (try_task x f) h"
  using assms by (cases x) (auto simp: try_task_def)

lemma safe_unwrap_task [safe_intros]:
  assumes "x = None \<Longrightarrow> Q h None" and "\<And>a. x = Some a \<Longrightarrow> safe I G Q (f a) h"
  shows "safe I G Q (unwrap_task x f) h"
  using assms by (cases x) (auto simp: unwrap_task_def)

text \<open>A safe task that runs alone: its state, its result and the relation from start to end.\<close>

lemma safe_run:
  assumes "safe I G Q t h" and "I h s"
    and mono: "\<And>h h' s. I h s \<Longrightarrow> h \<subseteq> h' \<Longrightarrow> I h' s"
    and refl: "\<And>s. G s s" and trans: "\<And>s s' s''. G s s' \<Longrightarrow> G s' s'' \<Longrightarrow> G s s''"
    and "run ans d t s = (r, s')"
  shows "\<exists>h'. h \<subseteq> h' \<and> I h' s' \<and> G s s' \<and> Q h' r"
  using assms(1,2,6)
proof (induction t arbitrary: h s)
  case (Atomic u k)
  then have 1: "I h (u s)" "G s (u s)" "safe I G Q (k s) h" and eq: "run ans d (k s) (u s) = (r, s')" by auto
  from Atomic.IH [OF rangeI 1(3,1) eq] obtain h' where "h \<subseteq> h'" "I h' s'" "G (u s) s'" "Q h' r" by blast
  with trans [OF 1(2)] show ?case by blast
next
  case (Await q k)
  then have 1: "safe I G Q (k (ans q)) (insert (q, ans q) h)" and eq: "run ans d (k (ans q)) s = (r, s')" by auto
  have "I (insert (q, ans q) h) s" by (rule mono [OF Await.prems(2)]) auto
  from Await.IH [OF rangeI 1 this eq] show ?case by blast
next
  case (Sleep n k)
  then have 1: "safe I G Q (k d) h" and eq: "run ans d (k d) s = (r, s')" by auto
  from Sleep.IH [OF rangeI 1 Sleep.prems(2) eq] show ?case by blast
qed (use refl in auto)


section \<open>Soundness for every interleaving\<close>

lemma list_all_update: "list_all P ts \<Longrightarrow> P t \<Longrightarrow> list_all P (ts[i := t])"
  by (auto simp: list_all_iff dest!: set_update_subset_insert [THEN subsetD])

text \<open>The engine was only sent what the tasks may send.\<close>

lemma reachable_awaits:
  assumes "reachable T s0 c" and "\<And>t. t \<in> T \<Longrightarrow> only_awaits P t"
  shows "(\<forall>(q, r) \<in> fst c. P q) \<and> list_all (only_awaits P) (snd (snd c))"
  using assms(1)
proof (induction rule: reachable.induct)
  case (step c c')
  from step.hyps(2) step.IH show ?case
  proof (induction rule: sys_step.induct)
    case (spawn t h s ts)
    with assms(2) show ?case by simp
  next
    case (atomic i ts u k h s)
    then have "only_awaits P (Atomic u k)" by (auto simp: list_all_length)
    with atomic show ?case by (auto intro!: list_all_update)
  next
    case (await i ts q k h s r)
    then have "only_awaits P (Await q k)" by (auto simp: list_all_length)
    with await show ?case by (auto intro!: list_all_update)
  next
    case (sleep i ts n k h s d)
    then have "only_awaits P (Sleep n k)" by (auto simp: list_all_length)
    with sleep show ?case by (auto intro!: list_all_update)
  qed
qed simp

locale task_logic =
  fixes I :: "('q \<times> 'r) set \<Rightarrow> 's \<Rightarrow> bool"
    and G :: "'s \<Rightarrow> 's \<Rightarrow> bool"
    and Q :: "('q \<times> 'r) set \<Rightarrow> 'a option \<Rightarrow> bool"
    and T :: "('s, 'q, 'r, 'a) task set"
    and s0 :: 's
  assumes I_mono: "I h s \<Longrightarrow> h \<subseteq> h' \<Longrightarrow> I h' s"
    and Q_mono: "Q h a \<Longrightarrow> h \<subseteq> h' \<Longrightarrow> Q h' a"
    and I_init: "I {} s0"
    and T_safe: "t \<in> T \<Longrightarrow> safe I G Q t {}"
begin

definition sys_inv :: "('s, 'q, 'r, 'a) sys \<Rightarrow> bool" where
  "sys_inv c = (case c of (h, s, ts) \<Rightarrow> I h s \<and> list_all (\<lambda>t. safe I G Q t h) ts)"

lemma pool_safe: "list_all (\<lambda>t. safe I G Q t h) ts \<Longrightarrow> i < length ts \<Longrightarrow> safe I G Q (ts ! i) h"
  by (simp add: list_all_length)

lemma pool_mono:
  "list_all (\<lambda>t. safe I G Q t h) ts \<Longrightarrow> h \<subseteq> h' \<Longrightarrow> list_all (\<lambda>t. safe I G Q t h') ts"
  by (auto simp: list_all_iff intro: safe_history_mono Q_mono)

lemma sys_step_inv: "sys_step T c c' \<Longrightarrow> sys_inv c \<Longrightarrow> sys_inv c'"
proof (induction rule: sys_step.induct)
  case (spawn t h s ts)
  then have "safe I G Q t h"
    using safe_history_mono [of Q, OF _ T_safe] Q_mono by blast
  with spawn show ?case by (simp add: sys_inv_def)
next
  case (atomic i ts u k h s)
  with pool_safe [of h ts i] show ?case
    by (auto simp: sys_inv_def intro!: list_all_update)
next
  case (await i ts q k h s r)
  with pool_safe [of h ts i] pool_mono [of h ts "insert (q, r) h"] show ?case
    by (auto simp: sys_inv_def intro!: list_all_update intro: I_mono)
next
  case (sleep i ts n k h s d)
  with pool_safe [of h ts i] show ?case
    by (auto simp: sys_inv_def intro!: list_all_update)
qed

lemma reachable_inv: "reachable T s0 c \<Longrightarrow> sys_inv c"
proof (induction rule: reachable.induct)
  case start
  then show ?case by (simp add: sys_inv_def I_init)
next
  case (step c c')
  then show ?case by (blast intro: sys_step_inv)
qed

lemma reachable_invariant: "reachable T s0 (h, s, ts) \<Longrightarrow> I h s"
  using reachable_inv by (fastforce simp: sys_inv_def)

lemma reachable_result: "reachable T s0 (h, s, ts) \<Longrightarrow> Done a \<in> set ts \<Longrightarrow> Q h (Some a)"
  using reachable_inv by (fastforce simp: sys_inv_def list_all_iff)

lemma reachable_no_panic:
  "reachable T s0 (h, s, ts) \<Longrightarrow> (\<And>h. \<not> Q h None) \<Longrightarrow> Panic \<notin> set ts"
  using reachable_inv by (fastforce simp: sys_inv_def list_all_iff)

lemma reachable_step_guarantee:
  assumes "reachable T s0 (h, s, ts)" and "sys_step T (h, s, ts) (h', s', ts')"
  shows "s' = s \<or> G s s'"
  using assms(2)
proof (cases rule: sys_step.cases)
  case (atomic i u k)
  then have "safe I G Q (Atomic u k) h" and "I h s"
    using reachable_inv [OF assms(1)] pool_safe [of h ts i] by (auto simp: sys_inv_def)
  then have "G s (u s)" by auto
  with atomic show ?thesis by simp
qed auto

end

end
