(* ===== verification/Multiplexer.thy ===== *)
theory Multiplexer
  imports Eleel_Config Async_Task
begin

text \<open>
  The multiplexer of \<open>multiplexer.rs\<close> and the payload builder's state of \<open>payload_builder.rs\<close>. The
  record \<open>Multiplexer\<close> holds what never changes after construction (configuration, chain
  specification, genesis time and the operations outside the repository); \<open>MuxState\<close> holds what the
  mutexes protect. \<open>multiplexer_new\<close> constructs both. \<open>mux_caches\<close> is the contract the handlers rely
  on: each of the caches is a forgetful map; \<open>mux_wf\<close> is the well-formedness of the caches.
\<close>

record PayloadBuilder =
  next_payload_id :: u64
  payload_attributes :: "(ExecutionBlockHash \<times> PayloadAttributes, PayloadId) LruCache"
  payload_info :: "(ExecutionBlockHash, PayloadInfo) LruCache"
  payloads :: "(PayloadId, ExecutionPayload) LruCache"
  extra_data :: "u8 list"

record MuxState =
  fcu_cache :: "(JsonForkchoiceStateV1, JsonPayloadStatusV1) LruCache"
  new_payload_cache :: "(ExecutionBlockHash, NewPayloadCacheEntry) LruCache"
  justified_block_cache :: "(ExecutionBlockHash, unit) LruCache"
  finalized_block_cache :: "(ExecutionBlockHash, unit) LruCache"
  payload_builder :: PayloadBuilder

record Multiplexer = External +
  genesis_time :: u64
  spec :: ChainSpec
  config :: Config

type_synonym 'a handler = "(MuxState, EngineCall, EngineReply, 'a) task"

type_synonym rpc_handler = "(ErrorResponse + Response) handler"

text \<open>\<open>PayloadBuilder::new\<close>; \<open>None\<close> is the panic of \<open>unwrap\<close>.\<close>

definition payload_builder_new :: "External \<Rightarrow> nat \<Rightarrow> u8 list \<Rightarrow> PayloadBuilder option" where
  "payload_builder_new ext cache_size extra_data_bytes =
     (let len = min (length extra_data_bytes) (max_extra_data_bytes (lighthouse ext)) in
      case variable_list_new (lighthouse ext) (take len extra_data_bytes) of
        Inl _ \<Rightarrow> None
      | Inr extra \<Rightarrow> Some \<lparr>
          next_payload_id = 0,
          payload_attributes = lru_new (attributes_ops (caches ext)) cache_size,
          payload_info = lru_new (info_ops (caches ext)) cache_size,
          payloads = lru_new (payload_ops (caches ext)) cache_size,
          extra_data = extra \<rparr>)"

definition non_zero_usize :: "nat \<Rightarrow> nat option" where
  "non_zero_usize n = (if n = 0 then None else Some n)"

text \<open>
  The steps that set the engine up, by whether they succeed: the authentication with the secret at a
  path, the parsing of the URL, and the connection to it.
\<close>

record EngineSetup =
  auth_new_with_path :: "string \<Rightarrow> string + unit"
  url_from_str :: "string \<Rightarrow> string + unit"
  http_json_rpc_new :: "string \<Rightarrow> string + unit"

text \<open>
  Allocating a cache always succeeds here; that memory may run out for a huge size is left out.
  \<open>Multiplexer::new\<close>: an error, a panic (\<open>None\<close> inside) or the multiplexer and its initial state.
\<close>

definition multiplexer_new ::
  "External \<Rightarrow> EngineSetup \<Rightarrow> Config \<Rightarrow> (string + Multiplexer \<times> MuxState) option" where
  "multiplexer_new ext setup cfg =
     (let engine =
        and_then (map_err (\<lambda>e. ''JWT secret error: '' @ e)
                    (auth_new_with_path setup (ee_jwt_secret cfg))) (\<lambda>_.
        and_then (map_err (\<lambda>e. ''Invalid EL URL: '' @ e) (url_from_str setup (ee_url cfg))) (\<lambda>_.
        map_err (\<lambda>e. ''Error connecting to EL: '' @ e) (http_json_rpc_new setup (ee_url cfg))));
      size_of = (\<lambda>n. ok_or_else (non_zero_usize n) ''invalid cache size'');
      sizes =
        and_then engine (\<lambda>_.
        and_then (size_of (fcu_cache_size cfg)) (\<lambda>fcu_size.
        and_then (size_of (new_payload_cache_size cfg)) (\<lambda>new_payload_size.
        and_then (size_of (justified_block_cache_size cfg)) (\<lambda>justified_size.
        and_then (size_of (justified_block_cache_size cfg)) (\<lambda>finalized_size.
        and_then (size_of (payload_builder_cache_size cfg)) (\<lambda>builder_size.
        Inr (fcu_size, new_payload_size, justified_size, finalized_size, builder_size)))))))
      in case sizes of
        Inl e \<Rightarrow> Some (Inl e)
      | Inr (fcu_size, new_payload_size, justified_size, finalized_size, builder_size) \<Rightarrow>
          (case payload_builder_new ext builder_size (payload_builder_extra_data cfg) of
             None \<Rightarrow> None
           | Some builder \<Rightarrow> Some (
               and_then (net_chain_spec (network_config (network cfg))) (\<lambda>chain_spec.
               and_then (net_genesis_time (network_config (network cfg))) (\<lambda>genesis_state.
               and_then (ok_or_else genesis_state ''no genesis state'') (\<lambda>genesis.
               Inr (External.extend ext
                      \<lparr>genesis_time = genesis, spec = chain_spec, config = cfg\<rparr>,
                    \<lparr>fcu_cache = lru_new (fcu_ops (caches ext)) fcu_size,
                     new_payload_cache = lru_new (new_payload_ops (caches ext)) new_payload_size,
                     justified_block_cache = lru_new (block_ops (caches ext)) justified_size,
                     finalized_block_cache = lru_new (block_ops (caches ext)) finalized_size,
                     payload_builder = builder\<rparr>)))))))"


section \<open>Well-formed caches\<close>

definition builder_wf :: "PayloadBuilder \<Rightarrow> bool" where
  "builder_wf b \<longleftrightarrow>
     lru_wf (payload_attributes b) \<and> lru_wf (payload_info b) \<and> lru_wf (payloads b)"

definition mux_wf :: "MuxState \<Rightarrow> bool" where
  "mux_wf s \<longleftrightarrow>
     lru_wf (fcu_cache s) \<and> lru_wf (new_payload_cache s) \<and>
     lru_wf (justified_block_cache s) \<and> lru_wf (finalized_block_cache s) \<and>
     builder_wf (payload_builder s)"

locale mux_caches =
  fcu: lru_map "fcu_ops (caches mx)" + np: lru_map "new_payload_ops (caches mx)" +
  blk: lru_map "block_ops (caches mx)" + attr: lru_map "attributes_ops (caches mx)" +
  info: lru_map "info_ops (caches mx)" + pay: lru_map "payload_ops (caches mx)"
  for mx :: "'z External_scheme"

text \<open>The same contract for a constructed multiplexer, in which the handlers are analysed.\<close>

locale mux = mux_caches mx for mx :: Multiplexer

text \<open>What the code relies on about \<open>VariableList::new\<close>: a list within the bound is taken as it is.\<close>

locale bounded_list =
  fixes lh :: Lighthouse
  assumes within_bound:
    "length bs \<le> max_extra_data_bytes lh \<Longrightarrow> variable_list_new lh bs = Inr bs"

interpretation ref: mux_caches ref_external
  by (intro mux_caches.intro; simp add: list_lru.lru_map_axioms)

interpretation ref_list: bounded_list ref_lighthouse
  by unfold_locales (simp add: ref_lighthouse_def)

text \<open>An empty state: no cache holds anything and no payload id has been issued.\<close>

definition mux_empty :: "MuxState \<Rightarrow> bool" where
  "mux_empty s \<longleftrightarrow>
     (\<forall>k. lru_lookup (fcu_cache s) k = None) \<and> (\<forall>k. lru_lookup (new_payload_cache s) k = None) \<and>
     (\<forall>k. lru_lookup (justified_block_cache s) k = None) \<and>
     (\<forall>k. lru_lookup (finalized_block_cache s) k = None) \<and>
     (\<forall>k. lru_lookup (payload_attributes (payload_builder s)) k = None) \<and>
     (\<forall>k. lru_lookup (payload_info (payload_builder s)) k = None) \<and>
     (\<forall>k. lru_lookup (payloads (payload_builder s)) k = None) \<and>
     next_payload_id (payload_builder s) = 0"

lemma payload_builder_new_total:
  assumes "bounded_list (lighthouse ext)"
  shows "payload_builder_new ext n bs = Some \<lparr>next_payload_id = 0,
     payload_attributes = lru_new (attributes_ops (caches ext)) n,
     payload_info = lru_new (info_ops (caches ext)) n,
     payloads = lru_new (payload_ops (caches ext)) n,
     extra_data = take (max_extra_data_bytes (lighthouse ext)) bs\<rparr>"
proof -
  have "take (min (length bs) (max_extra_data_bytes (lighthouse ext))) bs
      = take (max_extra_data_bytes (lighthouse ext)) bs"
    by (simp add: min_def)
  then show ?thesis
    using bounded_list.within_bound [OF assms, of "take (max_extra_data_bytes (lighthouse ext)) bs"]
    by (simp add: payload_builder_new_def Let_def)
qed

definition initial_state :: "External \<Rightarrow> Config \<Rightarrow> MuxState" where
  "initial_state ext cfg =
     \<lparr>fcu_cache = lru_new (fcu_ops (caches ext)) (fcu_cache_size cfg),
      new_payload_cache = lru_new (new_payload_ops (caches ext)) (new_payload_cache_size cfg),
      justified_block_cache = lru_new (block_ops (caches ext)) (justified_block_cache_size cfg),
      finalized_block_cache = lru_new (block_ops (caches ext)) (justified_block_cache_size cfg),
      payload_builder = \<lparr>next_payload_id = 0,
        payload_attributes = lru_new (attributes_ops (caches ext)) (payload_builder_cache_size cfg),
        payload_info = lru_new (info_ops (caches ext)) (payload_builder_cache_size cfg),
        payloads = lru_new (payload_ops (caches ext)) (payload_builder_cache_size cfg),
        extra_data =
          take (max_extra_data_bytes (lighthouse ext)) (payload_builder_extra_data cfg)\<rparr>\<rparr>"

definition sizes_positive :: "Config \<Rightarrow> bool" where
  "sizes_positive cfg \<longleftrightarrow>
     0 < fcu_cache_size cfg \<and> 0 < new_payload_cache_size cfg \<and>
     0 < justified_block_cache_size cfg \<and> 0 < payload_builder_cache_size cfg"

lemma size_check:
  "ok_or_else (non_zero_usize n) e = (if n = 0 then Inl e else Inr n)"
  by (simp add: non_zero_usize_def)

lemma multiplexer_new_returns:
  assumes "bounded_list (lighthouse ext)"
  shows "\<exists>r. multiplexer_new ext setup cfg = Some r"
  by (auto simp: multiplexer_new_def payload_builder_new_total [OF assms] Let_def
      split: sum.splits prod.splits)

lemma multiplexer_new_success:
  assumes "bounded_list (lighthouse ext)"
    and "multiplexer_new ext setup cfg = Some (Inr (mx, s))"
  shows "sizes_positive cfg \<and> config mx = cfg \<and> External.truncate mx = ext
    \<and> s = initial_state ext cfg"
  using assms(2)
  by (auto simp: multiplexer_new_def payload_builder_new_total [OF assms(1)] Let_def size_check
      and_then_Inr_iff sizes_positive_def initial_state_def External.defs
      split: sum.splits prod.splits if_splits)

context mux_caches
begin

lemma initial_state_ok:
  assumes "sizes_positive cfg" and "caches ext = caches mx"
  shows "mux_wf (initial_state ext cfg)" and "mux_empty (initial_state ext cfg)"
  using assms
  by (simp_all add: mux_wf_def builder_wf_def mux_empty_def initial_state_def sizes_positive_def
      fcu.new_wf np.new_wf blk.new_wf attr.new_wf info.new_wf pay.new_wf
      fcu.new_empty np.new_empty blk.new_empty attr.new_empty info.new_empty pay.new_empty)

lemma initial_state_caps:
  assumes "caches ext = caches mx"
  shows "lru_cap (fcu_cache (initial_state ext cfg)) = fcu_cache_size cfg"
    and "lru_cap (new_payload_cache (initial_state ext cfg)) = new_payload_cache_size cfg"
    and "lru_cap (justified_block_cache (initial_state ext cfg)) = justified_block_cache_size cfg"
    and "lru_cap (finalized_block_cache (initial_state ext cfg)) = justified_block_cache_size cfg"
    and "lru_cap (payload_attributes (payload_builder (initial_state ext cfg))) = payload_builder_cache_size cfg"
    and "lru_cap (payload_info (payload_builder (initial_state ext cfg))) = payload_builder_cache_size cfg"
    and "lru_cap (payloads (payload_builder (initial_state ext cfg))) = payload_builder_cache_size cfg"
  using assms
  by (simp_all add: initial_state_def fcu.new_cap np.new_cap blk.new_cap attr.new_cap info.new_cap pay.new_cap)

end


section \<open>An example configuration\<close>

definition example_spec :: ChainSpec where
  "example_spec = \<lparr>seconds_per_slot = 12,
     fork_name_at_slot = (\<lambda>slot. if slot < 10 then Fork_Bellatrix else if slot < 20 then Fork_Capella
        else if slot < 30 then Fork_Deneb else Fork_Electra)\<rparr>"

definition example_config :: Config where
  "example_config = default_config ''ee.jwt'' ''controller.jwt'' ''clients.toml''
     \<lparr>network_config = \<lparr>net_chain_spec = Inr example_spec, net_genesis_time = Inr (Some 1000)\<rparr>\<rparr>"

definition example_setup :: EngineSetup where
  "example_setup = \<lparr>auth_new_with_path = (\<lambda>p. Inr ()), url_from_str = (\<lambda>u. Inr ()),
     http_json_rpc_new = (\<lambda>u. Inr ())\<rparr>"

definition example_multiplexer :: Multiplexer where
  "example_multiplexer = External.extend ref_external
     \<lparr>genesis_time = 1000, spec = example_spec, config = example_config\<rparr>"

interpretation example: mux example_multiplexer
  by (intro mux.intro mux_caches.intro; simp add: example_multiplexer_def External.defs ref_external_def
      list_lru.lru_map_axioms)

lemma ref_ops: "mux_caches ref_external" "bounded_list (lighthouse ref_external)"
  by (simp_all add: ref.mux_caches_axioms ref_list.bounded_list_axioms)

lemma example_new:
  "\<exists>s. multiplexer_new ref_external example_setup example_config = Some (Inr (example_multiplexer, s))"
  by (simp add: multiplexer_new_def payload_builder_new_total [OF ref_ops(2)] Let_def size_check
      example_config_def example_setup_def example_multiplexer_def default_config_def)


section \<open>Properties\<close>

text \<open>
  C32. Construction never panics, and when it succeeds every cache is empty and well formed, no payload id
  has been issued, and the capacities are those of the options: the forkchoice, payload and justified
  block caches each have their own, the finalized block cache has that of the justified block cache, and
  the three caches of the builder share the builder's. The extra data is the configured string cut at the
  protocol's bound. It fails with an error when one of the sizes is zero.
\<close>

theorem multiplexer_new_initial:
  assumes "mux_caches ext" and "bounded_list (lighthouse ext)"
  shows "\<exists>r. multiplexer_new ext setup cfg = Some r \<and>
    (\<not> sizes_positive cfg \<longrightarrow> (\<exists>e. r = Inl e)) \<and>
    (\<forall>mx s. r = Inr (mx, s) \<longrightarrow>
       mux_wf s \<and> mux_empty s \<and> config mx = cfg \<and>
       lru_cap (fcu_cache s) = fcu_cache_size cfg \<and>
       lru_cap (new_payload_cache s) = new_payload_cache_size cfg \<and>
       lru_cap (justified_block_cache s) = justified_block_cache_size cfg \<and>
       lru_cap (finalized_block_cache s) = justified_block_cache_size cfg \<and>
       lru_cap (payload_attributes (payload_builder s)) = payload_builder_cache_size cfg \<and>
       lru_cap (payload_info (payload_builder s)) = payload_builder_cache_size cfg \<and>
       lru_cap (payloads (payload_builder s)) = payload_builder_cache_size cfg \<and>
       extra_data (payload_builder s) =
         take (max_extra_data_bytes (lighthouse ext)) (payload_builder_extra_data cfg))"
proof -
  obtain r where r: "multiplexer_new ext setup cfg = Some r"
    using multiplexer_new_returns [OF assms(2)] by blast
  have "sizes_positive cfg \<and> config mx = cfg \<and> s = initial_state ext cfg" if "r = Inr (mx, s)" for mx s
    using multiplexer_new_success [OF assms(2)] r that by blast
  moreover have "\<exists>e. r = Inl e" if "\<not> sizes_positive cfg"
    using multiplexer_new_success [OF assms(2)] r that by (cases r) auto
  ultimately show ?thesis
    using r mux_caches.initial_state_ok [OF assms(1) _ refl] mux_caches.initial_state_caps [OF assms(1) refl]
    by (auto simp: initial_state_def)
qed

theorem multiplexer_new_initial_witness:
  "\<exists>s. multiplexer_new ref_external example_setup example_config = Some (Inr (example_multiplexer, s)) \<and>
     mux_wf s \<and> mux_empty s \<and> lru_cap (fcu_cache s) = 64"
proof -
  from multiplexer_new_initial [OF ref_ops, of example_setup example_config] example_new show ?thesis
    by (auto simp: example_config_def default_config_def)
qed

text \<open>
  C38. The capacity of the finalized block cache is the option \<open>--justified-block-cache-size\<close>; the
  option \<open>--finalized-block-cache-size\<close> has no influence on the constructed state.
\<close>

theorem finalized_cache_size_ignored:
  assumes "mux_caches ext" and "bounded_list (lighthouse ext)"
    and "multiplexer_new ext setup cfg = Some (Inr (mx, s))"
  shows "lru_cap (finalized_block_cache s) = justified_block_cache_size cfg \<and>
    (\<exists>mx'. multiplexer_new ext setup (cfg\<lparr>finalized_block_cache_size := n\<rparr>) = Some (Inr (mx', s)))"
proof -
  from multiplexer_new_success [OF assms(2,3)] have s: "s = initial_state ext cfg" by blast
  with mux_caches.initial_state_caps [OF assms(1) refl] have
    "lru_cap (finalized_block_cache s) = justified_block_cache_size cfg" by simp
  moreover have "\<exists>mx'. multiplexer_new ext setup (cfg\<lparr>finalized_block_cache_size := n\<rparr>) = Some (Inr (mx', s))"
    using assms(3)
    by (auto simp: multiplexer_new_def Let_def and_then_Inr_iff
        split: sum.splits prod.splits option.splits)
  ultimately show ?thesis by blast
qed

theorem finalized_cache_size_ignored_witness:
  "\<exists>mx s. multiplexer_new ref_external example_setup (example_config\<lparr>finalized_block_cache_size := 100\<rparr>)
     = Some (Inr (mx, s)) \<and> lru_cap (finalized_block_cache s) = 4"
proof -
  from example_new obtain s where
    "multiplexer_new ref_external example_setup example_config = Some (Inr (example_multiplexer, s))" ..
  from finalized_cache_size_ignored [OF ref_ops this, of 100] show ?thesis
    by (auto simp: example_config_def default_config_def)
qed

end
