(* ===== verification/Payload_Builder.thy ===== *)
theory Payload_Builder
  imports Multiplexer
begin

text \<open>
  The dummy payload builder of \<open>payload_builder.rs\<close>: registering payload attributes (which builds a
  payload), tracking canonical payloads, and serving built payloads by id. \<open>timestamp_to_slot\<close> of
  \<open>new_payload.rs\<close> is here because the builder calls it. Each operation holds the builder's lock from
  its first access to its end and awaits nothing in between, so its body is one atomic section, written
  as a function on the builder's state.
\<close>

definition timestamp_to_slot :: "Multiplexer \<Rightarrow> u64 \<Rightarrow> Slot option" where
  "timestamp_to_slot mx timestamp =
     Option.bind (checked_sub timestamp (genesis_time mx)) (\<lambda>elapsed.
     checked_div elapsed (seconds_per_slot (spec mx)))"

section \<open>Building a payload\<close>

definition built_header ::
  "Multiplexer \<Rightarrow> ExecutionBlockHash \<Rightarrow> PayloadAttributes \<Rightarrow> u8 list \<Rightarrow> PayloadInfo \<Rightarrow> u256 \<Rightarrow>
   ExecutionPayloadBellatrix" where
  "built_header mx parent_hash attributes extra parent_info base_fee_per_gas = \<lparr>
     ep_parent_hash = parent_hash,
     ep_fee_recipient = pa_suggested_fee_recipient attributes,
     ep_state_root = pi_state_root parent_info,
     ep_receipts_root = keccak_empty_list_rlp (lighthouse mx),
     ep_logs_bloom = default_logs_bloom (lighthouse mx),
     ep_prev_randao = pa_prev_randao attributes,
     ep_block_number = pi_block_number parent_info + 1,
     ep_gas_limit = 30000000,
     ep_gas_used = 0,
     ep_timestamp = pa_timestamp attributes,
     ep_extra_data = extra,
     ep_base_fee_per_gas = base_fee_per_gas,
     ep_block_hash = 0,
     ep_transactions = [] \<rparr>"

definition payload_for_fork ::
  "Multiplexer \<Rightarrow> ForkName \<Rightarrow> ExecutionPayloadBellatrix \<Rightarrow> PayloadAttributes \<Rightarrow>
   string + ExecutionPayload" where
  "payload_for_fork mx fork_name header attributes =
     (let withdrawals = and_then (ok_or_else (pa_withdrawals attributes) ''no withdrawals'')
        (\<lambda>ws. Inr (withdrawals_from (lighthouse mx) ws)) in
      case fork_name of
        Fork_Bellatrix \<Rightarrow> Inr (Bellatrix header)
      | Fork_Capella \<Rightarrow> and_then withdrawals (\<lambda>ws.
          Inr (Capella (ExecutionPayloadBellatrix.extend header \<lparr>ep_withdrawals = ws\<rparr>)))
      | Fork_Deneb \<Rightarrow> and_then withdrawals (\<lambda>ws.
          Inr (Deneb (ExecutionPayloadBellatrix.extend header
            \<lparr>ep_withdrawals = ws, ep_blob_gas_used = 0, ep_excess_blob_gas = 0\<rparr>)))
      | Fork_Electra \<Rightarrow> and_then withdrawals (\<lambda>ws.
          Inr (Electra (ExecutionPayloadBellatrix.extend header
            \<lparr>ep_withdrawals = ws, ep_blob_gas_used = 0, ep_excess_blob_gas = 0\<rparr>)))
      | Fork_Fulu \<Rightarrow> Inl ''Fulu not supported''
      | Fork_Base \<Rightarrow> Inl (''invalid fork: '' @ display_fork (lighthouse mx) fork_name)
      | Fork_Altair \<Rightarrow> Inl (''invalid fork: '' @ display_fork (lighthouse mx) fork_name))"

definition built_execution_requests :: "ForkName \<Rightarrow> ExecutionRequests option" where
  "built_execution_requests fork_name =
     (case fork_name of Fork_Electra \<Rightarrow> Some default_execution_requests | _ \<Rightarrow> None)"

text \<open>The block hash over a payload whose own hash field is still zero, written into it.\<close>

definition seal ::
  "Multiplexer \<Rightarrow> PayloadAttributes \<Rightarrow> ForkName \<Rightarrow> ExecutionPayload \<Rightarrow> ExecutionPayload" where
  "seal mx attributes fork_name payload =
     set_block_hash
       (calculate_execution_block_hash (lighthouse mx) payload
          (pa_parent_beacon_block_root attributes) (built_execution_requests fork_name)) payload"

text \<open>From the parent's information to the finished payload; \<open>None\<close> is a panic.\<close>

definition build_payload ::
  "Multiplexer \<Rightarrow> Slot \<Rightarrow> ExecutionBlockHash \<Rightarrow> PayloadAttributes \<Rightarrow> u8 list \<Rightarrow> PayloadInfo \<Rightarrow>
   (string + ExecutionPayload) option" where
  "build_payload mx slot parent_hash attributes extra parent_info =
     (let fork_name = fork_name_at_slot (spec mx) slot in
      map_option (\<lambda>base_fee_per_gas.
        and_then (payload_for_fork mx fork_name
          (built_header mx parent_hash attributes extra parent_info base_fee_per_gas) attributes)
          (\<lambda>payload. Inr (seal mx attributes fork_name payload)))
        (expected_base_fee_per_gas (uint256_ops mx) (pi_base_fee_per_gas parent_info)
           (pi_gas_used parent_info) (pi_gas_limit parent_info)))"

section \<open>Operations\<close>

definition register_attributes_locked ::
  "Multiplexer \<Rightarrow> Slot \<Rightarrow> ExecutionBlockHash \<Rightarrow> PayloadAttributes \<Rightarrow> PayloadBuilder \<Rightarrow>
   (string + PayloadId) option \<times> PayloadBuilder" where
  "register_attributes_locked mx slot parent_hash attributes builder =
     (let attributes_key = (parent_hash, attributes);
          (known, attributes_cache) =
            lru_get (attributes_ops (caches mx)) (payload_attributes builder) attributes_key;
          builder = builder\<lparr>payload_attributes := attributes_cache\<rparr>
      in case known of
        Some i \<Rightarrow> (Some (Inr i), builder)
      | None \<Rightarrow>
          (let (info, info_cache) = lru_get (info_ops (caches mx)) (payload_info builder) parent_hash;
               builder = builder\<lparr>payload_info := info_cache\<rparr>
           in case info of
             None \<Rightarrow> (Some (Inl (''unknown parent: '' @ debug_hash (lighthouse mx) parent_hash)), builder)
           | Some parent_info \<Rightarrow>
               (let i = to_be_bytes (next_payload_id builder)
                in case build_payload mx slot parent_hash attributes (extra_data builder) parent_info of
                  None \<Rightarrow> (None, builder)
                | Some (Inl e) \<Rightarrow> (Some (Inl e), builder)
                | Some (Inr payload) \<Rightarrow>
                    (Some (Inr i),
                     builder\<lparr>
                       payload_attributes :=
                         lru_put (attributes_ops (caches mx)) (payload_attributes builder) attributes_key i,
                       payloads := lru_put (payload_ops (caches mx)) (payloads builder) i payload,
                       next_payload_id := next_payload_id builder + 1\<rparr>))))"

text \<open>A section under the builder's lock.\<close>

definition with_builder :: "(PayloadBuilder \<Rightarrow> 'a \<times> PayloadBuilder) \<Rightarrow> MuxState \<Rightarrow> 'a \<times> MuxState" where
  "with_builder f s = (case f (payload_builder s) of (r, b) \<Rightarrow> (r, s\<lparr>payload_builder := b\<rparr>))"

definition register_attributes ::
  "Multiplexer \<Rightarrow> ExecutionBlockHash \<Rightarrow> PayloadAttributes \<Rightarrow> (string + PayloadId) handler" where
  "register_attributes mx parent_hash attributes =
     (let timestamp = pa_timestamp attributes in
      case timestamp_to_slot mx timestamp of
        None \<Rightarrow> Done (Inl (''invalid timestamp '' @ show_nat (unat timestamp)))
      | Some slot \<Rightarrow>
          bind_task (atomically (with_builder (register_attributes_locked mx slot parent_hash attributes)))
            (\<lambda>r. unwrap_task r Done))"

definition get_existing_payload_id ::
  "Multiplexer \<Rightarrow> ExecutionBlockHash \<Rightarrow> PayloadAttributes \<Rightarrow> MuxState \<Rightarrow> (string + PayloadId) \<times> MuxState" where
  "get_existing_payload_id mx parent_hash attributes = with_builder (\<lambda>builder.
     case lru_get (attributes_ops (caches mx)) (payload_attributes builder) (parent_hash, attributes) of
       (r, cache) \<Rightarrow>
         (ok_or_else r (''no payload ID known for parent '' @ debug_hash (lighthouse mx) parent_hash),
          builder\<lparr>payload_attributes := cache\<rparr>))"

definition payload_info_of :: "ExecutionPayload \<Rightarrow> PayloadInfo" where
  "payload_info_of payload =
     (let header = payload_header payload in
      \<lparr>pi_block_number = ep_block_number header, pi_state_root = ep_state_root header,
       pi_base_fee_per_gas = ep_base_fee_per_gas header, pi_gas_used = ep_gas_used header,
       pi_gas_limit = ep_gas_limit header\<rparr>)"

definition canonical_insert :: "Multiplexer \<Rightarrow> ExecutionPayload \<Rightarrow> PayloadBuilder \<Rightarrow> PayloadBuilder" where
  "canonical_insert mx payload builder = builder\<lparr>payload_info :=
     snd (lru_get_or_insert (info_ops (caches mx)) (payload_info builder)
           (payload_block_hash payload) (payload_info_of payload))\<rparr>"

definition register_canonical_payload ::
  "Multiplexer \<Rightarrow> ExecutionPayload \<Rightarrow> JsonPayloadStatusV1Status \<Rightarrow> unit handler" where
  "register_canonical_payload mx payload status =
     (if status = Invalid \<or> status = InvalidBlockHash then Done ()
      else atomically (with_builder (\<lambda>builder. ((), canonical_insert mx payload builder))))"

definition get_payload ::
  "Multiplexer \<Rightarrow> PayloadId \<Rightarrow> MuxState \<Rightarrow> (string + ExecutionPayload) \<times> MuxState" where
  "get_payload mx payload_id = with_builder (\<lambda>builder.
     case lru_get (payload_ops (caches mx)) (payloads builder) payload_id of
       (r, cache) \<Rightarrow>
         (ok_or_else r (''unknown payload ID: '' @ show_nat (unat (from_be_bytes payload_id))),
          builder\<lparr>payloads := cache\<rparr>))"

definition get_payload_response :: "JsonExecutionPayload \<Rightarrow> GetPayloadResponse option" where
  "get_payload_response json_payload =
     (let block_value = 0 in
      case json_payload of
        JsonPayloadV1 p \<Rightarrow> Some (GetPayloadResponseV1 p block_value)
      | JsonPayloadV2 p \<Rightarrow> Some (GetPayloadResponseV2 p block_value)
      | JsonPayloadV3 p \<Rightarrow> Some (GetPayloadResponseV3 p block_value default_blobs_bundle False)
      | JsonPayloadV4 p \<Rightarrow> Some (GetPayloadResponseV4 p block_value default_blobs_bundle False [])
      | JsonPayloadV5 p \<Rightarrow> None)"

definition handle_get_payload :: "Multiplexer \<Rightarrow> Request \<Rightarrow> rpc_handler" where
  "handle_get_payload mx request =
     try_task (parse_as (decode_payload_id (serde mx)) request) (\<lambda>(i, payload_id).
     bind_task (atomically (get_payload mx payload_id)) (\<lambda>r.
     case r of
       Inl message \<Rightarrow> Done (Inl (unknown_payload i message))
     | Inr payload \<Rightarrow>
         unwrap_task (get_payload_response (json_execution_payload_from (lighthouse mx) payload))
           (\<lambda>response. Done (response_new (to_value (serde mx)) i (GetPayloadResult response)))))"



section \<open>The slot of a timestamp\<close>

lemma timestamp_to_slot_iff:
  "timestamp_to_slot mx t = Some slot \<longleftrightarrow>
     unat (genesis_time mx) \<le> unat t \<and> seconds_per_slot (spec mx) \<noteq> 0 \<and>
     unat slot = (unat t - unat (genesis_time mx)) div unat (seconds_per_slot (spec mx))"
proof
  assume "timestamp_to_slot mx t = Some slot"
  then show "unat (genesis_time mx) \<le> unat t \<and> seconds_per_slot (spec mx) \<noteq> 0 \<and>
     unat slot = (unat t - unat (genesis_time mx)) div unat (seconds_per_slot (spec mx))"
    by (auto simp: timestamp_to_slot_def bind_eq_Some_conv word_nat)
next
  assume *: "unat (genesis_time mx) \<le> unat t \<and> seconds_per_slot (spec mx) \<noteq> 0 \<and>
     unat slot = (unat t - unat (genesis_time mx)) div unat (seconds_per_slot (spec mx))"
  then have "unat (t - genesis_time mx) = unat t - unat (genesis_time mx)"
    by (simp add: unat_sub word_le_nat_alt)
  with * show "timestamp_to_slot mx t = Some slot"
    by (auto simp: timestamp_to_slot_def bind_eq_Some_conv word_nat)
qed


section \<open>What is built\<close>

text \<open>The payload carries what the consensus client asked for, on the parent it named.\<close>

definition payload_answers :: "ExecutionBlockHash \<times> PayloadAttributes \<Rightarrow> ExecutionPayload \<Rightarrow> bool" where
  "payload_answers k p \<longleftrightarrow>
     ep_parent_hash (payload_header p) = fst k \<and>
     ep_timestamp (payload_header p) = pa_timestamp (snd k) \<and>
     ep_prev_randao (payload_header p) = pa_prev_randao (snd k) \<and>
     ep_fee_recipient (payload_header p) = pa_suggested_fee_recipient (snd k)"

primrec is_fulu :: "ExecutionPayload \<Rightarrow> bool" where
  "is_fulu (Bellatrix p) = False"
| "is_fulu (Capella p) = False"
| "is_fulu (Deneb p) = False"
| "is_fulu (Electra p) = False"
| "is_fulu (Fulu p) = True"

text \<open>An empty dummy payload, of a fork that can be served.\<close>

definition is_dummy :: "ExecutionPayload \<Rightarrow> bool" where
  "is_dummy p \<longleftrightarrow>
     \<not> is_fulu p \<and>
     ep_transactions (payload_header p) = [] \<and> ep_gas_used (payload_header p) = 0 \<and>
     ep_gas_limit (payload_header p) = 30000000"

lemma payload_for_fork_header:
  "payload_for_fork mx fork header a = Inr p \<Longrightarrow>
     payload_header p = header \<and> \<not> is_fulu p"
  by (cases fork) (auto simp: payload_for_fork_def Let_def and_then_Inr_iff
      ExecutionPayloadBellatrix.defs)

lemma is_fulu_set_block_hash [simp]:
  "is_fulu (set_block_hash h p) = is_fulu p"
  by (cases p) simp_all

lemma build_payload_header:
  assumes "build_payload mx slot ph a extra info = Some (Inr p)"
  obtains h fee where "payload_header p = (built_header mx ph a extra info fee)\<lparr>ep_block_hash := h\<rparr>"
    and "expected_base_fee_per_gas (uint256_ops mx) (pi_base_fee_per_gas info) (pi_gas_used info)
           (pi_gas_limit info) = Some fee"
    and "\<not> is_fulu p"
proof -
  from assms obtain fee q where fee: "expected_base_fee_per_gas (uint256_ops mx)
        (pi_base_fee_per_gas info) (pi_gas_used info) (pi_gas_limit info) = Some fee"
    and q: "payload_for_fork mx (fork_name_at_slot (spec mx) slot)
              (built_header mx ph a extra info fee) a = Inr q"
    and p: "p = seal mx a (fork_name_at_slot (spec mx) slot) q"
    by (auto simp: build_payload_def Let_def and_then_Inr_iff)
  from payload_for_fork_header [OF q] p have
    "payload_header p = (built_header mx ph a extra info fee)\<lparr>ep_block_hash := payload_block_hash p\<rparr>"
    and "\<not> is_fulu p"
    by (simp_all add: seal_def)
  with fee that show ?thesis by blast
qed

lemma build_payload_answers: "build_payload mx slot ph a extra info = Some (Inr p) \<Longrightarrow> payload_answers (ph, a) p"
  by (erule build_payload_header) (simp add: payload_answers_def built_header_def)

lemma build_payload_dummy: "build_payload mx slot ph a extra info = Some (Inr p) \<Longrightarrow> is_dummy p"
  by (erule build_payload_header) (simp add: is_dummy_def built_header_def)


section \<open>The builder's invariant\<close>

definition same_contents :: "PayloadBuilder \<Rightarrow> PayloadBuilder \<Rightarrow> bool" where
  "same_contents b b' \<longleftrightarrow>
     next_payload_id b' = next_payload_id b \<and> extra_data b' = extra_data b \<and>
     lru_lookup (payload_attributes b') = lru_lookup (payload_attributes b) \<and>
     lru_lookup (payload_info b') = lru_lookup (payload_info b) \<and>
     lru_lookup (payloads b') = lru_lookup (payloads b)"

definition issued :: "PayloadBuilder \<Rightarrow> PayloadId \<Rightarrow> bool" where
  "issued b i \<longleftrightarrow> (\<exists>n < next_payload_id b. i = to_be_bytes n)"

definition builder_inv :: "PayloadBuilder \<Rightarrow> bool" where
  "builder_inv b \<longleftrightarrow> builder_wf b \<and>
     (\<forall>k i. lru_lookup (payload_attributes b) k = Some i \<longrightarrow> issued b i) \<and>
     (\<forall>i p. lru_lookup (payloads b) i = Some p \<longrightarrow> issued b i \<and> is_dummy p) \<and>
     (\<forall>k k' i. lru_lookup (payload_attributes b) k = Some i \<longrightarrow>
        lru_lookup (payload_attributes b) k' = Some i \<longrightarrow> k = k') \<and>
     (\<forall>k i p. lru_lookup (payload_attributes b) k = Some i \<longrightarrow> lru_lookup (payloads b) i = Some p \<longrightarrow>
        payload_answers k p)"

lemma builder_invD:
  assumes "builder_inv b"
  shows "builder_wf b"
    and "lru_lookup (payload_attributes b) k = Some i \<Longrightarrow> issued b i"
    and "lru_lookup (payloads b) i = Some p \<Longrightarrow> issued b i"
    and "lru_lookup (payloads b) i = Some p \<Longrightarrow> is_dummy p"
    and "lru_lookup (payload_attributes b) k = Some i \<Longrightarrow>
          lru_lookup (payload_attributes b) k' = Some i \<Longrightarrow> k = k'"
    and "lru_lookup (payload_attributes b) k = Some i \<Longrightarrow> lru_lookup (payloads b) i = Some p \<Longrightarrow>
          payload_answers k p"
  using assms unfolding builder_inv_def by blast+

lemma same_contents_refl [simp]: "same_contents b b"
  by (simp add: same_contents_def)

lemma same_contents_inv: "same_contents b b' \<Longrightarrow> builder_wf b' \<Longrightarrow> builder_inv b \<Longrightarrow> builder_inv b'"
  by (simp add: same_contents_def builder_inv_def issued_def)

lemma issued_next_fresh: "\<not> issued b (to_be_bytes (next_payload_id b))"
  by (simp add: issued_def)

lemma issued_step:
  assumes "next_payload_id b \<noteq> - 1" and "next_payload_id b' = next_payload_id b + 1"
  shows "issued b i \<Longrightarrow> issued b' i" and "issued b' (to_be_bytes (next_payload_id b))"
proof -
  have "next_payload_id b < next_payload_id b'"
    using assms by (metis inc_less_eq_triv_imp linorder_not_le)
  then show "issued b i \<Longrightarrow> issued b' i" and "issued b' (to_be_bytes (next_payload_id b))"
    by (auto simp: issued_def)
qed

context mux
begin

lemma attr_get:
  assumes "lru_wf c"
  shows "\<exists>c'. lru_get (attributes_ops (caches mx)) c k = (lru_lookup c k, c') \<and>
    lru_wf c' \<and> lru_lookup c' = lru_lookup c"
  using attr.get_pair [OF assms] by (metis surj_pair)

lemma info_get:
  assumes "lru_wf c"
  shows "\<exists>c'. lru_get (info_ops (caches mx)) c k = (lru_lookup c k, c') \<and>
    lru_wf c' \<and> lru_lookup c' = lru_lookup c"
  using info.get_pair [OF assms] by (metis surj_pair)

lemma pay_get:
  assumes "lru_wf c"
  shows "\<exists>c'. lru_get (payload_ops (caches mx)) c k = (lru_lookup c k, c') \<and>
    lru_wf c' \<and> lru_lookup c' = lru_lookup c"
  using pay.get_pair [OF assms] by (metis surj_pair)

lemma register_attributes_cases:
  assumes wf: "builder_wf b" and eq: "register_attributes_locked mx slot ph a b = (r, b')"
  obtains
    (known) i where "lru_lookup (payload_attributes b) (ph, a) = Some i" and "r = Some (Inr i)"
      and "same_contents b b'" and "builder_wf b'"
  | (refused) "lru_lookup (payload_attributes b) (ph, a) = None" and "\<And>i. r \<noteq> Some (Inr i)"
      and "same_contents b b'" and "builder_wf b'"
  | (built) info p where "lru_lookup (payload_attributes b) (ph, a) = None"
      and "lru_lookup (payload_info b) ph = Some info"
      and "build_payload mx slot ph a (extra_data b) info = Some (Inr p)"
      and "r = Some (Inr (to_be_bytes (next_payload_id b)))"
      and "next_payload_id b' = next_payload_id b + 1" and "extra_data b' = extra_data b"
      and "lru_lookup (payload_info b') = lru_lookup (payload_info b)"
      and "forgetful_upd (lru_lookup (payload_attributes b)) (ph, a) (to_be_bytes (next_payload_id b))
             (lru_lookup (payload_attributes b'))"
      and "forgetful_upd (lru_lookup (payloads b)) (to_be_bytes (next_payload_id b)) p
             (lru_lookup (payloads b'))"
      and "builder_wf b'"
proof -
  from wf have wfs: "lru_wf (payload_attributes b)" "lru_wf (payload_info b)" "lru_wf (payloads b)"
    by (simp_all add: builder_wf_def)
  obtain ac where ac: "lru_get (attributes_ops (caches mx)) (payload_attributes b) (ph, a) =
      (lru_lookup (payload_attributes b) (ph, a), ac)"
    and ac_same: "lru_wf ac" "lru_lookup ac = lru_lookup (payload_attributes b)"
    using attr_get [OF wfs(1)] by blast
  obtain ic where ic: "lru_get (info_ops (caches mx)) (payload_info b) ph =
      (lru_lookup (payload_info b) ph, ic)"
    and ic_same: "lru_wf ic" "lru_lookup ic = lru_lookup (payload_info b)"
    using info_get [OF wfs(2)] by blast
  note simps = register_attributes_locked_def Let_def ac ic same_contents_def builder_wf_def
    ac_same ic_same wfs attr.put_wf pay.put_wf
  note puts = attr.put_forgetful [OF ac_same(1)] pay.put_forgetful [OF wfs(3)]
  show thesis
  proof (cases "lru_lookup (payload_attributes b) (ph, a)")
    case (Some i)
    with eq known [of i] show thesis by (auto simp: simps)
  next
    case no_id: None
    show thesis
    proof (cases "\<exists>info p. lru_lookup (payload_info b) ph = Some info \<and>
        build_payload mx slot ph a (extra_data b) info = Some (Inr p)")
      case True
      then obtain info p where "lru_lookup (payload_info b) ph = Some info"
        and "build_payload mx slot ph a (extra_data b) info = Some (Inr p)" by blast
      with eq no_id puts show thesis
        by (intro built [of info p]) (auto simp: simps)
    next
      case False
      with eq no_id show thesis
        by (intro refused) (auto simp: simps split: option.splits sum.splits)
    qed
  qed
qed

lemma register_attributes_inv:
  assumes inv: "builder_inv b" and "next_payload_id b \<noteq> - 1"
    and eq: "register_attributes_locked mx slot ph a b = (r, b')"
  shows "builder_inv b'"
proof -
  note invD = builder_invD [OF inv]
  from invD(1) eq show ?thesis
  proof (cases rule: register_attributes_cases)
    case (built info p)
    let ?i = "to_be_bytes (next_payload_id b)"
    note step = issued_step [OF assms(2) built(5)]
    have fresh: "lru_lookup (payload_attributes b) k \<noteq> Some ?i" for k
      using invD(2) issued_next_fresh [of b] by blast
    have attrs: "k = (ph, a) \<and> i = ?i \<or> lru_lookup (payload_attributes b) k = Some i"
      if "lru_lookup (payload_attributes b') k = Some i" for k i
      using forgetful_updD [OF built(8) that] by blast
    have pays: "i = ?i \<and> q = p \<or> i \<noteq> ?i \<and> lru_lookup (payloads b) i = Some q"
      if "lru_lookup (payloads b') i = Some q" for i q
      using forgetful_updD [OF built(9) that] by blast
    note built_p = build_payload_answers [OF built(3)] build_payload_dummy [OF built(3)]
    show ?thesis
      unfolding builder_inv_def
    proof (intro conjI allI impI)
      fix k i assume "lru_lookup (payload_attributes b') k = Some i"
      then show "issued b' i" using attrs invD(2) step by blast
    next
      fix i q assume "lru_lookup (payloads b') i = Some q"
      then show "issued b' i" and "is_dummy q"
        using pays invD(3,4) step built_p(2) by blast+
    next
      fix k k' i
      assume "lru_lookup (payload_attributes b') k = Some i" "lru_lookup (payload_attributes b') k' = Some i"
      then show "k = k'" using attrs fresh invD(5) by metis
    next
      fix k i q
      assume "lru_lookup (payload_attributes b') k = Some i" "lru_lookup (payloads b') i = Some q"
      then show "payload_answers k q"
        using attrs pays fresh invD(6) built_p(1) by metis
    qed (rule built(10))
  qed (use inv same_contents_inv in blast)+
qed

lemma register_attributes_id_le:
  assumes "builder_wf b" and "register_attributes_locked mx slot ph a b = (r, b')"
  shows "next_payload_id b' = next_payload_id b \<or> next_payload_id b' = next_payload_id b + 1"
  using assms by (cases rule: register_attributes_cases) (auto simp: same_contents_def)

lemma get_existing_payload_id_builder:
  assumes "builder_wf (payload_builder s)"
  shows "\<exists>b. get_existing_payload_id mx ph a s =
      (ok_or_else (lru_lookup (payload_attributes (payload_builder s)) (ph, a))
         (''no payload ID known for parent '' @ debug_hash (lighthouse mx) ph), s\<lparr>payload_builder := b\<rparr>)
    \<and> same_contents (payload_builder s) b \<and> builder_wf b"
  using assms attr_get [of "payload_attributes (payload_builder s)" "(ph, a)"]
  by (auto simp: get_existing_payload_id_def with_builder_def same_contents_def builder_wf_def)

lemma get_payload_builder:
  assumes "builder_wf (payload_builder s)"
  shows "\<exists>b. get_payload mx i s =
      (ok_or_else (lru_lookup (payloads (payload_builder s)) i)
         (''unknown payload ID: '' @ show_nat (unat (from_be_bytes i))), s\<lparr>payload_builder := b\<rparr>)
    \<and> same_contents (payload_builder s) b \<and> builder_wf b"
  using assms pay_get [of "payloads (payload_builder s)" i]
  by (auto simp: get_payload_def with_builder_def same_contents_def builder_wf_def)

lemma canonical_insert_inv: "builder_inv b \<Longrightarrow> builder_inv (canonical_insert mx p b)"
  by (auto simp: builder_inv_def builder_wf_def canonical_insert_def issued_def info.get_or_insert_wf)

end


section \<open>Sequences of builder operations\<close>

text \<open>
  The operations on the builder in any order, each as the atomic section it is, with the state it
  leaves behind.
\<close>

datatype builder_op =
    Register ExecutionBlockHash PayloadAttributes
  | Existing ExecutionBlockHash PayloadAttributes
  | Canonical ExecutionPayload JsonPayloadStatusV1Status
  | Fetch PayloadId

primrec builder_task :: "Multiplexer \<Rightarrow> builder_op \<Rightarrow> unit handler" where
  "builder_task mx (Register ph a) = bind_task (register_attributes mx ph a) (\<lambda>_. Done ())"
| "builder_task mx (Existing ph a) =
     bind_task (atomically (get_existing_payload_id mx ph a)) (\<lambda>_. Done ())"
| "builder_task mx (Canonical p st) = register_canonical_payload mx p st"
| "builder_task mx (Fetch i) = bind_task (atomically (get_payload mx i)) (\<lambda>_. Done ())"

definition builder_step ::
  "(EngineCall \<Rightarrow> EngineReply) \<Rightarrow> Multiplexer \<Rightarrow> MuxState \<Rightarrow> builder_op \<Rightarrow> MuxState" where
  "builder_step ans mx s op = snd (run ans 0 (builder_task mx op) s)"

text \<open>How a task that runs alone registers attributes.\<close>

lemma run_register_attributes:
  "run ans d (register_attributes mx ph a) s =
     (case timestamp_to_slot mx (pa_timestamp a) of
        None \<Rightarrow> (Some (Inl (''invalid timestamp '' @ show_nat (unat (pa_timestamp a)))), s)
      | Some slot \<Rightarrow>
          (case register_attributes_locked mx slot ph a (payload_builder s) of
             (r, b) \<Rightarrow> (r, s\<lparr>payload_builder := b\<rparr>)))"
  by (auto simp: register_attributes_def Let_def with_builder_def unwrap_task_def
      split: option.splits prod.splits)

context mux
begin

lemma builder_step_inv:
  fixes s :: MuxState and ans :: "EngineCall \<Rightarrow> EngineReply" and op :: builder_op
  assumes inv: "builder_inv (payload_builder s)" and room: "next_payload_id (payload_builder s) \<noteq> - 1"
  defines "b \<equiv> payload_builder s" and "b' \<equiv> payload_builder (builder_step ans mx s op)"
  shows "builder_inv b' \<and> (next_payload_id b' = next_payload_id b \<or> next_payload_id b' = next_payload_id b + 1)"
proof (cases op)
  case (Register ph a)
  show ?thesis
  proof (cases "timestamp_to_slot mx (pa_timestamp a)")
    case (Some slot)
    obtain r c where rc: "register_attributes_locked mx slot ph a b = (r, c)" by fastforce
    with Some Register have "b' = c"
      by (cases r) (simp_all add: b'_def b_def builder_step_def run_bind_task run_register_attributes)
    with register_attributes_inv [OF inv [folded b_def] room [folded b_def] rc]
      register_attributes_id_le [OF builder_invD(1) [OF inv [folded b_def]] rc]
    show ?thesis by simp
  qed (use inv Register in \<open>simp add: b'_def b_def builder_step_def run_bind_task run_register_attributes\<close>)
next
  case (Existing ph a)
  obtain c where "get_existing_payload_id mx ph a s =
      (ok_or_else (lru_lookup (payload_attributes b) (ph, a))
         (''no payload ID known for parent '' @ debug_hash (lighthouse mx) ph), s\<lparr>payload_builder := c\<rparr>)"
    and c: "same_contents b c" "builder_wf c"
    using get_existing_payload_id_builder [OF builder_invD(1) [OF inv]] unfolding b_def by blast
  with Existing have "b' = c" by (simp add: b'_def builder_step_def)
  with same_contents_inv [OF c] inv c(1) show ?thesis by (simp add: b_def same_contents_def)
next
  case (Canonical p st)
  with inv canonical_insert_inv [of b p] show ?thesis
    by (auto simp: b'_def b_def builder_step_def register_canonical_payload_def with_builder_def
        canonical_insert_def)
next
  case (Fetch i)
  obtain c where "get_payload mx i s =
      (ok_or_else (lru_lookup (payloads b) i)
         (''unknown payload ID: '' @ show_nat (unat (from_be_bytes i))), s\<lparr>payload_builder := c\<rparr>)"
    and c: "same_contents b c" "builder_wf c"
    using get_payload_builder [OF builder_invD(1) [OF inv]] unfolding b_def by blast
  with Fetch have "b' = c" by (simp add: b'_def builder_step_def)
  with same_contents_inv [OF c] inv c(1) show ?thesis by (simp add: b_def same_contents_def)
qed

lemma builder_run_inv:
  assumes "builder_inv (payload_builder s)"
    and "unat (next_payload_id (payload_builder s)) + length ops < 2 ^ 64"
  shows "builder_inv (payload_builder (foldl (builder_step ans mx) s ops))"
  using assms
proof (induction ops arbitrary: s)
  case Nil
  then show ?case by simp
next
  case (Cons op ops)
  let ?n = "next_payload_id (payload_builder s)"
  let ?s = "builder_step ans mx s op"
  have "unat (- 1 :: u64) = 2 ^ 64 - 1"
    by (simp add: unsigned_minus_1_eq_mask mask_eq_exp_minus_1)
  then have "?n \<noteq> - 1"
    using Cons.prems(2) by auto
  from builder_step_inv [OF Cons.prems(1) this, of ans op]
  have inv: "builder_inv (payload_builder ?s)"
    and ids: "next_payload_id (payload_builder ?s) = ?n \<or> next_payload_id (payload_builder ?s) = ?n + 1"
    by blast+
  have "unat (?n + 1) \<le> unat ?n + 1"
    by (simp add: unat_word_ariths)
  with ids Cons.prems(2) have "unat (next_payload_id (payload_builder ?s)) + length ops < 2 ^ 64"
    by auto
  from Cons.IH [OF inv this] show ?case by simp
qed

lemma register_builds:
  assumes wf: "builder_wf (payload_builder s)"
    and slot: "timestamp_to_slot mx (pa_timestamp a) = Some slot"
    and unknown: "lru_lookup (payload_attributes (payload_builder s)) (ph, a) = None"
    and parent: "lru_lookup (payload_info (payload_builder s)) ph = Some info"
    and p: "build_payload mx slot ph a (extra_data (payload_builder s)) info = Some (Inr p)"
  shows "\<exists>b. run ans d (register_attributes mx ph a) s =
      (Some (Inr (to_be_bytes (next_payload_id (payload_builder s)))), s\<lparr>payload_builder := b\<rparr>)
    \<and> builder_wf b
    \<and> lru_lookup (payload_attributes b) (ph, a) = Some (to_be_bytes (next_payload_id (payload_builder s)))
    \<and> lru_lookup (payloads b) (to_be_bytes (next_payload_id (payload_builder s))) = Some p"
proof -
  obtain r b where rb: "register_attributes_locked mx slot ph a (payload_builder s) = (r, b)"
    by fastforce
  from wf rb show ?thesis
  proof (cases rule: register_attributes_cases)
    case refused
    with rb unknown parent p have False
      using info_get [of "payload_info (payload_builder s)" ph] attr_get [of "payload_attributes (payload_builder s)" "(ph, a)"] wf
      by (auto simp: register_attributes_locked_def Let_def builder_wf_def split: prod.splits)
    then show ?thesis ..
  next
    case (built info' p')
    with parent p slot rb show ?thesis
      by (auto simp: run_register_attributes dest: forgetful_upd_same)
  qed (use unknown in auto)
qed

text \<open>
  With the crate's recency order: known attributes move to the front of their cache and nothing else
  changes; new attributes go to the front of a cache that may have dropped its last entry.
\<close>

lemma register_renews:
  assumes crate: "lru_crate (attributes_ops (caches mx))" and wf: "builder_wf (payload_builder s)"
    and slot: "timestamp_to_slot mx (pa_timestamp a) = Some slot"
    and known: "lru_lookup (payload_attributes (payload_builder s)) (ph, a) = Some i"
  shows "\<exists>b. run ans d (register_attributes mx ph a) s = (Some (Inr i), s\<lparr>payload_builder := b\<rparr>) \<and>
    builder_wf b \<and>
    b = (payload_builder s)\<lparr>payload_attributes := promote (ph, a) i (payload_attributes (payload_builder s))\<rparr>"
proof -
  have "lru_wf (payload_attributes (payload_builder s))" using wf by (simp add: builder_wf_def)
  from lru_crate.get_hit [OF crate this known] lru_wf_promote_present [OF this, of "(ph, a)" i] known wf slot
  show ?thesis by (simp add: run_register_attributes register_attributes_locked_def Let_def builder_wf_def)
qed

lemma register_evicts:
  assumes crates: "lru_crate (attributes_ops (caches mx))" "lru_crate (payload_ops (caches mx))"
    and wf: "builder_wf (payload_builder s)"
    and slot: "timestamp_to_slot mx (pa_timestamp a) = Some slot"
    and unknown: "lru_lookup (payload_attributes (payload_builder s)) (ph, a) = None"
    and parent: "lru_lookup (payload_info (payload_builder s)) ph = Some info"
    and p: "build_payload mx slot ph a (extra_data (payload_builder s)) info = Some (Inr p)"
    and fresh: "lru_lookup (payloads (payload_builder s)) (to_be_bytes (next_payload_id (payload_builder s))) = None"
  defines "i \<equiv> to_be_bytes (next_payload_id (payload_builder s))"
  shows "\<exists>b. run ans d (register_attributes mx ph a) s = (Some (Inr i), s\<lparr>payload_builder := b\<rparr>) \<and> builder_wf b \<and>
    payload_attributes b = promote (ph, a) i (evict (payload_attributes (payload_builder s))) \<and>
    payloads b = promote i p (evict (payloads (payload_builder s)))"
proof -
  let ?b = "payload_builder s"
  have wfs: "lru_wf (payload_attributes ?b)" "lru_wf (payload_info ?b)" "lru_wf (payloads ?b)"
    using wf by (simp_all add: builder_wf_def)
  obtain ic where ic: "lru_get (info_ops (caches mx)) (payload_info ?b) ph = (Some info, ic)" "lru_wf ic"
    using info_get [OF wfs(2), of ph] parent by auto
  note laws = lru_crate.get_miss [OF crates(1) wfs(1) unknown] lru_crate.put_miss [OF crates(1) wfs(1) unknown]
    lru_crate.put_miss [OF crates(2) wfs(3) fresh]
  let ?b' = "?b\<lparr>payload_info := ic, payload_attributes := promote (ph, a) i (evict (payload_attributes ?b)),
    payloads := promote i p (evict (payloads ?b)), next_payload_id := next_payload_id ?b + 1\<rparr>"
  from p ic laws have "register_attributes_locked mx slot ph a ?b = (Some (Inr i), ?b')"
    by (simp add: register_attributes_locked_def Let_def i_def)
  with slot ic wfs show ?thesis
    by (intro exI [of _ ?b']) (simp add: run_register_attributes builder_wf_def lru_wf_promote_evict)
qed

lemma register_known:
  assumes wf: "builder_wf (payload_builder s)"
    and slot: "timestamp_to_slot mx (pa_timestamp a) = Some slot"
    and known: "lru_lookup (payload_attributes (payload_builder s)) (ph, a) = Some i"
  shows "\<exists>b. run ans d (register_attributes mx ph a) s = (Some (Inr i), s\<lparr>payload_builder := b\<rparr>)
    \<and> same_contents (payload_builder s) b \<and> builder_wf b"
proof -
  obtain r b where rb: "register_attributes_locked mx slot ph a (payload_builder s) = (r, b)"
    by fastforce
  from wf rb show ?thesis
    by (cases rule: register_attributes_cases) (use known slot rb in \<open>auto simp: run_register_attributes\<close>)
qed

end


section \<open>An example\<close>

text \<open>
  A small multiplexer whose builder caches hold two entries, in the state after one canonical payload
  with hash 7 was registered, and three sets of attributes for blocks on it.
\<close>

definition example_reply :: EngineReply where
  "example_reply =
     (let valid = \<lparr>ps_status = Valid, ps_latest_valid_hash = None, ps_validation_error = None\<rparr> in
      \<lparr>reply_forkchoice = Inr \<lparr>fr_payload_status = valid, fr_payload_id = None\<rparr>,
       reply_new_payload = Inr valid, reply_chain_id = Inr 1, reply_capabilities = Inr [],
       reply_rpc = Inr JNull\<rparr>)"

definition small_config :: Config where
  "small_config = example_config\<lparr>payload_builder_cache_size := 2\<rparr>"

definition example_parent :: ExecutionPayload where
  "example_parent = Bellatrix \<lparr>ep_parent_hash = 6, ep_fee_recipient = 0, ep_state_root = 60,
     ep_receipts_root = 0, ep_logs_bloom = [], ep_prev_randao = 0, ep_block_number = 5,
     ep_gas_limit = 30000000, ep_gas_used = 15000000, ep_timestamp = 1168, ep_extra_data = [],
     ep_base_fee_per_gas = 800, ep_block_hash = 7, ep_transactions = []\<rparr>"

definition example_attributes :: "nat \<Rightarrow> PayloadAttributes" where
  "example_attributes n = PayloadAttributesV2 (1180 + 12 * of_nat n) 0 0 []"

abbreviation example_builder_run :: "builder_op list \<Rightarrow> MuxState" where
  "example_builder_run ops \<equiv> foldl (builder_step (\<lambda>q. example_reply) example_multiplexer)
     (initial_state ref_external small_config) ops"

lemma initial_builder_inv: "mux_wf s \<Longrightarrow> mux_empty s \<Longrightarrow> builder_inv (payload_builder s)"
  by (simp add: mux_wf_def mux_empty_def builder_inv_def)

lemma example_initial_inv: "builder_inv (payload_builder (initial_state ref_external small_config))"
proof -
  have "sizes_positive small_config"
    by (simp add: sizes_positive_def small_config_def example_config_def default_config_def)
  from ref.initial_state_ok [OF this refl] show ?thesis
    by (rule initial_builder_inv)
qed

lemma example_next_id: "next_payload_id (payload_builder (initial_state ref_external small_config)) = 0"
  by (simp add: initial_state_def)

lemma example_run_inv:
  "length ops < 2 ^ 64 \<Longrightarrow> builder_inv (payload_builder (example_builder_run ops))"
  by (rule example.builder_run_inv [OF example_initial_inv]) (simp add: example_next_id)


section \<open>Properties\<close>

text \<open>
  C29. A timestamp has a slot exactly when it is not before genesis and the slot length is not zero,
  and the slot is then the number of whole slots since genesis: neither subtraction nor division can
  wrap around or panic.
\<close>

theorem timestamp_to_slot_correct:
  "timestamp_to_slot mx t = Some slot \<longleftrightarrow>
     unat (genesis_time mx) \<le> unat t \<and> seconds_per_slot (spec mx) \<noteq> 0 \<and>
     unat slot = (unat t - unat (genesis_time mx)) div unat (seconds_per_slot (spec mx))"
  by (rule timestamp_to_slot_iff)

text \<open>
  C17. Along any sequence of builder operations that is shorter than the id space, the builder keeps
  its invariant: every id was issued before, two sets of attributes never share an id, every stored
  payload is an empty dummy payload of a supported fork, and the payload found under the id of some
  attributes is the one those attributes asked for.
\<close>

theorem builder_invariant_preserved:
  assumes "mux mx" and "builder_inv (payload_builder s)"
    and "unat (next_payload_id (payload_builder s)) + length ops < 2 ^ 64"
  shows "builder_inv (payload_builder (foldl (builder_step ans mx) s ops))"
  using assms by (rule mux.builder_run_inv)

theorem builder_invariant_preserved_witness:
  "builder_inv (payload_builder (example_builder_run
     [Canonical example_parent Valid, Register 7 (example_attributes 0), Fetch (to_be_bytes 0)]))"
  by (rule builder_invariant_preserved [OF example.mux_axioms example_initial_inv])
    (simp add: example_next_id)

text \<open>
  C18. Registering attributes for a known parent builds the payload under a fresh id: the id was not
  issued before, it is the one found for these attributes afterwards, and fetching it returns the
  payload that was built, which answers the attributes, numbers the block after its parent and
  carries the hash calculated over it.
\<close>

theorem register_then_get_payload:
  assumes "mux mx" and "builder_inv (payload_builder s)"
    and "timestamp_to_slot mx (pa_timestamp a) = Some slot"
    and "lru_lookup (payload_attributes (payload_builder s)) (ph, a) = None"
    and "lru_lookup (payload_info (payload_builder s)) ph = Some info"
    and "build_payload mx slot ph a (extra_data (payload_builder s)) info = Some (Inr p)"
  shows "\<exists>i s'. run ans d (register_attributes mx ph a) s = (Some (Inr i), s') \<and>
    \<not> issued (payload_builder s) i \<and>
    fst (get_existing_payload_id mx ph a s') = Inr i \<and>
    fst (get_payload mx i s') = Inr p \<and>
    payload_answers (ph, a) p \<and>
    payload_block_number p = pi_block_number info + 1 \<and>
    (\<exists>q. p = seal mx a (fork_name_at_slot (spec mx) slot) q)"
proof -
  let ?i = "to_be_bytes (next_payload_id (payload_builder s))"
  note m = assms(1)
  obtain b where run: "run ans d (register_attributes mx ph a) s = (Some (Inr ?i), s\<lparr>payload_builder := b\<rparr>)"
    and b: "builder_wf b" "lru_lookup (payload_attributes b) (ph, a) = Some ?i"
      "lru_lookup (payloads b) ?i = Some p"
    using mux.register_builds [OF m builder_invD(1) [OF assms(2)] assms(3-6)] by blast
  have "fst (get_existing_payload_id mx ph a (s\<lparr>payload_builder := b\<rparr>)) = Inr ?i"
    and "fst (get_payload mx ?i (s\<lparr>payload_builder := b\<rparr>)) = Inr p"
    using mux.get_existing_payload_id_builder [OF m, of "s\<lparr>payload_builder := b\<rparr>" ph a]
      mux.get_payload_builder [OF m, of "s\<lparr>payload_builder := b\<rparr>" ?i] b by auto
  moreover have "payload_block_number p = pi_block_number info + 1"
    by (rule build_payload_header [OF assms(6)]) (simp add: built_header_def)
  moreover have "\<exists>q. p = seal mx a (fork_name_at_slot (spec mx) slot) q"
    using assms(6) by (auto simp: build_payload_def Let_def and_then_Inr_iff)
  ultimately show ?thesis
    using run issued_next_fresh build_payload_answers [OF assms(6)] by blast
qed

theorem register_then_get_payload_witness:
  "\<exists>i s' p. run (\<lambda>q. example_reply) 0 (register_attributes example_multiplexer 7 (example_attributes 0))
      (example_builder_run [Canonical example_parent Valid]) = (Some (Inr i), s') \<and>
     fst (get_payload example_multiplexer i s') = Inr p \<and> payload_block_number p = 6"
proof -
  let ?s = "example_builder_run [Canonical example_parent Valid]"
  have "timestamp_to_slot example_multiplexer (pa_timestamp (example_attributes 0)) = Some 15"
    and "lru_lookup (payload_attributes (payload_builder ?s)) (7, example_attributes 0) = None"
    and "lru_lookup (payload_info (payload_builder ?s)) 7 = Some (payload_info_of example_parent)"
    by code_simp+
  moreover have "case build_payload example_multiplexer 15 7 (example_attributes 0)
      (extra_data (payload_builder ?s)) (payload_info_of example_parent) of
      Some (Inr p) \<Rightarrow> True | _ \<Rightarrow> False"
    by code_simp
  then obtain p where "build_payload example_multiplexer 15 7 (example_attributes 0)
      (extra_data (payload_builder ?s)) (payload_info_of example_parent) = Some (Inr p)"
    by (auto split: option.splits sum.splits)
  moreover have "builder_inv (payload_builder ?s)"
    by (rule example_run_inv) simp
  moreover have "pi_block_number (payload_info_of example_parent) + 1 = 6"
    by code_simp
  ultimately show ?thesis
    using register_then_get_payload [OF example.mux_axioms, of ?s "example_attributes 0" 15 7
        "payload_info_of example_parent" p "\<lambda>q. example_reply" 0]
    by auto
qed

text \<open>
  C23. Registering the same attributes again is idempotent: as long as the attributes are still
  cached, the same id is returned and no cache gains, loses or changes an entry.
\<close>

theorem register_attributes_idempotent:
  assumes "mux mx" and "builder_wf (payload_builder s)"
    and "timestamp_to_slot mx (pa_timestamp a) = Some slot"
    and "lru_lookup (payload_attributes (payload_builder s)) (ph, a) = Some i"
  shows "\<exists>b. run ans d (register_attributes mx ph a) s = (Some (Inr i), s\<lparr>payload_builder := b\<rparr>)
    \<and> same_contents (payload_builder s) b \<and> builder_wf b"
  using assms by (rule mux.register_known)

theorem register_attributes_idempotent_witness:
  "\<exists>b. run (\<lambda>q. example_reply) 0 (register_attributes example_multiplexer 7 (example_attributes 0))
      (example_builder_run [Canonical example_parent Valid, Register 7 (example_attributes 0)]) =
      (Some (Inr (to_be_bytes 0)),
       (example_builder_run [Canonical example_parent Valid, Register 7 (example_attributes 0)])\<lparr>payload_builder := b\<rparr>)"
proof -
  let ?s = "example_builder_run [Canonical example_parent Valid, Register 7 (example_attributes 0)]"
  have "timestamp_to_slot example_multiplexer (pa_timestamp (example_attributes 0)) = Some 15"
    and "lru_lookup (payload_attributes (payload_builder ?s)) (7, example_attributes 0) =
      Some (to_be_bytes 0)"
    by code_simp+
  moreover have "builder_wf (payload_builder ?s)"
    by (rule builder_invD(1) [OF example_run_inv]) simp
  ultimately show ?thesis
    using register_attributes_idempotent [OF example.mux_axioms, of ?s "example_attributes 0" 15 7
        "to_be_bytes 0" "\<lambda>q. example_reply" 0]
    by blast
qed

text \<open>
  C37. The two caches of the builder come apart, whatever the capacities are beyond one: when the payload
  of some cached attributes is the least recently used one of a full payload cache, registering these
  attributes again renews only the attributes. Registering other attributes then evicts the payload,
  while the old attributes are still answered with its id, for which \<open>getPayload\<close> fails.
\<close>

theorem stale_payload_id:
  assumes "mux mx" and "lru_crate (attributes_ops (caches mx))" and "lru_crate (payload_ops (caches mx))"
    and "builder_inv (payload_builder s)"
    and "lru_lookup (payload_attributes (payload_builder s)) (ph, a) = Some i"
    and "timestamp_to_slot mx (pa_timestamp a) = Some slot"
    and "2 \<le> lru_cap (payload_attributes (payload_builder s))"
    and "lru_iter (payloads (payload_builder s)) = newer @ [(i, p)]"
    and "length (lru_iter (payloads (payload_builder s))) = lru_cap (payloads (payload_builder s))"
    and "lru_lookup (payload_attributes (payload_builder s)) (ph', a') = None"
    and "timestamp_to_slot mx (pa_timestamp a') = Some slot'"
    and "lru_lookup (payload_info (payload_builder s)) ph' = Some info"
    and "build_payload mx slot' ph' a' (extra_data (payload_builder s)) info = Some (Inr p')"
  shows "\<exists>s1 s2 s3 i'.
    run ans d (register_attributes mx ph a) s = (Some (Inr i), s1) \<and>
    run ans d (register_attributes mx ph' a') s1 = (Some (Inr i'), s2) \<and>
    run ans d (register_attributes mx ph a) s2 = (Some (Inr i), s3) \<and>
    (\<exists>e. fst (get_payload mx i s3) = Inl e)"
proof -
  let ?b = "payload_builder s" and ?i' = "to_be_bytes (next_payload_id (payload_builder s))"
  note inv = builder_invD [OF assms(4)]
  define b1 where "b1 = ?b\<lparr>payload_attributes := promote (ph, a) i (payload_attributes ?b)\<rparr>"
  have run1: "run ans d (register_attributes mx ph a) s = (Some (Inr i), s\<lparr>payload_builder := b1\<rparr>)" and wf1: "builder_wf b1"
    using mux.register_renews [OF assms(1,2) inv(1) assms(6,5)] by (auto simp: b1_def)
  have fresh: "lru_lookup (payloads ?b) ?i' = None"
    using inv(3) issued_next_fresh [of ?b] by fastforce
  have keys: "(ph', a') \<noteq> (ph, a)" "i \<noteq> ?i'"
    using assms(5,10) inv(2) [OF assms(5)] issued_next_fresh [of ?b] by auto
  obtain b2 where run2: "run ans d (register_attributes mx ph' a') (s\<lparr>payload_builder := b1\<rparr>) =
      (Some (Inr ?i'), s\<lparr>payload_builder := b2\<rparr>)" and wf2: "builder_wf b2"
    and b2: "payload_attributes b2 = promote (ph', a') ?i' (evict (payload_attributes b1))"
      "payloads b2 = promote ?i' p' (evict (payloads ?b))"
    using mux.register_evicts [OF assms(1,2,3), of "s\<lparr>payload_builder := b1\<rparr>" a' slot' ph' info p' ans d]
      wf1 keys(1) assms(10-13) fresh by (auto simp: b1_def)
  have "lru_lookup (payload_attributes b2) (ph, a) = Some i"
    using keys(1) evict_promoted [OF assms(7)] by (auto simp: b2(1) b1_def)
  then obtain b3 where run3: "run ans d (register_attributes mx ph a) (s\<lparr>payload_builder := b2\<rparr>) =
      (Some (Inr i), s\<lparr>payload_builder := b3\<rparr>)" and b3: "same_contents b2 b3" "builder_wf b3"
    using mux.register_known [OF assms(1), of "s\<lparr>payload_builder := b2\<rparr>" a slot ph i ans d] wf2 assms(6) by auto
  have "lru_lookup (payloads b3) i = None"
    using keys(2) evict_last [OF _ assms(8,9)] inv(1) b3(1) by (simp add: b2(2) builder_wf_def same_contents_def)
  then have "\<exists>e. fst (get_payload mx i (s\<lparr>payload_builder := b3\<rparr>)) = Inl e"
    using mux.get_payload_builder [OF assms(1), of "s\<lparr>payload_builder := b3\<rparr>" i] b3(2) by auto
  with run1 run2 run3 show ?thesis by blast
qed

theorem stale_payload_id_witness:
  "\<exists>s1 s2 s3 i'.
    run (\<lambda>q. example_reply) 0 (register_attributes example_multiplexer 7 (example_attributes 0))
      (example_builder_run [Canonical example_parent Valid, Register 7 (example_attributes 0),
         Register 7 (example_attributes 1)]) = (Some (Inr (to_be_bytes 0)), s1) \<and>
    run (\<lambda>q. example_reply) 0 (register_attributes example_multiplexer 7 (example_attributes 2)) s1 =
      (Some (Inr i'), s2) \<and>
    run (\<lambda>q. example_reply) 0 (register_attributes example_multiplexer 7 (example_attributes 0)) s2 =
      (Some (Inr (to_be_bytes 0)), s3) \<and>
    (\<exists>e. fst (get_payload example_multiplexer (to_be_bytes 0) s3) = Inl e)"
proof -
  let ?s = "example_builder_run [Canonical example_parent Valid, Register 7 (example_attributes 0),
      Register 7 (example_attributes 1)]"
  have "lru_lookup (payload_attributes (payload_builder ?s)) (7, example_attributes 0) = Some (to_be_bytes 0)"
    and "timestamp_to_slot example_multiplexer (pa_timestamp (example_attributes 0)) = Some 15"
    and "2 \<le> lru_cap (payload_attributes (payload_builder ?s))"
    and "length (lru_iter (payloads (payload_builder ?s))) = lru_cap (payloads (payload_builder ?s))"
    and "lru_lookup (payload_attributes (payload_builder ?s)) (7, example_attributes 2) = None"
    and "timestamp_to_slot example_multiplexer (pa_timestamp (example_attributes 2)) = Some 17"
    and "lru_lookup (payload_info (payload_builder ?s)) 7 = Some (payload_info_of example_parent)"
    by code_simp+
  moreover have "case build_payload example_multiplexer 17 7 (example_attributes 2)
      (extra_data (payload_builder ?s)) (payload_info_of example_parent) of
      Some (Inr p) \<Rightarrow> True | _ \<Rightarrow> False"
    by code_simp
  then obtain p' where "build_payload example_multiplexer 17 7 (example_attributes 2)
      (extra_data (payload_builder ?s)) (payload_info_of example_parent) = Some (Inr p')"
    by (auto split: option.splits sum.splits)
  moreover have "case lru_iter (payloads (payload_builder ?s)) of [x, (i, p)] \<Rightarrow> i = to_be_bytes 0 | _ \<Rightarrow> False"
    by code_simp
  then obtain x p where "lru_iter (payloads (payload_builder ?s)) = [x] @ [(to_be_bytes 0, p)]"
    by (auto split: list.splits)
  moreover have "builder_inv (payload_builder ?s)"
    by (rule example_run_inv) simp
  moreover have "lru_crate (attributes_ops (caches example_multiplexer))" "lru_crate (payload_ops (caches example_multiplexer))"
    by (simp_all add: example_multiplexer_def External.defs ref_external_def list_lru.lru_crate_axioms)
  ultimately show ?thesis
    using stale_payload_id [OF example.mux_axioms, of ?s 7 "example_attributes 0" "to_be_bytes 0" 15 "[x]" p
        7 "example_attributes 2" 17 "payload_info_of example_parent" p' "\<lambda>q. example_reply" 0] by blast
qed

text \<open>
  C25. Registering attributes never panics when the parent's gas limit is at least 2 and its base fee
  is below \<open>2 ^ 192\<close>: the request is answered with an id or an error, and after an error no cache
  has changed its contents.
\<close>

theorem register_attributes_no_panic:
  assumes "mux mx" and "uint256 (uint256_ops mx)" and "builder_wf (payload_builder s)"
    and "\<And>info. lru_lookup (payload_info (payload_builder s)) ph = Some info \<Longrightarrow>
           2 \<le> unat (pi_gas_limit info) \<and> unat (pi_base_fee_per_gas info) < 2 ^ 192"
  shows "\<exists>r b. run ans d (register_attributes mx ph a) s = (Some r, s\<lparr>payload_builder := b\<rparr>) \<and>
    builder_wf b \<and> (\<forall>e. r = Inl e \<longrightarrow> same_contents (payload_builder s) b)"
proof (cases "timestamp_to_slot mx (pa_timestamp a)")
  case None
  then have "run ans d (register_attributes mx ph a) s =
      (Some (Inl (''invalid timestamp '' @ show_nat (unat (pa_timestamp a)))),
       s\<lparr>payload_builder := payload_builder s\<rparr>)"
    by (simp add: run_register_attributes)
  with assms(3) same_contents_refl show ?thesis by blast
next
  case (Some slot)
  obtain r b where rb: "register_attributes_locked mx slot ph a (payload_builder s) = (r, b)"
    by fastforce
  have total: "\<exists>y. build_payload mx slot ph a e info = Some y"
    if "lru_lookup (payload_info (payload_builder s)) ph = Some info" for e info
    using uint256.refines_eip1559 [OF assms(2)] assms(4) [OF that]
    by (fastforce simp: build_payload_def Let_def)
  from rb mux.info_get [OF assms(1), of "payload_info (payload_builder s)" ph] assms(3)
  have "r \<noteq> None"
    by (auto simp: register_attributes_locked_def Let_def builder_wf_def
        split: prod.splits option.splits sum.splits dest: total [of _ "extra_data (payload_builder s)"])
  then obtain r' where r': "r = Some r'" by blast
  have "builder_wf b \<and> (\<forall>e. r' = Inl e \<longrightarrow> same_contents (payload_builder s) b)"
    using assms(3) rb r' by (cases rule: mux.register_attributes_cases [OF assms(1)]) auto
  with Some rb r' show ?thesis by (auto simp: run_register_attributes)
qed

theorem register_attributes_no_panic_witness:
  "\<exists>r b. run (\<lambda>q. example_reply) 0 (register_attributes example_multiplexer 7 (example_attributes 0))
      (example_builder_run [Canonical example_parent Valid]) =
      (Some r, (example_builder_run [Canonical example_parent Valid])\<lparr>payload_builder := b\<rparr>)"
proof -
  let ?s = "example_builder_run [Canonical example_parent Valid]"
  have info: "lru_lookup (payload_info (payload_builder ?s)) 7 = Some (payload_info_of example_parent)"
    by code_simp
  have "2 \<le> unat (pi_gas_limit (payload_info_of example_parent)) \<and>
      unat (pi_base_fee_per_gas (payload_info_of example_parent)) < 2 ^ 192"
    by (simp add: payload_info_of_def example_parent_def)
  with info have parent: "2 \<le> unat (pi_gas_limit i) \<and> unat (pi_base_fee_per_gas i) < 2 ^ 192"
    if "lru_lookup (payload_info (payload_builder ?s)) 7 = Some i" for i
    using that by simp
  have u: "uint256 (uint256_ops example_multiplexer)"
    by (simp add: example_multiplexer_def External.defs ref_external_def wrapping_u256.uint256_axioms)
  have wf: "builder_wf (payload_builder ?s)"
    by (rule builder_invD(1) [OF example_run_inv]) simp
  from register_attributes_no_panic [OF example.mux_axioms u wf parent] show ?thesis by blast
qed



end
