(* ===== verification/Mux_Invariant.thy ===== *)
theory Mux_Invariant
  imports Payload_Builder
begin

text \<open>
  The invariant of the multiplexer's shared state under concurrency. It is relative to the set of
  replies that the execution engine has given so far: whatever the caches hold came from one of these
  replies. \<open>mux_inv\<close> depends on the caches' contents only, so a step that merely reorders a cache
  (\<open>same_state\<close>) keeps it; that is all a client may do. \<open>fcu_stable\<close> relates two states of which the
  second overwrote no definite forkchoice status of the first.
\<close>

type_synonym history = "(EngineCall \<times> EngineReply) set"

text \<open>Valid and the two invalid statuses are definite.\<close>

definition is_definite :: "JsonPayloadStatusV1 \<Rightarrow> bool" where
  "is_definite status = (case ps_status status of
     Valid \<Rightarrow> True | Invalid \<Rightarrow> True | InvalidBlockHash \<Rightarrow> True | Accepted \<Rightarrow> False | Syncing \<Rightarrow> False)"

text \<open>The engine replied to this forkchoice state with this status.\<close>

definition fcu_replied :: "history \<Rightarrow> JsonForkchoiceStateV1 \<Rightarrow> JsonPayloadStatusV1 \<Rightarrow> bool" where
  "fcu_replied h fcu st \<longleftrightarrow> (\<exists>r resp. (NotifyForkchoiceUpdated (forkchoice_state_from fcu), r) \<in> h \<and>
     reply_forkchoice r = Inr resp \<and> fr_payload_status resp = st)"

text \<open>The engine found a forkchoice state with this safe (finalized) block valid.\<close>

definition safe_block_known :: "history \<Rightarrow> ExecutionBlockHash \<Rightarrow> bool" where
  "safe_block_known h b \<longleftrightarrow>
     (\<exists>fcu st. fcu_replied h fcu st \<and> ps_status st = Valid \<and> safe_block_hash fcu = b)"

definition finalized_block_known :: "history \<Rightarrow> ExecutionBlockHash \<Rightarrow> bool" where
  "finalized_block_known h b \<longleftrightarrow>
     (\<exists>fcu st. fcu_replied h fcu st \<and> ps_status st = Valid \<and> finalized_block_hash fcu = b)"

primrec request_payload :: "NewPayloadRequest \<Rightarrow> ExecutionPayload" where
  "request_payload (NewPayloadRequestBellatrix p) = Bellatrix p"
| "request_payload (NewPayloadRequestCapella p) = Capella p"
| "request_payload (NewPayloadRequestDeneb p vs b) = Deneb p"
| "request_payload (NewPayloadRequestElectra p vs b rs) = Electra p"

text \<open>The engine replied to this payload with this status.\<close>

definition payload_replied :: "history \<Rightarrow> ExecutionPayload \<Rightarrow> JsonPayloadStatusV1 \<Rightarrow> bool" where
  "payload_replied h p st \<longleftrightarrow>
     (\<exists>q r. (NewPayload q, r) \<in> h \<and> request_payload q = p \<and> reply_new_payload r = Inr st)"

definition not_invalid :: "JsonPayloadStatusV1 \<Rightarrow> bool" where
  "not_invalid st \<longleftrightarrow> ps_status st \<noteq> Invalid \<and> ps_status st \<noteq> InvalidBlockHash"

definition fcu_inv :: "history \<Rightarrow> MuxState \<Rightarrow> bool" where
  "fcu_inv h s \<longleftrightarrow>
     (\<forall>fcu st. lru_lookup (fcu_cache s) fcu = Some st \<longrightarrow> fcu_replied h fcu st) \<and>
     (\<forall>b u. lru_lookup (justified_block_cache s) b = Some u \<longrightarrow> safe_block_known h b) \<and>
     (\<forall>b u. lru_lookup (finalized_block_cache s) b = Some u \<longrightarrow> finalized_block_known h b)"

definition payload_inv :: "history \<Rightarrow> MuxState \<Rightarrow> bool" where
  "payload_inv h s \<longleftrightarrow>
     (\<forall>b e. lru_lookup (new_payload_cache s) b = Some e \<longrightarrow>
        (\<exists>p. payload_replied h p (npe_status e) \<and> payload_block_hash p = b \<and>
           payload_block_number p = npe_block_number e)) \<and>
     (\<forall>b i. lru_lookup (payload_info (payload_builder s)) b = Some i \<longrightarrow>
        (\<exists>p st. payload_replied h p st \<and> not_invalid st \<and> payload_block_hash p = b \<and>
           i = payload_info_of p)) \<and>
     (\<forall>i p. lru_lookup (payloads (payload_builder s)) i = Some p \<longrightarrow> is_dummy p)"

definition mux_inv :: "history \<Rightarrow> MuxState \<Rightarrow> bool" where
  "mux_inv h s \<longleftrightarrow> mux_wf s \<and> fcu_inv h s \<and> payload_inv h s"

definition same_state :: "MuxState \<Rightarrow> MuxState \<Rightarrow> bool" where
  "same_state s s' \<longleftrightarrow>
     lru_lookup (fcu_cache s') = lru_lookup (fcu_cache s) \<and>
     lru_lookup (new_payload_cache s') = lru_lookup (new_payload_cache s) \<and>
     lru_lookup (justified_block_cache s') = lru_lookup (justified_block_cache s) \<and>
     lru_lookup (finalized_block_cache s') = lru_lookup (finalized_block_cache s) \<and>
     same_contents (payload_builder s) (payload_builder s')"

definition fcu_stable :: "MuxState \<Rightarrow> MuxState \<Rightarrow> bool" where
  "fcu_stable s s' \<longleftrightarrow>
     (\<forall>fcu st. lru_lookup (fcu_cache s) fcu = Some st \<and> is_definite st \<longrightarrow>
        lru_lookup (fcu_cache s') fcu = Some st \<or> lru_lookup (fcu_cache s') fcu = None)"


section \<open>Monotonicity and frames\<close>

lemma fcu_replied_mono: "fcu_replied h fcu st \<Longrightarrow> h \<subseteq> h' \<Longrightarrow> fcu_replied h' fcu st"
  unfolding fcu_replied_def by blast

lemma safe_block_known_mono: "safe_block_known h b \<Longrightarrow> h \<subseteq> h' \<Longrightarrow> safe_block_known h' b"
  unfolding safe_block_known_def using fcu_replied_mono by blast

lemma finalized_block_known_mono: "finalized_block_known h b \<Longrightarrow> h \<subseteq> h' \<Longrightarrow> finalized_block_known h' b"
  unfolding finalized_block_known_def using fcu_replied_mono by blast

lemma payload_replied_mono: "payload_replied h p st \<Longrightarrow> h \<subseteq> h' \<Longrightarrow> payload_replied h' p st"
  unfolding payload_replied_def by blast

lemma fcu_inv_mono: "fcu_inv h s \<Longrightarrow> h \<subseteq> h' \<Longrightarrow> fcu_inv h' s"
  unfolding fcu_inv_def
  using fcu_replied_mono safe_block_known_mono finalized_block_known_mono by blast

lemma payload_inv_mono: "payload_inv h s \<Longrightarrow> h \<subseteq> h' \<Longrightarrow> payload_inv h' s"
  unfolding payload_inv_def using payload_replied_mono by meson

lemma mux_inv_mono: "mux_inv h s \<Longrightarrow> h \<subseteq> h' \<Longrightarrow> mux_inv h' s"
  unfolding mux_inv_def using fcu_inv_mono payload_inv_mono by blast

lemma mux_inv_wf: "mux_inv h s \<Longrightarrow> mux_wf s"
  by (simp add: mux_inv_def)

lemma mux_inv_same_state: "same_state s s' \<Longrightarrow> mux_wf s' \<Longrightarrow> mux_inv h s \<Longrightarrow> mux_inv h s'"
  by (simp add: mux_inv_def fcu_inv_def payload_inv_def same_state_def same_contents_def)

lemma mux_inv_reading:
  assumes "mux_inv h s" and "mux_wf s \<Longrightarrow> same_state s s' \<and> mux_wf s'"
  shows "mux_inv h s'" and "same_state s s'"
  using assms mux_inv_same_state mux_inv_wf by blast+

lemma mux_inv_empty: "mux_wf s \<Longrightarrow> mux_empty s \<Longrightarrow> mux_inv h s"
  by (simp add: mux_inv_def fcu_inv_def payload_inv_def mux_empty_def)

lemma same_state_refl [simp]: "same_state s s"
  by (simp add: same_state_def)

lemma same_state_trans: "same_state s s' \<Longrightarrow> same_state s' s'' \<Longrightarrow> same_state s s''"
  by (simp add: same_state_def same_contents_def)

lemma fcu_stable_refl [simp]: "fcu_stable s s"
  by (simp add: fcu_stable_def)

lemma same_state_fcu_stable: "same_state s s' \<Longrightarrow> fcu_stable s s'"
  by (simp add: same_state_def fcu_stable_def)

lemma fcu_stable_other_caches [simp]:
  "fcu_cache s' = fcu_cache s \<Longrightarrow> fcu_stable s s'"
  by (simp add: fcu_stable_def)

lemma fcu_inv_builder [simp]: "fcu_inv h (s\<lparr>payload_builder := b\<rparr>) = fcu_inv h s"
  by (simp add: fcu_inv_def)

lemma mux_wf_builder [simp]:
  "mux_wf (s\<lparr>payload_builder := b\<rparr>) \<longleftrightarrow>
     lru_wf (fcu_cache s) \<and> lru_wf (new_payload_cache s) \<and>
     lru_wf (justified_block_cache s) \<and> lru_wf (finalized_block_cache s) \<and> builder_wf b"
  by (simp add: mux_wf_def)

lemma mux_wfD:
  assumes "mux_wf s"
  shows "lru_wf (fcu_cache s)" "lru_wf (new_payload_cache s)" "lru_wf (justified_block_cache s)"
    "lru_wf (finalized_block_cache s)" "builder_wf (payload_builder s)"
  using assms by (simp_all add: mux_wf_def)

lemma same_state_builder: "same_contents (payload_builder s) b \<Longrightarrow> same_state s (s\<lparr>payload_builder := b\<rparr>)"
  by (simp add: same_state_def)


section \<open>The builder's operations keep the invariant\<close>

context mux
begin

lemma register_attributes_locked_mux_inv:
  assumes inv: "mux_inv h s"
    and rb: "register_attributes_locked mx slot ph a (payload_builder s) = (r, b)"
  shows "mux_inv h (s\<lparr>payload_builder := b\<rparr>)"
proof -
  have wf: "mux_wf s" and bwf: "builder_wf (payload_builder s)"
    using inv by (simp_all add: mux_inv_def mux_wf_def)
  from bwf rb show ?thesis
  proof (cases rule: register_attributes_cases)
    case (built info p)
    have "is_dummy q" if "lru_lookup (payloads b) i = Some q" for i q
      using forgetful_updD [OF built(9) that] build_payload_dummy [OF built(3)] inv
      by (auto simp: mux_inv_def payload_inv_def)
    with built(7,10) inv wf show ?thesis
      by (simp add: mux_inv_def payload_inv_def mux_wf_def)
  qed (use inv wf in \<open>auto intro: mux_inv_same_state [OF same_state_builder] simp: mux_wf_def\<close>)
qed

lemma safe_register_attributes:
  assumes "\<And>h' r. h \<subseteq> h' \<Longrightarrow> Q h' r"
  shows "safe mux_inv fcu_stable Q (register_attributes mx ph a) h"
proof (cases "timestamp_to_slot mx (pa_timestamp a)")
  case None
  with assms show ?thesis by (simp add: register_attributes_def)
next
  case (Some slot)
  have "safe mux_inv fcu_stable Q (unwrap_task r Done) h'" if "h \<subseteq> h'" for r h'
    using assms [OF that] by (cases r) (simp_all add: unwrap_task_def)
  then have "safe mux_inv fcu_stable Q
      (bind_task (atomically (with_builder (register_attributes_locked mx slot ph a)))
        (\<lambda>r. unwrap_task r Done)) h"
    by (intro safe_bind_atomically)
      (auto simp: with_builder_def split: prod.splits intro: register_attributes_locked_mux_inv)
  with Some show ?thesis by (simp add: register_attributes_def)
qed

lemma get_existing_payload_id_same:
  assumes "mux_wf s"
  shows "same_state s (snd (get_existing_payload_id mx ph a s)) \<and>
    mux_wf (snd (get_existing_payload_id mx ph a s))"
  using get_existing_payload_id_builder [OF mux_wfD(5) [OF assms], of ph a] assms
  by (auto simp: mux_wf_def intro: same_state_builder)

lemma get_payload_same:
  assumes "mux_wf s"
  shows "same_state s (snd (get_payload mx i s)) \<and> mux_wf (snd (get_payload mx i s))"
  using get_payload_builder [OF mux_wfD(5) [OF assms], of i] assms
  by (auto simp: mux_wf_def intro: same_state_builder)

lemma canonical_insert_mux_inv:
  assumes inv: "mux_inv h s" and replied: "payload_replied h p st" "not_invalid st"
  shows "mux_inv h (s\<lparr>payload_builder := canonical_insert mx p (payload_builder s)\<rparr>)"
proof -
  let ?b = "canonical_insert mx p (payload_builder s)"
  have wf: "mux_wf s" and iwf: "lru_wf (payload_info (payload_builder s))"
    using inv by (simp_all add: mux_inv_def mux_wf_def builder_wf_def)
  have "\<exists>p st. payload_replied h p st \<and> not_invalid st \<and> payload_block_hash p = b \<and> i = payload_info_of p"
    if "lru_lookup (payload_info ?b) b = Some i" for b i
    using info.get_or_insert_forgetful [OF iwf, of "payload_block_hash p" "payload_info_of p"]
      that inv replied
    by (fastforce simp: canonical_insert_def mux_inv_def payload_inv_def dest: forgetful_updD)
  with inv wf iwf show ?thesis
    by (simp add: mux_inv_def payload_inv_def mux_wf_def builder_wf_def canonical_insert_def
        info.get_or_insert_wf)
qed

lemma safe_register_canonical_payload:
  assumes "payload_replied h p st" and "\<And>h' r. h \<subseteq> h' \<Longrightarrow> Q h' (Some r)"
  shows "safe mux_inv fcu_stable Q (register_canonical_payload mx p (ps_status st)) h"
proof -
  have "mux_inv h' (s\<lparr>payload_builder := canonical_insert mx p (payload_builder s)\<rparr>)"
    if "h \<subseteq> h'" "mux_inv h' s" "ps_status st \<noteq> Invalid" "ps_status st \<noteq> InvalidBlockHash" for h' s
    using canonical_insert_mux_inv [OF that(2) payload_replied_mono [OF assms(1) that(1)]] that(3,4)
    by (simp add: not_invalid_def)
  with assms(2) show ?thesis
    by (auto simp: register_canonical_payload_def with_builder_def intro!: safe_intros)
qed

end

end
