(* ===== verification/Fcu.thy ===== *)
theory Fcu
  imports Mux_Invariant
begin

text \<open>
  The forkchoice-updated handlers of \<open>fcu.rs\<close>: the lookup in the cache under the three matching
  modes, the controller's handler, which asks the engine and fills the caches, and the client's
  handler, which waits for the cache and never asks the engine. Every lock acquisition is its own
  atomic section. The waiting loop is a function of the elapsed milliseconds; each round takes the
  50 milliseconds of its sleep plus an arbitrary delay, so it ends.
\<close>

abbreviation ENGINE_FORKCHOICE_UPDATED_V1 :: string where
  "ENGINE_FORKCHOICE_UPDATED_V1 \<equiv> ''engine_forkchoiceUpdatedV1''"

abbreviation ENGINE_FORKCHOICE_UPDATED_V2 :: string where
  "ENGINE_FORKCHOICE_UPDATED_V2 \<equiv> ''engine_forkchoiceUpdatedV2''"

abbreviation ENGINE_FORKCHOICE_UPDATED_V3 :: string where
  "ENGINE_FORKCHOICE_UPDATED_V3 \<equiv> ''engine_forkchoiceUpdatedV3''"

text \<open>The status a client receives when nothing is known.\<close>

definition synthetic_syncing :: JsonPayloadStatusV1 where
  "synthetic_syncing =
     \<lparr>ps_status = Syncing, ps_latest_valid_hash = None, ps_validation_error = None\<rparr>"


section \<open>The lookup\<close>

text \<open>\<open>cache.iter().find_map(...)\<close>: the first entry, in iteration order, with the same head.\<close>

definition find_same_head ::
  "(JsonForkchoiceStateV1 \<times> JsonPayloadStatusV1) list \<Rightarrow> JsonForkchoiceStateV1 \<Rightarrow>
   JsonPayloadStatusV1 option" where
  "find_same_head entries fcu =
     map_option snd (find (\<lambda>(cached_fcu, res). head_block_hash cached_fcu = head_block_hash fcu) entries)"

definition find_existing_fcu ::
  "Multiplexer \<Rightarrow> JsonForkchoiceStateV1 \<Rightarrow> MuxState \<Rightarrow> JsonPayloadStatusV1 option \<times> MuxState" where
  "find_existing_fcu mx fcu s =
     (case fcu_matching (config mx) of
        Exact \<Rightarrow> (case lru_get (fcu_ops (caches mx)) (fcu_cache s) fcu of
           (r, c) \<Rightarrow> (r, s\<lparr>fcu_cache := c\<rparr>))
      | Loose \<Rightarrow> (find_same_head (lru_iter (fcu_cache s)) fcu, s)
      | HeadOnly \<Rightarrow> (find_same_head (lru_iter (fcu_cache s)) fcu, s))"

text \<open>The check of the justified and the finalized block, in that order.\<close>

definition just_and_fin_ok :: "Multiplexer \<Rightarrow> JsonForkchoiceStateV1 \<Rightarrow> bool handler" where
  "just_and_fin_ok mx fcu =
     (case fcu_matching (config mx) of
        Exact \<Rightarrow> Done True
      | HeadOnly \<Rightarrow> Done True
      | Loose \<Rightarrow>
          bind_task (atomically (\<lambda>s.
            (lru_contains (block_ops (caches mx)) (justified_block_cache s) (safe_block_hash fcu), s)))
            (\<lambda>justified. if justified then
               atomically (\<lambda>s.
                 (lru_contains (block_ops (caches mx)) (finalized_block_cache s)
                    (finalized_block_hash fcu), s))
             else Done False))"

text \<open>
  The code keeps the guard of the forkchoice cache while it looks into the two block caches. Here
  the three locks are taken one after the other, so other tasks may run between them: the model has
  every interleaving of the code, and more.
\<close>

definition get_cached_fcu ::
  "Multiplexer \<Rightarrow> JsonForkchoiceStateV1 \<Rightarrow> bool \<Rightarrow> JsonPayloadStatusV1 option handler" where
  "get_cached_fcu mx fcu definite_only =
     bind_task (atomically (find_existing_fcu mx fcu)) (\<lambda>existing.
     case existing of
       None \<Rightarrow> Done None
     | Some existing_status \<Rightarrow>
         bind_task (just_and_fin_ok mx fcu) (\<lambda>ok.
         let definite_enough = (\<not> definite_only \<or> is_definite existing_status) in
         Done (if ok \<and> definite_enough then Some existing_status else None)))"


section \<open>The controller\<close>

text \<open>
  The update of the cache under its lock: whether the response was cached, and the new state. A
  definite status that is already there is kept.
\<close>

definition update_fcu_cache ::
  "Multiplexer \<Rightarrow> JsonForkchoiceStateV1 \<Rightarrow> JsonPayloadStatusV1 \<Rightarrow> MuxState \<Rightarrow> bool \<times> MuxState" where
  "update_fcu_cache mx fcu new_status s =
     (case lru_get_mut (fcu_ops (caches mx)) (fcu_cache s) fcu of
        Some (existing_status, write) \<Rightarrow>
          if is_definite existing_status then (False, s\<lparr>fcu_cache := write existing_status\<rparr>)
          else (True, s\<lparr>fcu_cache := write new_status\<rparr>)
      | None \<Rightarrow> (True, s\<lparr>fcu_cache := lru_put (fcu_ops (caches mx)) (fcu_cache s) fcu new_status\<rparr>))"

definition put_justified :: "Multiplexer \<Rightarrow> ExecutionBlockHash \<Rightarrow> MuxState \<Rightarrow> unit \<times> MuxState" where
  "put_justified mx b s =
     ((), s\<lparr>justified_block_cache := lru_put (block_ops (caches mx)) (justified_block_cache s) b ()\<rparr>)"

definition put_finalized :: "Multiplexer \<Rightarrow> ExecutionBlockHash \<Rightarrow> MuxState \<Rightarrow> unit \<times> MuxState" where
  "put_finalized mx b s =
     ((), s\<lparr>finalized_block_cache := lru_put (block_ops (caches mx)) (finalized_block_cache s) b ()\<rparr>)"

text \<open>What follows a successful reply of the engine.\<close>

definition store_fcu_response ::
  "Multiplexer \<Rightarrow> JsonForkchoiceStateV1 \<Rightarrow> JsonForkchoiceUpdatedV1Response \<Rightarrow> JsonPayloadStatusV1 handler" where
  "store_fcu_response mx fcu json_response =
     (let status = ps_status (fr_payload_status json_response) in
      bind_task (atomically (update_fcu_cache mx fcu (fr_payload_status json_response))) (\<lambda>cached.
      bind_task
        (if cached \<and> status = Valid then
           bind_task (atomically (put_justified mx (safe_block_hash fcu))) (\<lambda>_.
           atomically (put_finalized mx (finalized_block_hash fcu)))
         else Done ())
        (\<lambda>_. Done (fr_payload_status json_response))))"

definition controller_fcu_status ::
  "Multiplexer \<Rightarrow> JsonValue \<Rightarrow> JsonForkchoiceStateV1 \<Rightarrow> (ErrorResponse + JsonPayloadStatusV1) handler" where
  "controller_fcu_status mx i fcu =
     bind_task (get_cached_fcu mx fcu True) (\<lambda>cached.
     case cached of
       Some status \<Rightarrow> Done (Inr status)
     | None \<Rightarrow>
         Await (NotifyForkchoiceUpdated (forkchoice_state_from fcu)) (\<lambda>reply.
         case reply_forkchoice reply of
           Inr json_response \<Rightarrow> bind_task (store_fcu_response mx fcu json_response) (\<lambda>status. Done (Inr status))
         | Inl e \<Rightarrow> Done (Inl (invalid_request i ''forkchoice update failed: see eleel logs''))))"

definition attributes_error :: "JsonValue \<Rightarrow> SerdeError \<Rightarrow> ErrorResponse" where
  "attributes_error i e = parse_error_generic i (''invalid payload attributes: '' @ serde_display e)"

definition decode_payload_attributes ::
  "Multiplexer \<Rightarrow> JsonValue \<Rightarrow> string \<Rightarrow> JsonValue option \<Rightarrow> ErrorResponse + JsonPayloadAttributes option" where
  "decode_payload_attributes mx i method_name json_payload_attributes =
     (if method_name = ENGINE_FORKCHOICE_UPDATED_V2 then
        and_then (map_err (attributes_error i)
            (transpose_map (decode_attributes_v2 (serde mx)) json_payload_attributes))
          (\<lambda>a. Inr (map_option JsonAttributesV2 a))
      else
        and_then (map_err (attributes_error i)
            (transpose_map (decode_attributes_v3 (serde mx)) json_payload_attributes))
          (\<lambda>a. Inr (map_option JsonAttributesV3 a)))"

definition controller_payload_id ::
  "Multiplexer \<Rightarrow> JsonValue \<Rightarrow> ExecutionBlockHash \<Rightarrow> JsonPayloadAttributes option \<Rightarrow>
   (ErrorResponse + PayloadId option) handler" where
  "controller_payload_id mx i head_hash opt_payload_attributes =
     (case opt_payload_attributes of
        Some attributes \<Rightarrow>
          bind_task (register_attributes mx head_hash (payload_attributes_from (lighthouse mx) attributes))
            (\<lambda>r. case r of
               Inr payload_id \<Rightarrow> Done (Inr (Some payload_id))
             | Inl message \<Rightarrow> Done (Inl (invalid_payload_attributes i message)))
      | None \<Rightarrow> Done (Inr None))"

definition handle_controller_fcu :: "Multiplexer \<Rightarrow> Request \<Rightarrow> rpc_handler" where
  "handle_controller_fcu mx request =
     try_task (parse_as (decode_controller_fcu (serde mx)) request) (\<lambda>(i, fcu, json_payload_attributes).
     try_task (decode_payload_attributes mx i (req_method request) json_payload_attributes)
       (\<lambda>opt_payload_attributes.
     bind_task (controller_fcu_status mx i fcu) (\<lambda>status_result.
     try_task status_result (\<lambda>payload_status.
     bind_task (controller_payload_id mx i (head_block_hash fcu) opt_payload_attributes)
       (\<lambda>id_result. try_task id_result (\<lambda>payload_id.
          Done (response_new (to_value (serde mx)) i (ForkchoiceUpdatedResult
            \<lparr>fr_payload_status = payload_status, fr_payload_id = payload_id\<rparr>))))))))"


section \<open>The client\<close>

function fcu_wait_loop ::
  "Multiplexer \<Rightarrow> JsonForkchoiceStateV1 \<Rightarrow> nat \<Rightarrow> JsonPayloadStatusV1 option handler" where
  "fcu_wait_loop mx fcu elapsed =
     (if elapsed < fcu_wait_millis (config mx) then
        bind_task (get_cached_fcu mx fcu True) (\<lambda>cached.
        case cached of
          Some definite_status \<Rightarrow> Done (Some definite_status)
        | None \<Rightarrow> Sleep 50 (\<lambda>delay. fcu_wait_loop mx fcu (elapsed + 50 + delay)))
      else Done None)"
  by pat_completeness auto
termination
  by (relation "measure (\<lambda>(mx, fcu, elapsed). fcu_wait_millis (config mx) - elapsed)") auto

declare fcu_wait_loop.simps [simp del]

definition client_fcu_status ::
  "Multiplexer \<Rightarrow> JsonForkchoiceStateV1 \<Rightarrow> JsonPayloadStatusV1 handler" where
  "client_fcu_status mx fcu =
     Sleep 0 (\<lambda>elapsed.
     bind_task (fcu_wait_loop mx fcu elapsed) (\<lambda>definite_payload_status.
     case definite_payload_status of
       Some definite_status \<Rightarrow> Done definite_status
     | None \<Rightarrow>
         bind_task (get_cached_fcu mx fcu False) (\<lambda>cached.
         case cached of
           Some payload_status \<Rightarrow> Done payload_status
         | None \<Rightarrow> Done synthetic_syncing)))"

definition client_payload_id ::
  "Multiplexer \<Rightarrow> ExecutionBlockHash \<Rightarrow> JsonPayloadAttributesV2 option \<Rightarrow> PayloadId option handler" where
  "client_payload_id mx head_hash opt_payload_attributes =
     (case opt_payload_attributes of
        Some attributes \<Rightarrow>
          bind_task (atomically (get_existing_payload_id mx head_hash
                       (payload_attributes_from (lighthouse mx) (JsonAttributesV2 attributes))))
            (\<lambda>r. case r of Inr payload_id \<Rightarrow> Done (Some payload_id) | Inl message \<Rightarrow> Done None)
      | None \<Rightarrow> Done None)"

definition handle_fcu :: "Multiplexer \<Rightarrow> Request \<Rightarrow> rpc_handler" where
  "handle_fcu mx request =
     try_task (parse_as (decode_client_fcu (serde mx)) request) (\<lambda>(i, fcu, opt_payload_attributes).
     bind_task (client_fcu_status mx fcu) (\<lambda>payload_status.
     bind_task (client_payload_id mx (head_block_hash fcu) opt_payload_attributes) (\<lambda>payload_id.
     Done (response_new (to_value (serde mx)) i (ForkchoiceUpdatedResult
       \<lparr>fr_payload_status = payload_status, fr_payload_id = payload_id\<rparr>)))))"


section \<open>Where a status comes from\<close>

text \<open>
  The engine gave this status to a forkchoice state that the matching mode accepts for \<open>fcu\<close>: the
  same state in exact mode; a state with the same head otherwise; and in loose mode the safe and the
  finalized block both belong to states the engine found valid.
\<close>

definition fcu_vouched :: "Multiplexer \<Rightarrow> history \<Rightarrow> JsonForkchoiceStateV1 \<Rightarrow> JsonPayloadStatusV1 \<Rightarrow> bool" where
  "fcu_vouched mx h fcu st \<longleftrightarrow>
     (\<exists>fcu'. fcu_replied h fcu' st \<and> head_block_hash fcu' = head_block_hash fcu \<and>
        (fcu_matching (config mx) = Exact \<longrightarrow> fcu' = fcu)) \<and>
     (fcu_matching (config mx) = Loose \<longrightarrow>
        safe_block_known h (safe_block_hash fcu) \<and> finalized_block_known h (finalized_block_hash fcu))"

lemma fcu_vouched_mono:
  assumes "fcu_vouched mx h fcu st" and "h \<subseteq> h'"
  shows "fcu_vouched mx h' fcu st"
proof -
  from assms(1) obtain fcu' where "fcu_replied h fcu' st" "head_block_hash fcu' = head_block_hash fcu"
    "fcu_matching (config mx) = Exact \<longrightarrow> fcu' = fcu"
    by (auto simp: fcu_vouched_def)
  with fcu_replied_mono [OF _ assms(2)] safe_block_known_mono [OF _ assms(2)]
    finalized_block_known_mono [OF _ assms(2)] assms(1)
  show ?thesis unfolding fcu_vouched_def by blast
qed

text \<open>A reply to a forkchoice request whose status satisfies \<open>P\<close> for the requested state.\<close>

definition fcu_reply_ok ::
  "Multiplexer \<Rightarrow> (JsonValue \<Rightarrow> SerdeError + JsonForkchoiceStateV1 \<times> 'a) \<Rightarrow>
   (JsonForkchoiceStateV1 \<Rightarrow> JsonPayloadStatusV1 \<Rightarrow> bool) \<Rightarrow> Request \<Rightarrow> ErrorResponse + Response \<Rightarrow> bool" where
  "fcu_reply_ok mx dec P request x \<longleftrightarrow>
     answers (req_id request) x \<and>
     (\<forall>resp. x = Inr resp \<longrightarrow>
       (\<exists>fcu attributes st pid. dec (req_params request) = Inr (fcu, attributes) \<and>
          to_value (serde mx) (ForkchoiceUpdatedResult
            \<lparr>fr_payload_status = st, fr_payload_id = pid\<rparr>) = Inr (resp_result resp) \<and> P fcu st))"

lemma fcu_reply_ok_mono:
  "fcu_reply_ok mx dec P q x \<Longrightarrow> (\<And>fcu st. P fcu st \<Longrightarrow> P' fcu st) \<Longrightarrow> fcu_reply_ok mx dec P' q x"
  unfolding fcu_reply_ok_def by blast

lemma fcu_reply_ok_response:
  assumes "dec (req_params q) = Inr (fcu, attributes)" and "P fcu st"
  shows "fcu_reply_ok mx dec P q (response_new (to_value (serde mx)) (req_id q) (ForkchoiceUpdatedResult
            \<lparr>fr_payload_status = st, fr_payload_id = pid\<rparr>))"
  using assms by (auto simp: fcu_reply_ok_def response_new_Inr)

text \<open>What a client's and the controller's reply have to satisfy; only the controller may panic.\<close>

definition client_fcu_post :: "Multiplexer \<Rightarrow> Request \<Rightarrow> history \<Rightarrow> (ErrorResponse + Response) option \<Rightarrow> bool" where
  "client_fcu_post mx request h r \<longleftrightarrow>
     (\<exists>x. r = Some x \<and> fcu_reply_ok mx (decode_client_fcu (serde mx))
        (\<lambda>fcu st. st = synthetic_syncing \<or> fcu_vouched mx h fcu st) request x)"

definition controller_fcu_post :: "Multiplexer \<Rightarrow> Request \<Rightarrow> history \<Rightarrow> (ErrorResponse + Response) option \<Rightarrow> bool" where
  "controller_fcu_post mx request h r \<longleftrightarrow>
     (\<forall>x. r = Some x \<longrightarrow> fcu_reply_ok mx (decode_controller_fcu (serde mx))
        (\<lambda>fcu st. fcu_replied h fcu st \<or> fcu_vouched mx h fcu st) request x)"

lemma client_fcu_post_mono: "client_fcu_post mx q h r \<Longrightarrow> h \<subseteq> h' \<Longrightarrow> client_fcu_post mx q h' r"
  by (auto simp: client_fcu_post_def elim!: fcu_reply_ok_mono intro: fcu_vouched_mono)

lemma controller_fcu_post_mono: "controller_fcu_post mx q h r \<Longrightarrow> h \<subseteq> h' \<Longrightarrow> controller_fcu_post mx q h' r"
  by (auto simp: controller_fcu_post_def elim!: fcu_reply_ok_mono intro: fcu_vouched_mono fcu_replied_mono)

lemma find_same_head_Some:
  assumes "find_same_head (lru_iter c) fcu = Some st" and "lru_wf c"
  shows "\<exists>fcu'. lru_lookup c fcu' = Some st \<and> head_block_hash fcu' = head_block_hash fcu"
proof -
  from assms(1) obtain fcu' where "find (\<lambda>(f, res). head_block_hash f = head_block_hash fcu) (lru_iter c)
      = Some (fcu', st)"
    by (auto simp: find_same_head_def)
  then have "(fcu', st) \<in> set (lru_iter c)" and "head_block_hash fcu' = head_block_hash fcu"
    by (auto simp: find_Some_iff dest: nth_mem)
  with assms(2) show ?thesis
    by (auto simp: lru_lookup_def lru_wf_def intro: map_of_is_SomeI)
qed

lemma decode_payload_attributes_None [simp]: "decode_payload_attributes mx i m None = Inr None"
  by (simp add: decode_payload_attributes_def transpose_map_def)

lemma decode_payload_attributes_error:
  "decode_payload_attributes mx i m a = Inl e \<Longrightarrow> \<exists>msg. e = parse_error_generic i msg"
  by (auto simp: decode_payload_attributes_def attributes_error_def and_then_Inl_iff map_err_Inl_iff
      split: if_splits)


section \<open>The handlers are safe under interleaving\<close>

context mux
begin

lemma fcu_get:
  assumes "lru_wf c"
  shows "\<exists>c'. lru_get (fcu_ops (caches mx)) c k = (lru_lookup c k, c') \<and>
    lru_wf c' \<and> lru_lookup c' = lru_lookup c"
  using fcu.get_pair [OF assms] by (metis surj_pair)

lemma find_existing_fcu_same:
  assumes "mux_wf s"
  shows "same_state s (snd (find_existing_fcu mx fcu s)) \<and> mux_wf (snd (find_existing_fcu mx fcu s))"
  using fcu_get [OF mux_wfD(1) [OF assms], of fcu] assms
  by (auto simp: find_existing_fcu_def same_state_def mux_wf_def split: FcuMatching.splits)

lemma find_existing_fcu_Some:
  assumes "mux_wf s" and "fst (find_existing_fcu mx fcu s) = Some st"
  shows "\<exists>fcu'. lru_lookup (fcu_cache s) fcu' = Some st \<and> head_block_hash fcu' = head_block_hash fcu \<and>
    (fcu_matching (config mx) = Exact \<longrightarrow> fcu' = fcu)"
  using fcu_get [OF mux_wfD(1) [OF assms(1)], of fcu] assms(2)
    find_same_head_Some [OF _ mux_wfD(1) [OF assms(1)]]
  by (auto simp: find_existing_fcu_def split: FcuMatching.splits)

lemma safe_just_and_fin_ok:
  "safe mux_inv same_state
     (\<lambda>h r. \<exists>ok. r = Some ok \<and> (ok \<and> fcu_matching (config mx) = Loose \<longrightarrow>
        safe_block_known h (safe_block_hash fcu) \<and> finalized_block_known h (finalized_block_hash fcu)))
     (just_and_fin_ok mx fcu) h"
proof (cases "fcu_matching (config mx)")
  case Loose
  have just: "safe_block_known h' b" if "mux_inv h' s"
    "lru_contains (block_ops (caches mx)) (justified_block_cache s) b" for h' s b
    using that by (auto simp: mux_inv_def fcu_inv_def mux_wf_def blk.contains_iff)
  have fin: "finalized_block_known h' b" if "mux_inv h' s"
    "lru_contains (block_ops (caches mx)) (finalized_block_cache s) b" for h' s b
    using that by (auto simp: mux_inv_def fcu_inv_def mux_wf_def blk.contains_iff)
  show ?thesis
    unfolding just_and_fin_ok_def Loose FcuMatching.case
  proof (rule safe_bind_atomically, intro conjI)
    fix h' s assume inv: "mux_inv h' s"
    show "safe mux_inv same_state
       (\<lambda>h r. \<exists>ok. r = Some ok \<and> (ok \<and> Loose = Loose \<longrightarrow>
          safe_block_known h (safe_block_hash fcu) \<and> finalized_block_known h (finalized_block_hash fcu)))
       (if fst (lru_contains (block_ops (caches mx)) (justified_block_cache s) (safe_block_hash fcu), s)
        then atomically (\<lambda>s. (lru_contains (block_ops (caches mx)) (finalized_block_cache s)
               (finalized_block_hash fcu), s))
        else Done False) h'"
    proof (cases "lru_contains (block_ops (caches mx)) (justified_block_cache s) (safe_block_hash fcu)")
      case True
      note known = safe_block_known_mono [OF just [OF inv True]]
      show ?thesis
        unfolding fst_conv if_P [OF True]
        by (rule safe_atomically) (use known fin in simp)
    qed auto
  qed simp_all
qed (auto simp: just_and_fin_ok_def)

lemma safe_get_cached_fcu:
  "safe mux_inv same_state
     (\<lambda>h r. \<exists>x. r = Some x \<and> (\<forall>st. x = Some st \<longrightarrow>
        fcu_vouched mx h fcu st \<and> (definite_only \<longrightarrow> is_definite st)))
     (get_cached_fcu mx fcu definite_only) h"
  unfolding get_cached_fcu_def
proof (rule safe_bind_atomically, intro conjI)
  fix h' s assume inv: "mux_inv h' s"
  then show "mux_inv h' (snd (find_existing_fcu mx fcu s))" and "same_state s (snd (find_existing_fcu mx fcu s))"
    using mux_inv_reading [OF inv find_existing_fcu_same] by blast+
  show "safe mux_inv same_state
     (\<lambda>h r. \<exists>x. r = Some x \<and> (\<forall>st. x = Some st \<longrightarrow>
        fcu_vouched mx h fcu st \<and> (definite_only \<longrightarrow> is_definite st)))
     (case fst (find_existing_fcu mx fcu s) of None \<Rightarrow> Done None
      | Some existing_status \<Rightarrow>
         bind_task (just_and_fin_ok mx fcu) (\<lambda>ok.
         let definite_enough = (\<not> definite_only \<or> is_definite existing_status) in
         Done (if ok \<and> definite_enough then Some existing_status else None))) h'"
  proof (cases "fst (find_existing_fcu mx fcu s)")
    case (Some st)
    from find_existing_fcu_Some [OF mux_inv_wf [OF inv] this] inv
    have "\<exists>fcu'. fcu_replied h' fcu' st \<and> head_block_hash fcu' = head_block_hash fcu \<and>
        (fcu_matching (config mx) = Exact \<longrightarrow> fcu' = fcu)"
      by (auto simp: mux_inv_def fcu_inv_def)
    then have replied: "\<exists>fcu'. fcu_replied h'' fcu' st \<and> head_block_hash fcu' = head_block_hash fcu \<and>
        (fcu_matching (config mx) = Exact \<longrightarrow> fcu' = fcu)" if "h' \<subseteq> h''" for h''
      using fcu_replied_mono [OF _ that] by blast
    show ?thesis
      unfolding Some option.case
      by (rule safe_bind_task [OF safe_just_and_fin_ok])
        (use replied in \<open>auto simp: fcu_vouched_def Let_def\<close>)
  qed simp
qed

lemma safe_fcu_wait_loop:
  "safe mux_inv same_state
     (\<lambda>h r. \<exists>x. r = Some x \<and> (\<forall>st. x = Some st \<longrightarrow> fcu_vouched mx h fcu st \<and> is_definite st))
     (fcu_wait_loop mx fcu elapsed) h"
proof (induction "fcu_wait_millis (config mx) - elapsed" arbitrary: elapsed h rule: less_induct)
  case less
  show ?case
  proof (cases "elapsed < fcu_wait_millis (config mx)")
    case True
    have rest: "safe mux_inv same_state
        (\<lambda>h r. \<exists>x. r = Some x \<and> (\<forall>st. x = Some st \<longrightarrow> fcu_vouched mx h fcu st \<and> is_definite st))
        (Sleep 50 (\<lambda>delay. fcu_wait_loop mx fcu (elapsed + 50 + delay))) h'" for h'
      using True by (intro safe_Sleep less.hyps) auto
    show ?thesis
      unfolding fcu_wait_loop.simps [of mx fcu elapsed] if_P [OF True]
      by (rule safe_bind_task [OF safe_get_cached_fcu])
        (use rest in \<open>auto split: option.split\<close>)
  next
    case False
    then show ?thesis by (simp add: fcu_wait_loop.simps)
  qed
qed

lemma safe_client_fcu_status:
  "safe mux_inv same_state
     (\<lambda>h r. \<exists>st. r = Some st \<and> (st = synthetic_syncing \<or> fcu_vouched mx h fcu st))
     (client_fcu_status mx fcu) h"
proof -
  let ?Q = "\<lambda>h r. \<exists>st. r = Some st \<and> (st = synthetic_syncing \<or> fcu_vouched mx h fcu st)"
  have again: "safe mux_inv same_state ?Q
      (bind_task (get_cached_fcu mx fcu False) (\<lambda>cached.
         case cached of Some payload_status \<Rightarrow> Done payload_status | None \<Rightarrow> Done synthetic_syncing)) h'" for h'
    by (rule safe_bind_task [OF safe_get_cached_fcu]) (auto split: option.split)
  show ?thesis
    unfolding client_fcu_status_def
    by (rule safe_Sleep, rule safe_bind_task [OF safe_fcu_wait_loop])
      (use again in \<open>auto split: option.split\<close>)
qed

lemma safe_client_payload_id:
  "safe mux_inv same_state (\<lambda>h r. r \<noteq> None) (client_payload_id mx head attributes) h"
proof (cases attributes)
  case (Some a)
  show ?thesis
    unfolding client_payload_id_def Some option.case
    by (rule safe_bind_atomically)
      (use mux_inv_reading [OF _ get_existing_payload_id_same] in \<open>auto split: sum.split\<close>)
qed (simp add: client_payload_id_def)

lemma safe_handle_fcu: "safe mux_inv same_state (client_fcu_post mx request) (handle_fcu mx request) h"
proof (cases "decode_client_fcu (serde mx) (req_params request)")
  case (Inl e)
  then show ?thesis
    by (simp add: handle_fcu_def try_task_def parse_as_def client_fcu_post_def fcu_reply_ok_def)
next
  case (Inr p)
  obtain fcu attributes where p: "p = (fcu, attributes)" by fastforce
  have final: "safe mux_inv same_state (client_fcu_post mx request)
      (bind_task (client_payload_id mx (head_block_hash fcu) attributes) (\<lambda>payload_id.
        Done (response_new (to_value (serde mx)) (req_id request) (ForkchoiceUpdatedResult
          \<lparr>fr_payload_status = st, fr_payload_id = payload_id\<rparr>)))) h'"
    if st: "st = synthetic_syncing \<or> fcu_vouched mx h' fcu st" for st h'
  proof (rule safe_bind_task [OF safe_client_payload_id])
    fix h'' pid assume "h' \<subseteq> h''"
    with st have "st = synthetic_syncing \<or> fcu_vouched mx h'' fcu st"
      using fcu_vouched_mono by blast
    then show "safe mux_inv same_state (client_fcu_post mx request)
        (Done (response_new (to_value (serde mx)) (req_id request) (ForkchoiceUpdatedResult
          \<lparr>fr_payload_status = st, fr_payload_id = pid\<rparr>))) h''"
      using Inr p by (simp add: client_fcu_post_def fcu_reply_ok_response)
  qed simp
  have "safe mux_inv same_state (client_fcu_post mx request)
      (bind_task (client_fcu_status mx fcu) (\<lambda>st.
        bind_task (client_payload_id mx (head_block_hash fcu) attributes) (\<lambda>payload_id.
        Done (response_new (to_value (serde mx)) (req_id request) (ForkchoiceUpdatedResult
          \<lparr>fr_payload_status = st, fr_payload_id = payload_id\<rparr>))))) h"
    by (rule safe_bind_task [OF safe_client_fcu_status]) (use final in auto)
  with Inr p show ?thesis
    by (simp add: handle_fcu_def try_task_def parse_as_def)
qed

lemma update_fcu_cache_inv:
  assumes inv: "mux_inv h s" and replied: "fcu_replied h fcu st"
  shows "mux_inv h (snd (update_fcu_cache mx fcu st s)) \<and> fcu_stable s (snd (update_fcu_cache mx fcu st s))"
proof -
  from inv have wf: "lru_wf (fcu_cache s)" by (simp add: mux_inv_def mux_wf_def)
  show ?thesis
  proof (cases "lru_get_mut (fcu_ops (caches mx)) (fcu_cache s) fcu")
    case None
    let ?c = "lru_put (fcu_ops (caches mx)) (fcu_cache s) fcu st"
    from None have absent: "lru_lookup (fcu_cache s) fcu = None"
      using fcu.get_mut_None [OF wf] by blast
    note put = fcu.put_forgetful [OF wf, of fcu st]
    have "fcu_replied h f t" if "lru_lookup ?c f = Some t" for f t
      using forgetful_updD [OF put that] replied inv by (auto simp: mux_inv_def fcu_inv_def)
    moreover have "lru_lookup ?c f = Some t \<or> lru_lookup ?c f = None"
      if "lru_lookup (fcu_cache s) f = Some t" for f t
      using put that absent by (cases "f = fcu") (auto simp: forgetful_upd_def)
    ultimately show ?thesis
      using None inv fcu.put_wf [OF wf]
      by (simp add: update_fcu_cache_def mux_inv_def fcu_inv_def payload_inv_def mux_wf_def fcu_stable_def)
  next
    case (Some vw)
    obtain existing wr where vw: "vw = (existing, wr)" by fastforce
    with Some have old: "lru_lookup (fcu_cache s) fcu = Some existing"
      and new: "\<And>t. lru_wf (wr t) \<and> lru_lookup (wr t) = (lru_lookup (fcu_cache s))(fcu \<mapsto> t)"
      using fcu.get_mut_value [OF wf] fcu.get_mut_write [OF wf] by auto
    then show ?thesis
      using Some vw inv replied
      by (auto simp: update_fcu_cache_def mux_inv_def fcu_inv_def payload_inv_def mux_wf_def fcu_stable_def)
  qed
qed

lemma put_justified_inv:
  assumes inv: "mux_inv h s" and known: "safe_block_known h b"
  shows "mux_inv h (snd (put_justified mx b s))"
proof -
  from inv have wf: "lru_wf (justified_block_cache s)" by (simp add: mux_inv_def mux_wf_def)
  have "safe_block_known h x"
    if "lru_lookup (lru_put (block_ops (caches mx)) (justified_block_cache s) b ()) x = Some u" for x u
    using forgetful_updD [OF blk.put_forgetful [OF wf] that] known inv
    by (auto simp: mux_inv_def fcu_inv_def)
  with inv blk.put_wf [OF wf] show ?thesis
    by (simp add: put_justified_def mux_inv_def fcu_inv_def payload_inv_def mux_wf_def)
qed

lemma put_finalized_inv:
  assumes inv: "mux_inv h s" and known: "finalized_block_known h b"
  shows "mux_inv h (snd (put_finalized mx b s))"
proof -
  from inv have wf: "lru_wf (finalized_block_cache s)" by (simp add: mux_inv_def mux_wf_def)
  have "finalized_block_known h x"
    if "lru_lookup (lru_put (block_ops (caches mx)) (finalized_block_cache s) b ()) x = Some u" for x u
    using forgetful_updD [OF blk.put_forgetful [OF wf] that] known inv
    by (auto simp: mux_inv_def fcu_inv_def)
  with inv blk.put_wf [OF wf] show ?thesis
    by (simp add: put_finalized_def mux_inv_def fcu_inv_def payload_inv_def mux_wf_def)
qed

lemma safe_store_fcu_response:
  assumes replied: "fcu_replied h fcu (fr_payload_status resp)"
  shows "safe mux_inv fcu_stable
     (\<lambda>h' r. r = Some (fr_payload_status resp) \<and> fcu_replied h' fcu (fr_payload_status resp))
     (store_fcu_response mx fcu resp) h"
proof -
  let ?st = "fr_payload_status resp"
  let ?Q = "\<lambda>h' r. r = Some ?st \<and> fcu_replied h' fcu ?st"
  have known: "safe_block_known h' (safe_block_hash fcu) \<and> finalized_block_known h' (finalized_block_hash fcu)"
    if "h \<subseteq> h'" and "ps_status ?st = Valid" for h'
    using that fcu_replied_mono [OF replied] unfolding safe_block_known_def finalized_block_known_def by blast
  have blocks: "safe mux_inv fcu_stable ?Q
      (bind_task
        (if cached \<and> ps_status ?st = Valid then
           bind_task (atomically (put_justified mx (safe_block_hash fcu))) (\<lambda>_.
           atomically (put_finalized mx (finalized_block_hash fcu)))
         else Done ())
        (\<lambda>_. Done ?st)) h'" if "h \<subseteq> h'" for cached h'
  proof (rule safe_bind_task [where R = "\<lambda>h' r. r = Some ()"])
    show "safe mux_inv fcu_stable (\<lambda>h' r. r = Some ())
        (if cached \<and> ps_status ?st = Valid then
           bind_task (atomically (put_justified mx (safe_block_hash fcu))) (\<lambda>_.
           atomically (put_finalized mx (finalized_block_hash fcu)))
         else Done ()) h'"
    proof (cases "cached \<and> ps_status ?st = Valid")
      case True
      have "safe mux_inv fcu_stable (\<lambda>h' r. r = Some ())
          (atomically (put_finalized mx (finalized_block_hash fcu))) h''" if "h' \<subseteq> h''" for h''
        using known True that \<open>h \<subseteq> h'\<close>
        by (intro safe_atomically conjI put_finalized_inv) (auto simp: put_finalized_def)
      then show ?thesis
        unfolding if_P [OF True] using known True that
        by (intro safe_bind_atomically conjI put_justified_inv) (auto simp: put_justified_def)
    next
      case False
      show ?thesis unfolding if_not_P [OF False] by simp
    qed
  qed (use that fcu_replied_mono [OF replied] in auto)
  show ?thesis
    unfolding store_fcu_response_def Let_def
  proof (rule safe_bind_atomically, intro conjI)
    fix h' s assume h': "h \<subseteq> h'" and "mux_inv h' s"
    with update_fcu_cache_inv fcu_replied_mono [OF replied]
    show "mux_inv h' (snd (update_fcu_cache mx fcu ?st s))" and "fcu_stable s (snd (update_fcu_cache mx fcu ?st s))"
      by blast+
  qed (rule blocks)
qed

lemma safe_controller_fcu_status:
  "safe mux_inv fcu_stable
     (\<lambda>h r. \<exists>x. r = Some x \<and> (case x of
        Inl e \<Rightarrow> e = invalid_request i ''forkchoice update failed: see eleel logs''
      | Inr st \<Rightarrow> fcu_replied h fcu st \<or> fcu_vouched mx h fcu st))
     (controller_fcu_status mx i fcu) h"
proof -
  let ?Q = "\<lambda>h r. \<exists>x. r = Some x \<and> (case x of
        Inl e \<Rightarrow> e = invalid_request i ''forkchoice update failed: see eleel logs''
      | Inr st \<Rightarrow> fcu_replied h fcu st \<or> fcu_vouched mx h fcu st)"
  have ask: "safe mux_inv fcu_stable ?Q
      (Await (NotifyForkchoiceUpdated (forkchoice_state_from fcu)) (\<lambda>reply.
         case reply_forkchoice reply of
           Inr json_response \<Rightarrow> bind_task (store_fcu_response mx fcu json_response) (\<lambda>status. Done (Inr status))
         | Inl e \<Rightarrow> Done (Inl (invalid_request i ''forkchoice update failed: see eleel logs'')))) h'" for h'
  proof (rule safe_Await)
    fix h'' :: history and r :: EngineReply
    assume r: "(NotifyForkchoiceUpdated (forkchoice_state_from fcu), r) \<in> h''"
    show "safe mux_inv fcu_stable ?Q (case reply_forkchoice r of
           Inr json_response \<Rightarrow> bind_task (store_fcu_response mx fcu json_response) (\<lambda>status. Done (Inr status))
         | Inl e \<Rightarrow> Done (Inl (invalid_request i ''forkchoice update failed: see eleel logs''))) h''"
    proof (cases "reply_forkchoice r")
      case (Inr resp)
      with r have "fcu_replied h'' fcu (fr_payload_status resp)" by (auto simp: fcu_replied_def)
      from safe_store_fcu_response [OF this] have "safe mux_inv fcu_stable ?Q
          (bind_task (store_fcu_response mx fcu resp) (\<lambda>status. Done (Inr status))) h''"
        by (rule safe_bind_task) auto
      with Inr show ?thesis by simp
    qed simp
  qed
  show ?thesis
    unfolding controller_fcu_status_def
  proof (rule safe_bind_task [OF safe_weaken [OF safe_get_cached_fcu _ same_state_fcu_stable]], assumption)
    fix h' :: history and a assume "\<exists>x. Some a = Some x \<and> (\<forall>st. x = Some st \<longrightarrow>
      fcu_vouched mx h' fcu st \<and> (True \<longrightarrow> is_definite st))"
    then have vouched: "fcu_vouched mx h' fcu st" if "a = Some st" for st using that by simp
    show "safe mux_inv fcu_stable ?Q
        (case a of Some status \<Rightarrow> Done (Inr status)
         | None \<Rightarrow> Await (NotifyForkchoiceUpdated (forkchoice_state_from fcu)) (\<lambda>reply.
             case reply_forkchoice reply of
               Inr json_response \<Rightarrow> bind_task (store_fcu_response mx fcu json_response) (\<lambda>status. Done (Inr status))
             | Inl e \<Rightarrow> Done (Inl (invalid_request i ''forkchoice update failed: see eleel logs'')))) h'"
    proof (cases a)
      case None
      show ?thesis unfolding None option.case by (rule ask)
    qed (use vouched in simp)
  qed auto
qed

lemma safe_controller_payload_id:
  "safe mux_inv fcu_stable (\<lambda>h r. \<forall>e. r = Some (Inl e) \<longrightarrow> answers i (Inl e))
     (controller_payload_id mx i ph attributes) h"
  unfolding controller_payload_id_def
  by (auto intro!: safe_bind_task [OF safe_register_attributes [where Q = "\<lambda>h r. True"]]
      split: option.split sum.split)

lemma safe_handle_controller_fcu:
  "safe mux_inv fcu_stable (controller_fcu_post mx request) (handle_controller_fcu mx request) h"
proof -
  note post = controller_fcu_post_def fcu_reply_ok_def
  have id_part: "safe mux_inv fcu_stable (controller_fcu_post mx request)
      (bind_task (controller_payload_id mx (req_id request) (head_block_hash fcu) attributes)
       (\<lambda>id_result. try_task id_result (\<lambda>payload_id.
          Done (response_new (to_value (serde mx)) (req_id request) (ForkchoiceUpdatedResult
            \<lparr>fr_payload_status = st, fr_payload_id = payload_id\<rparr>))))) h'"
    if dec: "decode_controller_fcu (serde mx) (req_params request) = Inr (fcu, json)"
      and st: "fcu_replied h' fcu st \<or> fcu_vouched mx h' fcu st" for fcu json attributes st h'
  proof (rule safe_bind_task [OF safe_controller_payload_id])
    fix h'' :: history and id_result :: "ErrorResponse + PayloadId option"
    assume "h' \<subseteq> h''" and r: "\<forall>e. Some id_result = Some (Inl e) \<longrightarrow> answers (req_id request) (Inl e)"
    then have "fcu_replied h'' fcu st \<or> fcu_vouched mx h'' fcu st"
      using st fcu_replied_mono fcu_vouched_mono by blast
    with r show "safe mux_inv fcu_stable (controller_fcu_post mx request)
        (try_task id_result (\<lambda>payload_id.
          Done (response_new (to_value (serde mx)) (req_id request) (ForkchoiceUpdatedResult
            \<lparr>fr_payload_status = st, fr_payload_id = payload_id\<rparr>)))) h''"
      by (cases id_result) (auto simp: try_task_def controller_fcu_post_def
          fcu_reply_ok_response [where dec = "decode_controller_fcu (serde mx)", OF dec]
          fcu_reply_ok_def [of _ _ _ _ "Inl _"])
  qed (simp add: controller_fcu_post_def)
  show ?thesis
  proof (cases "decode_controller_fcu (serde mx) (req_params request)")
    case (Inl e)
    then show ?thesis by (simp add: handle_controller_fcu_def try_task_def parse_as_def post)
  next
    case (Inr p)
    obtain fcu json where p: "p = (fcu, json)" by fastforce
    show ?thesis
    proof (cases "decode_payload_attributes mx (req_id request) (req_method request) json")
      case (Inl e)
      then show ?thesis
        using Inr p decode_payload_attributes_error [OF Inl]
        by (auto simp: handle_controller_fcu_def try_task_def parse_as_def post)
    next
      case attributes: (Inr attributes)
      have "safe mux_inv fcu_stable (controller_fcu_post mx request)
         (bind_task (controller_fcu_status mx (req_id request) fcu) (\<lambda>status_result.
            try_task status_result (\<lambda>payload_status.
            bind_task (controller_payload_id mx (req_id request) (head_block_hash fcu) attributes)
              (\<lambda>id_result. try_task id_result (\<lambda>payload_id.
                 Done (response_new (to_value (serde mx)) (req_id request) (ForkchoiceUpdatedResult
                   \<lparr>fr_payload_status = payload_status, fr_payload_id = payload_id\<rparr>))))))) h"
        by (rule safe_bind_task [OF safe_controller_fcu_status])
          (use id_part [OF Inr [unfolded p]] in \<open>auto simp: try_task_def post split: sum.split\<close>)
      with Inr p attributes show ?thesis
        by (simp add: handle_controller_fcu_def try_task_def parse_as_def)
    qed
  qed
qed

end


section \<open>Polling\<close>

lemma only_awaits_get_cached_fcu: "only_awaits P (get_cached_fcu mx fcu definite_only)"
  by (auto simp: get_cached_fcu_def just_and_fin_ok_def Let_def intro!: only_awaits_bind_task
      split: option.split FcuMatching.split)

lemma only_awaits_fcu_wait_loop: "only_awaits P (fcu_wait_loop mx fcu elapsed)"
proof (induction mx fcu elapsed rule: fcu_wait_loop.induct)
  case (1 mx fcu elapsed)
  then show ?case
    by (subst fcu_wait_loop.simps)
      (auto intro!: only_awaits_bind_task only_awaits_get_cached_fcu split: option.split)
qed

lemma sleeps_get_cached_fcu: "sleeps_at_most (get_cached_fcu mx fcu definite_only) 0"
  by (auto simp: get_cached_fcu_def just_and_fin_ok_def Let_def atomically_def
      intro!: sleeps_at_most_bind_task split: option.split FcuMatching.split)

lemma sleeps_fcu_wait_loop:
  "sleeps_at_most (fcu_wait_loop mx fcu elapsed) (poll_rounds (fcu_wait_millis (config mx) - elapsed))"
proof (induction mx fcu elapsed rule: fcu_wait_loop.induct)
  case (1 mx fcu elapsed)
  let ?w = "fcu_wait_millis (config mx)"
  show ?case
  proof (cases "elapsed < ?w")
    case True
    have "sleeps_at_most (fcu_wait_loop mx fcu (elapsed + 50 + delay)) (poll_rounds (?w - elapsed) - 1)" for delay
      using sleeps_at_most_mono [OF 1 [OF True] poll_rounds_step(2) [OF True]] .
    then have rest: "sleeps_at_most (Sleep 50 (\<lambda>delay. fcu_wait_loop mx fcu (elapsed + 50 + delay)))
        (poll_rounds (?w - elapsed))"
      using poll_rounds_step(1) [OF True] by simp
    show ?thesis
      unfolding fcu_wait_loop.simps [of mx fcu elapsed] if_P [OF True]
      by (rule sleeps_bind_poll [OF sleeps_get_cached_fcu]) (use rest in \<open>auto split: option.split\<close>)
  qed (simp add: fcu_wait_loop.simps)
qed

lemma sleeps_client_fcu:
  "sleeps_at_most (client_fcu_status mx fcu) (poll_rounds (fcu_wait_millis (config mx)))"
proof -
  have "sleeps_at_most (fcu_wait_loop mx fcu elapsed) (poll_rounds (fcu_wait_millis (config mx)))" for elapsed
    by (rule sleeps_at_most_mono [OF sleeps_fcu_wait_loop]) (simp add: poll_rounds_def div_le_mono)
  then show ?thesis
    by (auto simp: client_fcu_status_def intro!: sleeps_at_most_bind_task
        sleeps_at_most_bind_task [OF sleeps_get_cached_fcu] split: option.split)
qed

lemma sleeps_client_payload_id: "sleeps_at_most (client_payload_id mx ph a) 0"
  by (auto simp: client_payload_id_def split: option.split sum.split)

lemma only_awaits_handle_fcu: "only_awaits P (handle_fcu mx request)"
  by (auto simp: handle_fcu_def client_fcu_status_def client_payload_id_def
      intro!: only_awaits_try_task only_awaits_bind_task only_awaits_get_cached_fcu only_awaits_fcu_wait_loop
      split: option.split sum.split)

lemma sleeps_handle_fcu:
  "sleeps_at_most (handle_fcu mx request) (poll_rounds (fcu_wait_millis (config mx)))"
  by (auto simp: handle_fcu_def try_task_def split: sum.split
      intro!: sleeps_at_most_bind_task [OF sleeps_client_fcu] sleeps_at_most_bind_task [OF sleeps_client_payload_id])


section \<open>One handler after another\<close>

text \<open>What a lookup finds in a state, in the configured matching mode.\<close>

definition cached_status ::
  "Multiplexer \<Rightarrow> JsonForkchoiceStateV1 \<Rightarrow> bool \<Rightarrow> MuxState \<Rightarrow> JsonPayloadStatusV1 option" where
  "cached_status mx fcu definite_only s =
     (case (if fcu_matching (config mx) = Exact then lru_lookup (fcu_cache s) fcu
            else find_same_head (lru_iter (fcu_cache s)) fcu) of
        Some st \<Rightarrow>
          if (fcu_matching (config mx) = Loose \<longrightarrow>
                lru_lookup (justified_block_cache s) (safe_block_hash fcu) \<noteq> None \<and>
                lru_lookup (finalized_block_cache s) (finalized_block_hash fcu) \<noteq> None) \<and>
             (definite_only \<longrightarrow> is_definite st) then Some st else None
      | None \<Rightarrow> None)"

lemma cached_status_definite:
  "cached_status mx fcu True s = Some st \<Longrightarrow> cached_status mx fcu False s = Some st"
  by (auto simp: cached_status_def split: option.splits if_splits)

text \<open>Two states between which no lookup can tell a difference.\<close>

definition same_view :: "Multiplexer \<Rightarrow> MuxState \<Rightarrow> MuxState \<Rightarrow> bool" where
  "same_view mx s s' \<longleftrightarrow> mux_wf s' \<and> same_state s s' \<and>
     (fcu_matching (config mx) \<noteq> Exact \<longrightarrow> lru_iter (fcu_cache s') = lru_iter (fcu_cache s))"

lemma same_view_status: "same_view mx s s' \<Longrightarrow> cached_status mx fcu b s' = cached_status mx fcu b s"
  by (simp add: same_view_def cached_status_def same_state_def cong: option.case_cong)

lemma same_view_trans: "same_view mx s s' \<Longrightarrow> same_view mx s' s'' \<Longrightarrow> same_view mx s s''"
  by (auto simp: same_view_def same_state_def same_contents_def)

lemma same_view_wf: "same_view mx s s' \<Longrightarrow> mux_wf s'"
  by (simp add: same_view_def)

lemma same_view_builder: "same_view mx s s' \<Longrightarrow> same_contents (payload_builder s) (payload_builder s')"
  by (simp add: same_view_def same_state_def)

lemma same_view_lookup:
  "same_view mx s s' \<Longrightarrow> lru_lookup (fcu_cache s') = lru_lookup (fcu_cache s)"
  "same_view mx s s' \<Longrightarrow> lru_lookup (payload_attributes (payload_builder s')) = lru_lookup (payload_attributes (payload_builder s))"
  by (simp_all add: same_view_def same_state_def same_contents_def)

context mux
begin

lemma run_get_cached_fcu:
  assumes "mux_wf s"
  shows "\<exists>s'. run ans d (get_cached_fcu mx fcu definite_only) s =
      (Some (cached_status mx fcu definite_only s), s') \<and> same_view mx s s'"
proof (cases "fcu_matching (config mx) = Exact")
  case True
  with fcu_get [OF mux_wfD(1) [OF assms], of fcu] find_existing_fcu_same [OF assms, of fcu]
  show ?thesis
    by (auto simp: get_cached_fcu_def find_existing_fcu_def just_and_fin_ok_def cached_status_def
        same_view_def split: option.splits)
next
  case False
  then have "find_existing_fcu mx fcu s = (find_same_head (lru_iter (fcu_cache s)) fcu, s)"
    by (auto simp: find_existing_fcu_def split: FcuMatching.splits)
  with False assms show ?thesis
    by (auto simp: get_cached_fcu_def just_and_fin_ok_def cached_status_def same_view_def
        blk.contains_iff mux_wf_def split: option.splits FcuMatching.splits)
qed

lemma run_fcu_wait_loop:
  assumes "mux_wf s"
  shows "\<exists>r s'. run ans d (fcu_wait_loop mx fcu elapsed) s = (Some r, s') \<and> same_view mx s s' \<and>
    (r = None \<or> r = cached_status mx fcu True s)"
  using assms
proof (induction "fcu_wait_millis (config mx) - elapsed" arbitrary: elapsed s rule: less_induct)
  case less
  show ?case
  proof (cases "elapsed < fcu_wait_millis (config mx)")
    case True
    from run_get_cached_fcu [OF less.prems] obtain s1 where
      s1: "run ans d (get_cached_fcu mx fcu True) s = (Some (cached_status mx fcu True s), s1)"
        "same_view mx s s1" by blast
    have "fcu_wait_millis (config mx) - (elapsed + 50 + d) < fcu_wait_millis (config mx) - elapsed"
      using True by simp
    from less.hyps [OF this same_view_wf [OF s1(2)]] obtain r s2 where
      s2: "run ans d (fcu_wait_loop mx fcu (elapsed + 50 + d)) s1 = (Some r, s2)" "same_view mx s1 s2"
        "r = None \<or> r = cached_status mx fcu True s1" by blast
    show ?thesis
      using s1 s2 same_view_status [OF s1(2)] same_view_trans [OF s1(2) s2(2)]
      by (subst fcu_wait_loop.simps) (auto simp: True run_bind_task split: option.split)
  next
    case False
    with less.prems show ?thesis by (simp add: fcu_wait_loop.simps same_view_def)
  qed
qed

lemma run_client_fcu_status:
  assumes "mux_wf s"
  shows "\<exists>s'. run ans d (client_fcu_status mx fcu) s =
      (Some (case cached_status mx fcu False s of Some st \<Rightarrow> st | None \<Rightarrow> synthetic_syncing), s') \<and>
    same_view mx s s'"
proof -
  from run_fcu_wait_loop [OF assms, of ans d fcu d] obtain r s1 where
    s1: "run ans d (fcu_wait_loop mx fcu d) s = (Some r, s1)" "same_view mx s s1"
      and r: "r = None \<or> r = cached_status mx fcu True s" by blast
  from run_get_cached_fcu [OF same_view_wf [OF s1(2)], of ans d fcu False] obtain s2 where
    s2: "run ans d (get_cached_fcu mx fcu False) s1 = (Some (cached_status mx fcu False s1), s2)"
      "same_view mx s1 s2" by blast
  have "cached_status mx fcu False s = Some st" if "r = Some st" for st
    using r that cached_status_definite [of mx fcu s st] by simp
  with s1 s2 same_view_trans [OF s1(2) s2(2)] same_view_status [OF s1(2)] show ?thesis
    by (auto simp: client_fcu_status_def run_bind_task split: option.splits)
qed

lemma run_client_payload_id:
  assumes "mux_wf s"
  shows "\<exists>s'. run ans d (client_payload_id mx ph a) s =
      (Some (Option.bind a (\<lambda>a. lru_lookup (payload_attributes (payload_builder s))
         (ph, payload_attributes_from (lighthouse mx) (JsonAttributesV2 a)))), s') \<and> same_state s s' \<and> mux_wf s'"
proof (cases a)
  case (Some x)
  let ?a = "payload_attributes_from (lighthouse mx) (JsonAttributesV2 x)"
  show ?thesis
    using get_existing_payload_id_builder [OF mux_wfD(5) [OF assms], of ph ?a]
      get_existing_payload_id_same [OF assms, of ph ?a] Some
    by (cases "lru_lookup (payload_attributes (payload_builder s)) (ph, ?a)")
      (auto simp: client_payload_id_def)
qed (use assms in \<open>simp add: client_payload_id_def\<close>)

lemma run_handle_fcu:
  assumes "mux_wf s" and dec: "decode_client_fcu (serde mx) (req_params q) = Inr (fcu, a)"
  shows "\<exists>s'. run ans d (handle_fcu mx q) s =
      (Some (response_new (to_value (serde mx)) (req_id q) (ForkchoiceUpdatedResult
         \<lparr>fr_payload_status = (case cached_status mx fcu False s of Some st \<Rightarrow> st | None \<Rightarrow> synthetic_syncing),
          fr_payload_id = Option.bind a (\<lambda>a. lru_lookup (payload_attributes (payload_builder s))
            (head_block_hash fcu, payload_attributes_from (lighthouse mx) (JsonAttributesV2 a)))\<rparr>)), s')"
proof -
  from run_client_fcu_status [OF assms(1), of ans d fcu] obtain s1 where
    s1: "run ans d (client_fcu_status mx fcu) s =
      (Some (case cached_status mx fcu False s of Some st \<Rightarrow> st | None \<Rightarrow> synthetic_syncing), s1)"
      "same_view mx s s1" by blast
  from run_client_payload_id [OF same_view_wf [OF s1(2)], of ans d "head_block_hash fcu" a] s1 dec
  show ?thesis
    by (auto simp: handle_fcu_def try_task_def parse_as_def run_bind_task same_view_lookup(2) [OF s1(2)])
qed

lemma update_fcu_cache_fresh:
  assumes wf: "mux_wf s"
    and fresh: "\<And>st. lru_lookup (fcu_cache s) fcu = Some st \<Longrightarrow> \<not> is_definite st"
  shows "\<exists>c. update_fcu_cache mx fcu st s = (True, s\<lparr>fcu_cache := c\<rparr>) \<and> lru_wf c \<and>
    lru_lookup c fcu = Some st \<and>
    (lru_crate (fcu_ops (caches mx)) \<longrightarrow> find_same_head (lru_iter c) fcu = Some st)"
proof (cases "lru_get_mut (fcu_ops (caches mx)) (fcu_cache s) fcu")
  case None
  then have absent: "lru_lookup (fcu_cache s) fcu = None"
    using fcu.get_mut_None [OF mux_wfD(1) [OF wf]] by blast
  have "find_same_head (lru_iter (lru_put (fcu_ops (caches mx)) (fcu_cache s) fcu st)) fcu = Some st"
    if "lru_crate (fcu_ops (caches mx))"
    by (simp add: lru_crate.put_miss [OF that mux_wfD(1) [OF wf] absent] find_same_head_def)
  with None show ?thesis
    using fcu.put_wf [OF mux_wfD(1) [OF wf]] fcu.put_same [OF mux_wfD(1) [OF wf]]
    by (auto simp: update_fcu_cache_def)
next
  case (Some vw)
  obtain existing wr where vw: "vw = (existing, wr)" by fastforce
  note old = fcu.get_mut_value [OF mux_wfD(1) [OF wf] Some [unfolded vw]]
    and new = fcu.get_mut_write [OF mux_wfD(1) [OF wf] Some [unfolded vw]]
  have "find_same_head (lru_iter (wr st)) fcu = Some st" if "lru_crate (fcu_ops (caches mx))"
    using Some vw by (simp add: lru_crate.get_mut_hit [OF that mux_wfD(1) [OF wf] old] find_same_head_def)
      (auto simp: find_same_head_def)
  with Some vw new fresh [OF old] show ?thesis by (auto simp: update_fcu_cache_def)
qed

text \<open>After a fresh status is stored, a lookup for the same forkchoice state finds it.\<close>

lemma run_store_fcu_response:
  assumes "mux_wf s"
    and "\<And>st. lru_lookup (fcu_cache s) fcu = Some st \<Longrightarrow> \<not> is_definite st"
  shows "\<exists>s'. run ans d (store_fcu_response mx fcu resp) s = (Some (fr_payload_status resp), s') \<and>
    mux_wf s' \<and> payload_builder s' = payload_builder s \<and>
    (fcu_matching (config mx) = Exact \<or>
       lru_crate (fcu_ops (caches mx)) \<and>
       (fcu_matching (config mx) = HeadOnly \<or> ps_status (fr_payload_status resp) = Valid) \<longrightarrow>
     cached_status mx fcu False s' = Some (fr_payload_status resp))"
proof -
  from update_fcu_cache_fresh [OF assms, where st = "fr_payload_status resp"] obtain c where
    c: "update_fcu_cache mx fcu (fr_payload_status resp) s = (True, s\<lparr>fcu_cache := c\<rparr>)"
      "lru_wf c" "lru_lookup c fcu = Some (fr_payload_status resp)"
      "lru_crate (fcu_ops (caches mx)) \<Longrightarrow> find_same_head (lru_iter c) fcu = Some (fr_payload_status resp)"
    by blast
  then show ?thesis
    using assms(1)
    by (auto simp: store_fcu_response_def Let_def run_bind_task put_justified_def put_finalized_def mux_wf_def
        blk.put_wf blk.put_same cached_status_def)
qed

lemma store_fcu_response_frame:
  assumes "mux_wf s" and "run ans d (store_fcu_response mx fcu resp) s = (r, s')"
  shows "mux_wf s' \<and> payload_builder s' = payload_builder s"
proof -
  have "\<exists>b c. update_fcu_cache mx fcu (fr_payload_status resp) s = (b, s\<lparr>fcu_cache := c\<rparr>) \<and> lru_wf c"
    using fcu.get_mut_write [OF mux_wfD(1) [OF assms(1)], of fcu] fcu.put_wf [OF mux_wfD(1) [OF assms(1)]]
    by (auto simp: update_fcu_cache_def split: option.split)
  with assms show ?thesis
    by (auto simp: store_fcu_response_def Let_def run_bind_task put_justified_def put_finalized_def mux_wf_def
        blk.put_wf split: if_splits)
qed

lemma run_controller_fcu_cached:
  assumes "mux_wf s" and "cached_status mx fcu True s = Some st"
  shows "\<exists>s'. run ans d (controller_fcu_status mx i fcu) s = (Some (Inr st), s') \<and> same_view mx s s' \<and>
    requests ans d (controller_fcu_status mx i fcu) s = []"
proof -
  from run_get_cached_fcu [OF assms(1), of ans d fcu True] assms(2) obtain s1 where
    "run ans d (get_cached_fcu mx fcu True) s = (Some (Some st), s1)" "same_view mx s s1" by auto
  moreover have "requests ans d (get_cached_fcu mx fcu True) s = []"
    by (rule only_awaits_no_requests [OF only_awaits_get_cached_fcu])
  ultimately show ?thesis
    by (simp add: controller_fcu_status_def run_bind_task requests_bind_task)
qed

lemma run_controller_fcu_asks:
  assumes "mux_wf s" and "cached_status mx fcu True s = None"
  defines "q \<equiv> NotifyForkchoiceUpdated (forkchoice_state_from fcu)"
  shows "\<exists>s1. same_view mx s s1 \<and>
    requests ans d (controller_fcu_status mx i fcu) s = [q] \<and>
    run ans d (controller_fcu_status mx i fcu) s =
      (case reply_forkchoice (ans q) of
         Inl e \<Rightarrow> (Some (Inl (invalid_request i ''forkchoice update failed: see eleel logs'')), s1)
       | Inr resp \<Rightarrow> run ans d (bind_task (store_fcu_response mx fcu resp) (\<lambda>st. Done (Inr st))) s1)"
proof -
  from run_get_cached_fcu [OF assms(1), of ans d fcu True] assms(2) obtain s1 where
    s1: "run ans d (get_cached_fcu mx fcu True) s = (Some None, s1)" "same_view mx s s1" by auto
  have "only_awaits (\<lambda>_. False) (bind_task (store_fcu_response mx fcu resp)
      (\<lambda>st. Done (Inr st) :: (ErrorResponse + JsonPayloadStatusV1) handler))" for resp
    by (auto simp: store_fcu_response_def Let_def intro!: only_awaits_bind_task)
  note this [THEN only_awaits_no_requests, of ans d]
    and only_awaits_no_requests [OF only_awaits_get_cached_fcu, of ans d]
  with s1 show ?thesis
    by (auto simp: controller_fcu_status_def run_bind_task requests_bind_task q_def split: sum.split)
qed

lemma controller_fcu_frame:
  assumes wf: "mux_wf s" and eq: "run ans d (controller_fcu_status mx i fcu) s = (r, s')"
  shows "mux_wf s' \<and> lru_lookup (payload_attributes (payload_builder s')) =
    lru_lookup (payload_attributes (payload_builder s))"
proof (cases "cached_status mx fcu True s")
  case (Some st)
  from run_controller_fcu_cached [OF wf this, of ans d i] eq show ?thesis
    by (auto dest: same_view_wf same_view_lookup)
next
  case None
  from run_controller_fcu_asks [OF wf None, of ans d i] obtain s1 where
    s1: "same_view mx s s1" "run ans d (controller_fcu_status mx i fcu) s =
      (case reply_forkchoice (ans (NotifyForkchoiceUpdated (forkchoice_state_from fcu))) of
         Inl e \<Rightarrow> (Some (Inl (invalid_request i ''forkchoice update failed: see eleel logs'')), s1)
       | Inr resp \<Rightarrow> run ans d (bind_task (store_fcu_response mx fcu resp) (\<lambda>st. Done (Inr st))) s1)"
    by blast
  have "mux_wf s2 \<and> payload_builder s2 = payload_builder s1"
    if "run ans d (store_fcu_response mx fcu resp) s1 = (r', s2)" for resp r' s2
    using store_fcu_response_frame [OF same_view_wf [OF s1(1)] that] .
  with s1(2) eq same_view_wf [OF s1(1)] same_view_lookup(2) [OF s1(1)] show ?thesis
    by (auto simp: run_bind_task split: sum.splits prod.splits option.splits)
qed

end


section \<open>Properties\<close>

definition fcu_request :: "string \<Rightarrow> JsonForkchoiceStateV1 \<Rightarrow> JsonValue \<Rightarrow> Request" where
  "fcu_request method fcu attributes = \<lparr>req_jsonrpc = ''2.0'', req_method = method,
     req_params = JArray [JArray [JNumber (uint (head_block_hash fcu)), JNumber (uint (safe_block_hash fcu)),
       JNumber (uint (finalized_block_hash fcu))], attributes], req_id = JNumber 1\<rparr>"

definition example_valid :: JsonPayloadStatusV1 where
  "example_valid = \<lparr>ps_status = Valid, ps_latest_valid_hash = None, ps_validation_error = None\<rparr>"

definition example_fcu :: JsonForkchoiceStateV1 where
  "example_fcu = \<lparr>head_block_hash = 7, safe_block_hash = 6, finalized_block_hash = 5\<rparr>"


lemma example_fcu_decodes:
  "decode_controller_fcu (serde example_multiplexer) (req_params (fcu_request m example_fcu JNull)) =
     Inr (example_fcu, None)"
  "decode_client_fcu (serde example_multiplexer) (req_params (fcu_request m example_fcu JNull)) =
     Inr (example_fcu, None)"
  by (simp_all add: example_multiplexer_def External.defs ref_serde_def fcu_request_def example_fcu_def)

lemma example_to_value: "to_value (serde example_multiplexer) = ref_to_value"
  by (simp add: example_multiplexer_def External.defs ref_serde_def)

lemma example_crate: "lru_crate (fcu_ops (caches example_multiplexer))"
  by (simp add: example_multiplexer_def External.defs ref_external_def list_lru.lru_crate_axioms)

lemma example_state_wf: "mux_wf (initial_state ref_external small_config)"
  by (rule ref.initial_state_ok(1))
    (simp_all add: sizes_positive_def small_config_def example_config_def default_config_def)


text \<open>
  C14. What the controller's forkchoice update sends to the engine: the forkchoice state, once, when
  no definite status is cached for it; nothing at all when one is.
\<close>

theorem controller_fcu_requests:
  assumes "mux mx" and "mux_wf s"
    and "decode_controller_fcu (serde mx) (req_params creq) = Inr (fcu, json)"
    and "decode_payload_attributes mx (req_id creq) (req_method creq) json = Inr attributes"
  shows "requests ans d (handle_controller_fcu mx creq) s =
    (case cached_status mx fcu True s of
       None \<Rightarrow> [NotifyForkchoiceUpdated (forkchoice_state_from fcu)]
     | Some st \<Rightarrow> [])"
proof -
  have "only_awaits (\<lambda>_. False) (try_task r (\<lambda>payload_status.
      bind_task (controller_payload_id mx (req_id creq) (head_block_hash fcu) attributes)
       (\<lambda>id_result. try_task id_result (\<lambda>payload_id.
          Done (response_new (to_value (serde mx)) (req_id creq) (ForkchoiceUpdatedResult
            \<lparr>fr_payload_status = payload_status, fr_payload_id = payload_id\<rparr>))))))" for r
    by (auto simp: controller_payload_id_def register_attributes_def Let_def
        intro!: only_awaits_try_task only_awaits_bind_task only_awaits_unwrap_task split: option.split sum.split)
  note this [THEN only_awaits_no_requests, of ans d]
  with assms(3,4) mux.run_controller_fcu_cached [OF assms(1,2), of fcu _ ans d "req_id creq"]
    mux.run_controller_fcu_asks [OF assms(1,2), of fcu ans d "req_id creq"]
  show ?thesis
    by (cases "cached_status mx fcu True s")
      (auto simp: handle_controller_fcu_def try_task_def [of "parse_as _ _"] try_task_def [of "Inr _"]
        parse_as_def requests_bind_task split: option.split prod.split)
qed

theorem controller_fcu_requests_witness:
  "requests (\<lambda>q. example_reply) 0
     (handle_controller_fcu example_multiplexer (fcu_request ENGINE_FORKCHOICE_UPDATED_V3 example_fcu JNull))
     (initial_state ref_external small_config) =
   [NotifyForkchoiceUpdated (forkchoice_state_from example_fcu)]"
proof -
  have "cached_status example_multiplexer example_fcu True (initial_state ref_external small_config) = None"
    by (simp add: cached_status_def find_same_head_def initial_state_def lru_list_def lru_lookup_def)
  then show ?thesis
    using controller_fcu_requests [OF example.mux_axioms example_state_wf
        example_fcu_decodes(1) [of ENGINE_FORKCHOICE_UPDATED_V3] decode_payload_attributes_None,
        of "\<lambda>q. example_reply" 0] by simp
qed

text \<open>
  C19. A client's forkchoice update ends: it sleeps at most as often as 50 millisecond rounds fit into
  the configured waiting time, whatever the other tasks and the clock do, and on no path does it send
  anything to the engine.
\<close>

theorem client_fcu_bounded:
  "sleeps_at_most (handle_fcu mx request) ((fcu_wait_millis (config mx) + 49) div 50) \<and>
   only_awaits (\<lambda>_. False) (handle_fcu mx request)"
  using sleeps_handle_fcu [of mx request] only_awaits_handle_fcu by (simp add: poll_rounds_def)

text \<open>
  C27. When the engine fails, the controller gets the error for an invalid request, nothing is
  remembered of the failure, and every cache has the contents it had before.
\<close>

theorem controller_fcu_engine_error:
  assumes "mux mx" and "mux_wf s"
    and "decode_controller_fcu (serde mx) (req_params creq) = Inr (fcu, json)"
    and "decode_payload_attributes mx (req_id creq) (req_method creq) json = Inr attributes"
    and "cached_status mx fcu True s = None"
    and "reply_forkchoice (ans (NotifyForkchoiceUpdated (forkchoice_state_from fcu))) = Inl e"
  shows "\<exists>s'. run ans d (handle_controller_fcu mx creq) s =
      (Some (Inl (invalid_request (req_id creq) ''forkchoice update failed: see eleel logs'')), s') \<and>
    mux_wf s' \<and> same_state s s'"
  using mux.run_controller_fcu_asks [OF assms(1,2,5), of ans d "req_id creq"] assms(3,4,6)
  by (auto simp: handle_controller_fcu_def try_task_def parse_as_def run_bind_task same_view_def)

theorem controller_fcu_engine_error_witness:
  "\<exists>s'. run (\<lambda>q. example_reply\<lparr>reply_forkchoice := Inl ''timeout''\<rparr>) 0
      (handle_controller_fcu example_multiplexer (fcu_request ENGINE_FORKCHOICE_UPDATED_V3 example_fcu JNull))
      (initial_state ref_external small_config) =
      (Some (Inl (invalid_request (JNumber 1) ''forkchoice update failed: see eleel logs'')), s') \<and>
    same_state (initial_state ref_external small_config) s'"
proof -
  have "cached_status example_multiplexer example_fcu True (initial_state ref_external small_config) = None"
    by (simp add: cached_status_def find_same_head_def initial_state_def lru_list_def lru_lookup_def)
  from controller_fcu_engine_error [OF example.mux_axioms example_state_wf
      example_fcu_decodes(1) [of ENGINE_FORKCHOICE_UPDATED_V3] decode_payload_attributes_None this,
      of "\<lambda>q. example_reply\<lparr>reply_forkchoice := Inl ''timeout''\<rparr>" "''timeout''" 0]
  show ?thesis by (auto simp: fcu_request_def)
qed

text \<open>
  No payload id is known for attributes of the second version.
\<close>

definition no_v2_ids :: "MuxState \<Rightarrow> bool" where
  "no_v2_ids s \<longleftrightarrow> (\<forall>ph t r f w.
     lru_lookup (payload_attributes (payload_builder s)) (ph, PayloadAttributesV2 t r f w) = None)"

context mux
begin

lemma register_v3_no_v2_ids:
  assumes "mux_wf s" and "no_v2_ids s"
    and "run ans d (register_attributes mx ph (PayloadAttributesV3 t r f w b)) s = (x, s')"
  shows "mux_wf s' \<and> no_v2_ids s'"
proof (cases "timestamp_to_slot mx t")
  case None
  with assms show ?thesis by (simp add: run_register_attributes)
next
  case (Some slot)
  obtain y c where yc: "register_attributes_locked mx slot ph (PayloadAttributesV3 t r f w b)
      (payload_builder s) = (y, c)" by fastforce
  with Some assms(3) have s': "s' = s\<lparr>payload_builder := c\<rparr>" by (simp add: run_register_attributes)
  from mux_wfD(5) [OF assms(1)] yc show ?thesis
  proof (cases rule: register_attributes_cases)
    case (built info p)
    have "lru_lookup (payload_attributes c) (ph', PayloadAttributesV2 t' r' f' w') = None" for ph' t' r' f' w'
      using forgetful_updD [OF built(8), of "(ph', PayloadAttributesV2 t' r' f' w')"] assms(2)
      by (cases "lru_lookup (payload_attributes c) (ph', PayloadAttributesV2 t' r' f' w')")
        (auto simp: no_v2_ids_def)
    with s' built(10) assms(1) show ?thesis by (simp add: no_v2_ids_def mux_wf_def)
  qed (use s' assms(1,2) in \<open>auto simp: no_v2_ids_def same_contents_def mux_wf_def\<close>)
qed

lemma controller_payload_id_no_v2:
  assumes "payload_conversions (lighthouse mx)" and "mux_wf s" and "no_v2_ids s"
    and "\<And>a. attributes \<noteq> Some (JsonAttributesV2 a)"
    and "run ans d (controller_payload_id mx i ph attributes) s = (x, s')"
  shows "mux_wf s' \<and> no_v2_ids s'"
proof (cases attributes)
  case None
  with assms show ?thesis by (simp add: controller_payload_id_def)
next
  case (Some ja)
  with assms(4) obtain a where a: "ja = JsonAttributesV3 a" by (cases ja) auto
  obtain y s1 where y: "run ans d (register_attributes mx ph (payload_attributes_from (lighthouse mx) ja)) s = (y, s1)"
    by fastforce
  with a payload_conversions.attributes_v3 [OF assms(1), of a] register_v3_no_v2_ids [OF assms(2,3)]
  have "mux_wf s1 \<and> no_v2_ids s1" by metis
  with Some y assms(5) show ?thesis
    by (auto simp: controller_payload_id_def run_bind_task split: option.splits sum.splits)
qed

lemma handle_controller_fcu_no_v2:
  assumes conv: "payload_conversions (lighthouse mx)" and wf: "mux_wf s" and no: "no_v2_ids s"
    and "req_method creq \<noteq> ENGINE_FORKCHOICE_UPDATED_V2"
    and eq: "run ans d (handle_controller_fcu mx creq) s = (r, s')"
  shows "mux_wf s' \<and> no_v2_ids s'"
proof (cases "\<exists>fcu json attributes. decode_controller_fcu (serde mx) (req_params creq) = Inr (fcu, json) \<and>
    decode_payload_attributes mx (req_id creq) (req_method creq) json = Inr attributes")
  case False
  with eq have "s' = s"
    by (cases "decode_controller_fcu (serde mx) (req_params creq)")
      (auto simp: handle_controller_fcu_def try_task_def parse_as_def split: sum.splits)
  with wf no show ?thesis by simp
next
  case True
  then obtain fcu json attributes where
    dec: "decode_controller_fcu (serde mx) (req_params creq) = Inr (fcu, json)"
      "decode_payload_attributes mx (req_id creq) (req_method creq) json = Inr attributes" by blast
  have v3: "attributes \<noteq> Some (JsonAttributesV2 a)" for a
    using dec(2) assms(4) by (auto simp: decode_payload_attributes_def and_then_Inr_iff)
  obtain st s1 where s1: "run ans d (controller_fcu_status mx (req_id creq) fcu) s = (st, s1)" by fastforce
  from controller_fcu_frame [OF wf s1] no have ok: "mux_wf s1" "no_v2_ids s1"
    by (simp_all add: no_v2_ids_def)
  obtain x s2 where s2: "run ans d (controller_payload_id mx (req_id creq) (head_block_hash fcu) attributes) s1 = (x, s2)"
    by fastforce
  from controller_payload_id_no_v2 [OF conv ok v3 s2] ok eq dec s1 s2 show ?thesis
    by (auto simp: handle_controller_fcu_def try_task_def parse_as_def run_bind_task
        split: option.splits sum.splits)
qed

end

text \<open>
  C35. Payload ids registered through \<open>engine_forkchoiceUpdatedV3\<close> (or V1) never reach a client:
  the client's attributes are always decoded as version 2, which differ from every version 3 key, so
  as long as only such updates register attributes, a client that sends attributes gets no id.
\<close>

theorem v3_payload_ids_unknown_to_clients:
  assumes "mux mx" and "payload_conversions (lighthouse mx)" and "mux_wf s" and "no_v2_ids s"
    and "req_method creq \<noteq> ENGINE_FORKCHOICE_UPDATED_V2"
    and "run ans d (handle_controller_fcu mx creq) s = (r, s')"
    and "decode_client_fcu (serde mx) (req_params q) = Inr (fcu, a)"
  shows "no_v2_ids s' \<and> (\<exists>st s''. run ans' d' (handle_fcu mx q) s' =
    (Some (response_new (to_value (serde mx)) (req_id q) (ForkchoiceUpdatedResult
       \<lparr>fr_payload_status = st, fr_payload_id = None\<rparr>)), s''))"
proof -
  from mux.handle_controller_fcu_no_v2 [OF assms(1-6)] have s': "mux_wf s'" "no_v2_ids s'" by blast+
  have "Option.bind a (\<lambda>a. lru_lookup (payload_attributes (payload_builder s'))
      (head_block_hash fcu, payload_attributes_from (lighthouse mx) (JsonAttributesV2 a))) = None"
    using s'(2) payload_conversions.attributes_v2 [OF assms(2)]
    by (cases a) (simp_all add: no_v2_ids_def)
  with mux.run_handle_fcu [OF assms(1) s'(1) assms(7), of ans' d'] s'(2) show ?thesis by auto
qed

theorem v3_payload_ids_unknown_to_clients_witness:
  "let s = example_builder_run [Canonical example_parent Valid];
       attributes = JObject [(''timestamp'', JNumber 1180), (''parentBeaconBlockRoot'', JNumber 9)];
       s' = snd (run (\<lambda>q. example_reply) 0 (handle_controller_fcu example_multiplexer
         (fcu_request ENGINE_FORKCHOICE_UPDATED_V3 example_fcu attributes)) s)
   in issued (payload_builder s') (to_be_bytes 0) \<and>
      (\<exists>st s''. run (\<lambda>q. example_reply) 0 (handle_fcu example_multiplexer
         (fcu_request ENGINE_FORKCHOICE_UPDATED_V3 example_fcu attributes)) s' =
         (Some (response_new ref_to_value (JNumber 1) (ForkchoiceUpdatedResult
            \<lparr>fr_payload_status = st, fr_payload_id = None\<rparr>)), s''))"
proof -
  let ?s = "example_builder_run [Canonical example_parent Valid]"
  let ?a = "JObject [(''timestamp'', JNumber 1180), (''parentBeaconBlockRoot'', JNumber 9)]"
  let ?q = "fcu_request ENGINE_FORKCHOICE_UPDATED_V3 example_fcu ?a"
  obtain r s' where s': "run (\<lambda>q. example_reply) 0 (handle_controller_fcu example_multiplexer ?q) ?s = (r, s')"
    by fastforce
  have "next_payload_id (payload_builder (snd (run (\<lambda>q. example_reply) 0
      (handle_controller_fcu example_multiplexer ?q) ?s))) = 1"
    by code_simp
  then have id1: "issued (payload_builder s') (to_be_bytes 0)"
    using s' by (auto simp: issued_def intro!: exI [of _ 0])
  have dec: "case decode_client_fcu (serde example_multiplexer) (req_params ?q) of Inr (f, a) \<Rightarrow> True | _ \<Rightarrow> False"
    by code_simp
  then obtain f a where dec: "decode_client_fcu (serde example_multiplexer) (req_params ?q) = Inr (f, a)"
    by (auto split: sum.splits)
  have "lru_iter (payload_attributes (payload_builder ?s)) = []"
    by code_simp
  then have no: "no_v2_ids ?s"
    by (simp add: no_v2_ids_def lru_lookup_def)
  have wf: "mux_wf ?s"
    by code_simp
  have conv: "payload_conversions (lighthouse example_multiplexer)"
    by (simp add: example_multiplexer_def External.defs ref_external_def ref.payload_conversions_axioms)
  from v3_payload_ids_unknown_to_clients [OF example.mux_axioms conv wf no _ s' dec,
      of "\<lambda>q. example_reply" 0] id1 s'
  show ?thesis by (simp add: example_to_value) (simp add: fcu_request_def)
qed

end
