(* ===== verification/Task_Schedule.thy ===== *)
theory Task_Schedule
  imports Async_Task
begin

text \<open>
  Executable schedules for the concurrent system: a list of choices (which task is started, which one
  goes on, what the engine replies, how long a pause lasts) that is run step by step on the shared
  state and the pool of tasks. A schedule that can be run leads to a reachable state, so concrete
  interleavings are found by evaluation.
\<close>

datatype ('s, 'q, 'r, 'a) choice =
    Start "('s, 'q, 'r, 'a) task"
  | Section nat
  | Reply nat 'r
  | Wake nat nat

type_synonym ('s, 'q, 'r, 'a) pool = "'s \<times> ('s, 'q, 'r, 'a) task list"

fun take_choice :: "('s, 'q, 'r, 'a) choice \<Rightarrow> ('s, 'q, 'r, 'a) pool \<Rightarrow> ('s, 'q, 'r, 'a) pool option" where
  "take_choice (Start t) (s, ts) = Some (s, ts @ [t])"
| "take_choice (Section i) (s, ts) =
     (if i < length ts then
        (case ts ! i of Atomic u k \<Rightarrow> Some (u s, ts[i := k s]) | _ \<Rightarrow> None)
      else None)"
| "take_choice (Reply i r) (s, ts) =
     (if i < length ts then
        (case ts ! i of Await q k \<Rightarrow> Some (s, ts[i := k r]) | _ \<Rightarrow> None)
      else None)"
| "take_choice (Wake i d) (s, ts) =
     (if i < length ts then
        (case ts ! i of Sleep n k \<Rightarrow> Some (s, ts[i := k d]) | _ \<Rightarrow> None)
      else None)"

fun schedule :: "('s, 'q, 'r, 'a) choice list \<Rightarrow> ('s, 'q, 'r, 'a) pool \<Rightarrow> ('s, 'q, 'r, 'a) pool option" where
  "schedule [] c = Some c"
| "schedule (x # xs) c = Option.bind (take_choice x c) (schedule xs)"

text \<open>The tasks that a schedule starts.\<close>

fun started :: "('s, 'q, 'r, 'a) choice list \<Rightarrow> ('s, 'q, 'r, 'a) task set" where
  "started [] = {}"
| "started (Start t # xs) = insert t (started xs)"
| "started (x # xs) = started xs"

lemma take_choice_step:
  assumes "take_choice x (s, ts) = Some (s', ts')" and "started [x] \<subseteq> T"
  shows "\<exists>h'. sys_step T (h, s, ts) (h', s', ts')"
proof (cases x)
  case (Start t)
  with assms show ?thesis by (auto intro: sys_step.spawn)
next
  case (Section i)
  with assms show ?thesis by (auto split: if_splits task.splits intro: sys_step.atomic)
next
  case (Reply i r)
  with assms show ?thesis by (auto split: if_splits task.splits intro: sys_step.await)
next
  case (Wake i d)
  with assms show ?thesis by (auto split: if_splits task.splits intro: sys_step.sleep)
qed

lemma started_Cons: "started (x # xs) = started [x] \<union> started xs"
  by (cases x) simp_all

lemma schedule_steps:
  assumes "schedule xs (s, ts) = Some (s', ts')" and "started xs \<subseteq> T"
  shows "\<exists>h'. (sys_step T)\<^sup>*\<^sup>* (h, s, ts) (h', s', ts')"
  using assms
proof (induction xs arbitrary: h s ts)
  case (Cons x xs)
  then obtain s1 ts1 where "take_choice x (s, ts) = Some (s1, ts1)" "schedule xs (s1, ts1) = Some (s', ts')"
    by (auto simp: bind_eq_Some_conv)
  moreover have "started [x] \<subseteq> T" "started xs \<subseteq> T"
    using Cons.prems(2) started_Cons [of x xs] by blast+
  ultimately show ?case
    using take_choice_step [of x s ts s1 ts1 T h] Cons.IH by (meson converse_rtranclp_into_rtranclp)
qed auto

lemma reachable_steps: "(sys_step T)\<^sup>*\<^sup>* c c' \<Longrightarrow> reachable T s0 c \<Longrightarrow> reachable T s0 c'"
  by (induction rule: rtranclp_induct) (auto intro: reachable.step)

lemma schedule_reachable:
  assumes "schedule xs (s0, []) = Some (s, ts)" and "started xs \<subseteq> T"
  shows "\<exists>h. reachable T s0 (h, s, ts)"
proof -
  from schedule_steps [OF assms, of "{}"] obtain h where "(sys_step T)\<^sup>*\<^sup>* ({}, s0, []) (h, s, ts)" ..
  from reachable_steps [OF this reachable.start] show ?thesis ..
qed

end
