(* ===== verification/New_Payload.thy ===== *)
theory New_Payload
  imports Fcu Task_Schedule
begin

text \<open>
  The new-payload handlers of \<open>new_payload.rs\<close>: the decoding of the four versions of the method, the
  request for the engine, the lookup in the cache, the test whether a payload is recent, the
  controller's handler, which asks the engine and fills the cache, and the client's handler, which
  checks the block hash, waits for recent payloads and never asks the engine. \<open>None\<close> in place of an
  engine request is the panic of \<open>unwrap\<close> and \<open>todo!\<close>. \<open>timestamp_to_slot\<close> is with the builder.
  The properties specify the decoding by the versions of methods and forks, and the client's reply and
  waiting time by the states it finds while other tasks run.
\<close>

abbreviation ENGINE_NEW_PAYLOAD_V1 :: string where
  "ENGINE_NEW_PAYLOAD_V1 \<equiv> ''engine_newPayloadV1''"

abbreviation ENGINE_NEW_PAYLOAD_V2 :: string where
  "ENGINE_NEW_PAYLOAD_V2 \<equiv> ''engine_newPayloadV2''"

abbreviation ENGINE_NEW_PAYLOAD_V3 :: string where
  "ENGINE_NEW_PAYLOAD_V3 \<equiv> ''engine_newPayloadV3''"

abbreviation ENGINE_NEW_PAYLOAD_V4 :: string where
  "ENGINE_NEW_PAYLOAD_V4 \<equiv> ''engine_newPayloadV4''"


section \<open>Decoding\<close>

text \<open>The parameters after the payload: versioned hashes, parent beacon block root, requests.\<close>

definition decode_extra_params ::
  "Multiplexer \<Rightarrow> JsonValue \<Rightarrow> string \<Rightarrow> JsonValue list \<Rightarrow>
   ErrorResponse + VersionedHash list option \<times> Hash256 option \<times> ExecutionRequests option" where
  "decode_extra_params mx i method params =
     (if method = ENGINE_NEW_PAYLOAD_V4 then
        if length params \<noteq> 4 then
          Inl (parse_error_generic i ''wrong number of parameters for newPayloadV3'')
        else
          and_then (map_err (parse_error i) (decode_versioned_hashes (serde mx) (params ! 1))) (\<lambda>versioned_hashes.
          and_then (map_err (parse_error i) (decode_hash (serde mx) (params ! 2))) (\<lambda>parent_beacon_block_root.
          and_then (map_err (parse_error i) (decode_execution_requests (serde mx) (params ! 3))) (\<lambda>json_requests.
          and_then (map_err (\<lambda>e. parse_error_generic i (''invalid execution requests: '' @ e))
              (execution_requests_try_from (lighthouse mx) json_requests)) (\<lambda>execution_requests.
          Inr (Some versioned_hashes, Some parent_beacon_block_root, Some execution_requests)))))
      else if method = ENGINE_NEW_PAYLOAD_V3 then
        if length params \<noteq> 3 then
          Inl (parse_error_generic i ''wrong number of parameters for newPayloadV3'')
        else
          and_then (map_err (parse_error i) (decode_versioned_hashes (serde mx) (params ! 1))) (\<lambda>versioned_hashes.
          and_then (map_err (parse_error i) (decode_hash (serde mx) (params ! 2))) (\<lambda>parent_beacon_block_root.
          Inr (Some versioned_hashes, Some parent_beacon_block_root, None)))
      else if length params = 1 then Inr (None, None, None)
      else Inl (parse_error_generic i
        (''wrong number of parameters for '' @ method @ '': '' @ show_nat (length params))))"

definition decode_timestamp :: "Multiplexer \<Rightarrow> JsonValue \<Rightarrow> JsonValue \<Rightarrow> ErrorResponse + u64" where
  "decode_timestamp mx i payload_json =
     (case json_get (serde mx) payload_json ''timestamp'' of
        Some timestamp_json \<Rightarrow> map_err (parse_error i) (decode_quantity (serde mx) timestamp_json)
      | None \<Rightarrow> Inl (parse_error_generic i ''timestamp value missing''))"

text \<open>The version of the payload, by the method or the fork at its slot.\<close>

definition decode_payload ::
  "Multiplexer \<Rightarrow> string \<Rightarrow> ForkName \<Rightarrow> JsonValue \<Rightarrow> SerdeError + JsonExecutionPayload" where
  "decode_payload mx method fork_name payload_json =
     (if method = ENGINE_NEW_PAYLOAD_V1 \<or> fork_name = Fork_Bellatrix then
        and_then (decode_payload_v1 (serde mx) payload_json) (\<lambda>p. Inr (JsonPayloadV1 p))
      else if method = ENGINE_NEW_PAYLOAD_V2 \<or> fork_name = Fork_Capella then
        and_then (decode_payload_v2 (serde mx) payload_json) (\<lambda>p. Inr (JsonPayloadV2 p))
      else if method = ENGINE_NEW_PAYLOAD_V3 \<or> fork_name = Fork_Deneb then
        and_then (decode_payload_v3 (serde mx) payload_json) (\<lambda>p. Inr (JsonPayloadV3 p))
      else
        and_then (decode_payload_v4 (serde mx) payload_json) (\<lambda>p. Inr (JsonPayloadV4 p)))"

type_synonym decoded_payload =
  "JsonValue \<times> JsonExecutionPayload \<times> VersionedHash list option \<times> Hash256 option \<times> ExecutionRequests option"

definition decode_new_payload :: "Multiplexer \<Rightarrow> Request \<Rightarrow> ErrorResponse + decoded_payload" where
  "decode_new_payload mx request =
     (let method = req_method request in
      and_then (parse_as (decode_values (serde mx)) request) (\<lambda>(i, params).
      and_then (decode_extra_params mx i method params)
        (\<lambda>(versioned_hashes, parent_beacon_block_root, execution_requests).
      let payload_json = params ! 0 in
      and_then (decode_timestamp mx i payload_json) (\<lambda>timestamp.
      and_then (ok_or_else (timestamp_to_slot mx timestamp)
          (parse_error_generic i (''invalid timestamp: '' @ show_nat (unat timestamp)))) (\<lambda>slot.
      let fork_name = fork_name_at_slot (spec mx) slot in
      and_then (map_err (parse_error i) (decode_payload mx method fork_name payload_json)) (\<lambda>payload.
      Inr (i, payload, versioned_hashes, parent_beacon_block_root, execution_requests)))))))"

definition new_payload_request_from_parts ::
  "ExecutionPayload \<Rightarrow> VersionedHash list option \<Rightarrow> Hash256 option \<Rightarrow> ExecutionRequests option \<Rightarrow>
   NewPayloadRequest option" where
  "new_payload_request_from_parts execution_payload versioned_hashes parent_beacon_block_root execution_requests =
     (let hashes = (case versioned_hashes of None \<Rightarrow> [] | Some hs \<Rightarrow> hs);
          root = (case parent_beacon_block_root of None \<Rightarrow> 0 | Some r \<Rightarrow> r)
      in case execution_payload of
        Bellatrix p \<Rightarrow> Some (NewPayloadRequestBellatrix p)
      | Capella p \<Rightarrow> Some (NewPayloadRequestCapella p)
      | Deneb p \<Rightarrow> Some (NewPayloadRequestDeneb p hashes root)
      | Electra p \<Rightarrow> map_option (NewPayloadRequestElectra p hashes root) execution_requests
      | Fulu p \<Rightarrow> None)"


section \<open>Lookups\<close>

definition get_cached_payload_status ::
  "Multiplexer \<Rightarrow> ExecutionBlockHash \<Rightarrow> bool \<Rightarrow> MuxState \<Rightarrow> JsonPayloadStatusV1 option \<times> MuxState" where
  "get_cached_payload_status mx execution_block_hash definite_only s =
     (case lru_get (new_payload_ops (caches mx)) (new_payload_cache s) execution_block_hash of
        (existing, cache) \<Rightarrow>
          ((case existing of
              Some entry \<Rightarrow>
                if \<not> definite_only \<or> is_definite (npe_status entry) then Some (npe_status entry) else None
            | None \<Rightarrow> None),
           s\<lparr>new_payload_cache := cache\<rparr>))"

definition highest_cached_payload_number :: "MuxState \<Rightarrow> u64" where
  "highest_cached_payload_number s =
     (case map (\<lambda>(_, entry). npe_block_number entry) (lru_iter (new_payload_cache s)) of
        [] \<Rightarrow> 0
      | n # ns \<Rightarrow> fold max ns n)"

definition is_recent_payload :: "Multiplexer \<Rightarrow> u64 \<Rightarrow> bool handler" where
  "is_recent_payload mx block_number =
     bind_task (atomically (\<lambda>s. (highest_cached_payload_number s, s))) (\<lambda>highest.
     let cutoff = saturating_sub highest (new_payload_wait_cutoff (config mx)) in
     Done (cutoff \<le> block_number))"


section \<open>The controller\<close>

definition put_payload_status ::
  "Multiplexer \<Rightarrow> ExecutionBlockHash \<Rightarrow> NewPayloadCacheEntry \<Rightarrow> MuxState \<Rightarrow> unit \<times> MuxState" where
  "put_payload_status mx block_hash entry s =
     ((), s\<lparr>new_payload_cache := lru_put (new_payload_ops (caches mx)) (new_payload_cache s) block_hash entry\<rparr>)"

text \<open>What follows a successful reply of the engine.\<close>

definition store_payload_status ::
  "Multiplexer \<Rightarrow> ExecutionPayload \<Rightarrow> JsonPayloadStatusV1 \<Rightarrow> JsonPayloadStatusV1 handler" where
  "store_payload_status mx execution_payload json_status =
     bind_task (atomically (put_payload_status mx (payload_block_hash execution_payload)
         \<lparr>npe_status = json_status, npe_block_number = payload_block_number execution_payload\<rparr>)) (\<lambda>_.
     bind_task (register_canonical_payload mx execution_payload (ps_status json_status)) (\<lambda>_.
     Done json_status))"

definition controller_payload_status ::
  "Multiplexer \<Rightarrow> JsonValue \<Rightarrow> ExecutionPayload \<Rightarrow> NewPayloadRequest \<Rightarrow>
   (ErrorResponse + JsonPayloadStatusV1) handler" where
  "controller_payload_status mx i execution_payload new_payload_request =
     bind_task (atomically (get_cached_payload_status mx (payload_block_hash execution_payload) True)) (\<lambda>cached.
     case cached of
       Some status \<Rightarrow> Done (Inr status)
     | None \<Rightarrow>
         Await (NewPayload new_payload_request) (\<lambda>reply.
         case reply_new_payload reply of
           Inr json_status \<Rightarrow>
             bind_task (store_payload_status mx execution_payload json_status) (\<lambda>status. Done (Inr status))
         | Inl e \<Rightarrow> Done (Inl (invalid_request i ''payload verification failed: see eleel logs''))))"

definition handle_controller_new_payload :: "Multiplexer \<Rightarrow> Request \<Rightarrow> rpc_handler" where
  "handle_controller_new_payload mx request =
     try_task (decode_new_payload mx request)
       (\<lambda>(i, json_execution_payload, versioned_hashes, parent_beacon_block_root, execution_requests).
     let execution_payload = execution_payload_from (lighthouse mx) json_execution_payload in
     unwrap_task (new_payload_request_from_parts execution_payload versioned_hashes
         parent_beacon_block_root execution_requests) (\<lambda>new_payload_request.
     bind_task (controller_payload_status mx i execution_payload new_payload_request) (\<lambda>r.
     try_task r (\<lambda>status.
     Done (response_new (to_value (serde mx)) i (PayloadStatusResult status))))))"


section \<open>The client\<close>

function payload_wait_loop ::
  "Multiplexer \<Rightarrow> ExecutionBlockHash \<Rightarrow> nat \<Rightarrow> JsonPayloadStatusV1 option handler" where
  "payload_wait_loop mx block_hash elapsed =
     (if elapsed < new_payload_wait_millis (config mx) then
        bind_task (atomically (get_cached_payload_status mx block_hash True)) (\<lambda>cached.
        case cached of
          Some status \<Rightarrow> Done (Some status)
        | None \<Rightarrow> Sleep 50 (\<lambda>delay. payload_wait_loop mx block_hash (elapsed + 50 + delay)))
      else Done None)"
  by pat_completeness auto
termination
  by (relation "measure (\<lambda>(mx, block_hash, elapsed). new_payload_wait_millis (config mx) - elapsed)") auto

declare payload_wait_loop.simps [simp del]

text \<open>The wait for a recent payload.\<close>

definition await_recent_payload ::
  "Multiplexer \<Rightarrow> ExecutionBlockHash \<Rightarrow> u64 \<Rightarrow> JsonPayloadStatusV1 option handler" where
  "await_recent_payload mx block_hash block_number =
     bind_task (is_recent_payload mx block_number) (\<lambda>is_recent.
     if is_recent then Sleep 0 (\<lambda>elapsed. payload_wait_loop mx block_hash elapsed) else Done None)"

definition client_payload_status ::
  "Multiplexer \<Rightarrow> JsonValue \<Rightarrow> ExecutionPayload \<Rightarrow> NewPayloadRequest \<Rightarrow>
   (ErrorResponse + JsonPayloadStatusV1) handler" where
  "client_payload_status mx i execution_payload new_payload_request =
     (let block_hash = payload_block_hash execution_payload;
          block_number = payload_block_number execution_payload
      in case verify_payload_block_hash (lighthouse mx) new_payload_request of
        Inl e \<Rightarrow> Done (Inl (invalid_request i (''incorrect block hash '' @ debug_hash (lighthouse mx) block_hash)))
      | Inr _ \<Rightarrow>
          bind_task (await_recent_payload mx block_hash block_number) (\<lambda>definite.
          case definite of
            Some status \<Rightarrow> Done (Inr status)
          | None \<Rightarrow>
              bind_task (atomically (get_cached_payload_status mx block_hash False)) (\<lambda>cached.
              case cached of
                Some status \<Rightarrow> Done (Inr status)
              | None \<Rightarrow>
                  (case verify_versioned_hashes (lighthouse mx) new_payload_request of
                     Inl e \<Rightarrow> Done (Inl (invalid_request i ''incorrect versioned hashes''))
                   | Inr _ \<Rightarrow> Done (Inr synthetic_syncing)))))"

definition handle_new_payload :: "Multiplexer \<Rightarrow> Request \<Rightarrow> rpc_handler" where
  "handle_new_payload mx request =
     try_task (decode_new_payload mx request)
       (\<lambda>(i, json_execution_payload, versioned_hashes, parent_beacon_block_root, execution_requests).
     let execution_payload = execution_payload_from (lighthouse mx) json_execution_payload in
     unwrap_task (new_payload_request_from_parts execution_payload versioned_hashes
         parent_beacon_block_root execution_requests) (\<lambda>new_payload_request.
     bind_task (client_payload_status mx i execution_payload new_payload_request) (\<lambda>r.
     try_task r (\<lambda>status.
     Done (response_new (to_value (serde mx)) i (PayloadStatusResult status))))))"


section \<open>Decoded payloads\<close>

text \<open>The methods that are routed to the two handlers.\<close>

definition new_payload_methods :: "string list" where
  "new_payload_methods =
     [ENGINE_NEW_PAYLOAD_V1, ENGINE_NEW_PAYLOAD_V2, ENGINE_NEW_PAYLOAD_V3, ENGINE_NEW_PAYLOAD_V4]"

lemma decode_extra_params_error: "decode_extra_params mx i m ps = Inl e \<Longrightarrow> answers i (Inl e)"
  by (auto simp: decode_extra_params_def and_then_Inl_iff map_err_Inl_iff split: if_splits)

lemma decode_new_payload_error:
  assumes "decode_new_payload mx request = Inl e"
  shows "answers (req_id request) (Inl e)"
  using assms
  by (auto simp: decode_new_payload_def Let_def and_then_Inl_iff map_err_Inl_iff parse_as_Inl parse_as_Inr
      decode_timestamp_def split: option.splits) (metis decode_extra_params_error)+

lemma decode_new_payload_id:
  "decode_new_payload mx request = Inr (i, rest) \<Longrightarrow> i = req_id request"
  by (auto simp: decode_new_payload_def Let_def and_then_Inr_iff parse_as_Inr)

lemma decode_extra_params_requests:
  "decode_extra_params mx i ENGINE_NEW_PAYLOAD_V4 ps = Inr (vh, root, er) \<Longrightarrow> er \<noteq> None"
  by (auto simp: decode_extra_params_def and_then_Inr_iff split: if_splits)

lemma decode_payload_version:
  "decode_payload mx m fork v = Inr jp \<Longrightarrow>
     (\<forall>p. jp \<noteq> JsonPayloadV5 p) \<and>
     (\<forall>p. jp = JsonPayloadV4 p \<longrightarrow> m \<notin> {ENGINE_NEW_PAYLOAD_V1, ENGINE_NEW_PAYLOAD_V2, ENGINE_NEW_PAYLOAD_V3})"
  by (auto simp: decode_payload_def and_then_Inr_iff split: if_splits)

lemma decode_new_payload_version:
  assumes "decode_new_payload mx request = Inr (i, jp, vh, root, er)"
    and "req_method request \<in> set new_payload_methods"
  shows "jp \<noteq> JsonPayloadV5 p" and "jp = JsonPayloadV4 p \<Longrightarrow> er \<noteq> None"
proof -
  from assms(1) obtain params fork where
    extra: "decode_extra_params mx (req_id request) (req_method request) params = Inr (vh, root, er)"
    and jp: "decode_payload mx (req_method request) fork (params ! 0) = Inr jp"
    by (auto simp: decode_new_payload_def Let_def and_then_Inr_iff parse_as_Inr)
  from decode_payload_version [OF jp] show "jp \<noteq> JsonPayloadV5 p" by blast
  show "er \<noteq> None" if "jp = JsonPayloadV4 p"
    using decode_payload_version [OF jp] that assms(2) extra
    by (auto simp: new_payload_methods_def dest: decode_extra_params_requests)
qed

lemma request_payload_from_parts:
  "new_payload_request_from_parts p vh root er = Some q \<Longrightarrow> request_payload q = p"
  by (auto simp: new_payload_request_from_parts_def Let_def split: ExecutionPayload.splits)

text \<open>
  The interface to Lighthouse and the caches together: with it a decoded payload always gives a
  request, so the handlers do not panic.
\<close>

locale mux_engine = mux mx + payload_conversions "lighthouse mx" for mx :: Multiplexer

interpretation example: mux_engine example_multiplexer
  by (intro mux_engine.intro example.mux_axioms)
    (simp add: example_multiplexer_def External.defs ref_external_def ref.payload_conversions_axioms)

context mux_engine
begin

lemma decoded_request:
  assumes "decode_new_payload mx request = Inr (i, jp, vh, root, er)"
    and "req_method request \<in> set new_payload_methods"
  obtains q where "new_payload_request_from_parts (execution_payload_from (lighthouse mx) jp) vh root er = Some q"
    and "request_payload q = execution_payload_from (lighthouse mx) jp"
proof -
  have "\<exists>q. new_payload_request_from_parts (execution_payload_from (lighthouse mx) jp) vh root er = Some q"
    using decode_new_payload_version [OF assms]
    by (cases jp) (auto simp: new_payload_request_from_parts_def from_json)
  with that request_payload_from_parts show thesis by blast
qed

end


section \<open>Where a status comes from\<close>

text \<open>The engine gave this status to a payload with the same block hash.\<close>

definition payload_vouched :: "history \<Rightarrow> ExecutionPayload \<Rightarrow> JsonPayloadStatusV1 \<Rightarrow> bool" where
  "payload_vouched h p st \<longleftrightarrow> (\<exists>p'. payload_replied h p' st \<and> payload_block_hash p' = payload_block_hash p)"

lemma payload_vouched_mono: "payload_vouched h p st \<Longrightarrow> h \<subseteq> h' \<Longrightarrow> payload_vouched h' p st"
  unfolding payload_vouched_def using payload_replied_mono by blast

definition payload_reply_ok ::
  "Multiplexer \<Rightarrow> (ExecutionPayload \<Rightarrow> JsonPayloadStatusV1 \<Rightarrow> bool) \<Rightarrow> Request \<Rightarrow> ErrorResponse + Response \<Rightarrow> bool" where
  "payload_reply_ok mx P request x \<longleftrightarrow>
     answers (req_id request) x \<and>
     (\<forall>resp. x = Inr resp \<longrightarrow>
       (\<exists>jp extra st. decode_new_payload mx request = Inr (req_id request, jp, extra) \<and>
          to_value (serde mx) (PayloadStatusResult st) = Inr (resp_result resp) \<and>
          P (execution_payload_from (lighthouse mx) jp) st))"

text \<open>What a client's and the controller's reply have to satisfy; neither panics.\<close>

definition client_payload_post ::
  "Multiplexer \<Rightarrow> Request \<Rightarrow> history \<Rightarrow> (ErrorResponse + Response) option \<Rightarrow> bool" where
  "client_payload_post mx request h r \<longleftrightarrow>
     (\<exists>x. r = Some x \<and> payload_reply_ok mx (\<lambda>p st. st = synthetic_syncing \<or> payload_vouched h p st) request x)"

definition controller_payload_post ::
  "Multiplexer \<Rightarrow> Request \<Rightarrow> history \<Rightarrow> (ErrorResponse + Response) option \<Rightarrow> bool" where
  "controller_payload_post mx request h r \<longleftrightarrow>
     (\<exists>x. r = Some x \<and> payload_reply_ok mx (payload_vouched h) request x)"

lemma payload_reply_ok_mono:
  "payload_reply_ok mx P q x \<Longrightarrow> (\<And>p st. P p st \<Longrightarrow> P' p st) \<Longrightarrow> payload_reply_ok mx P' q x"
  unfolding payload_reply_ok_def by blast

lemma payload_reply_ok_response:
  assumes "decode_new_payload mx q = Inr (req_id q, jp, extra)" and "P (execution_payload_from (lighthouse mx) jp) st"
  shows "payload_reply_ok mx P q (response_new (to_value (serde mx)) (req_id q) (PayloadStatusResult st))"
  using assms by (auto simp: payload_reply_ok_def response_new_Inr simp del: split_paired_Ex)

lemma payload_reply_ok_error: "answers (req_id q) (Inl e) \<Longrightarrow> payload_reply_ok mx P q (Inl e)"
  by (simp add: payload_reply_ok_def)

lemma client_payload_post_mono:
  "client_payload_post mx q h r \<Longrightarrow> h \<subseteq> h' \<Longrightarrow> client_payload_post mx q h' r"
  by (auto simp: client_payload_post_def elim!: payload_reply_ok_mono intro: payload_vouched_mono)

lemma controller_payload_post_mono:
  "controller_payload_post mx q h r \<Longrightarrow> h \<subseteq> h' \<Longrightarrow> controller_payload_post mx q h' r"
  by (auto simp: controller_payload_post_def elim!: payload_reply_ok_mono intro: payload_vouched_mono)

context mux
begin

lemma np_get:
  assumes "lru_wf c"
  shows "\<exists>c'. lru_get (new_payload_ops (caches mx)) c k = (lru_lookup c k, c') \<and>
    lru_wf c' \<and> lru_lookup c' = lru_lookup c"
  using np.get_pair [OF assms] by (metis surj_pair)

lemma get_cached_payload_status_same:
  assumes "mux_wf s"
  shows "same_state s (snd (get_cached_payload_status mx b definite_only s)) \<and>
    mux_wf (snd (get_cached_payload_status mx b definite_only s))"
  using np_get [OF mux_wfD(2) [OF assms], of b] assms
  by (auto simp: get_cached_payload_status_def same_state_def mux_wf_def)

lemma get_cached_payload_status_value:
  assumes "mux_wf s"
  shows "fst (get_cached_payload_status mx b definite_only s) =
    (case lru_lookup (new_payload_cache s) b of
       Some e \<Rightarrow> if \<not> definite_only \<or> is_definite (npe_status e) then Some (npe_status e) else None
     | None \<Rightarrow> None)"
  using np_get [OF mux_wfD(2) [OF assms], of b] by (auto simp: get_cached_payload_status_def)

lemma get_cached_payload_status_vouched:
  assumes "mux_inv h s" and "fst (get_cached_payload_status mx (payload_block_hash p) definite_only s) = Some st"
  shows "payload_vouched h p st"
proof -
  from get_cached_payload_status_value [OF mux_inv_wf [OF assms(1)], of "payload_block_hash p" definite_only]
    assms(2)
  obtain e where "lru_lookup (new_payload_cache s) (payload_block_hash p) = Some e" "npe_status e = st"
    by (auto split: option.splits if_splits)
  with assms(1) show ?thesis
    unfolding mux_inv_def payload_inv_def payload_vouched_def by metis
qed

lemma safe_get_cached_payload_status:
  "safe mux_inv same_state
     (\<lambda>h r. \<exists>x. r = Some x \<and> (\<forall>st. x = Some st \<longrightarrow> payload_vouched h p st))
     (atomically (get_cached_payload_status mx (payload_block_hash p) definite_only)) h"
proof (rule safe_atomically, intro conjI)
  fix h' s assume inv: "mux_inv h' s"
  show "mux_inv h' (snd (get_cached_payload_status mx (payload_block_hash p) definite_only s))"
    and "same_state s (snd (get_cached_payload_status mx (payload_block_hash p) definite_only s))"
    using mux_inv_reading [OF inv get_cached_payload_status_same] by blast+
  show "\<exists>x. Some (fst (get_cached_payload_status mx (payload_block_hash p) definite_only s)) = Some x \<and>
      (\<forall>st. x = Some st \<longrightarrow> payload_vouched h' p st)"
    using get_cached_payload_status_vouched [OF inv] by blast
qed

lemma safe_payload_wait_loop:
  "safe mux_inv same_state
     (\<lambda>h r. \<exists>x. r = Some x \<and> (\<forall>st. x = Some st \<longrightarrow> payload_vouched h p st))
     (payload_wait_loop mx (payload_block_hash p) elapsed) h"
proof (induction "new_payload_wait_millis (config mx) - elapsed" arbitrary: elapsed h rule: less_induct)
  case less
  show ?case
  proof (cases "elapsed < new_payload_wait_millis (config mx)")
    case True
    have rest: "safe mux_inv same_state
        (\<lambda>h r. \<exists>x. r = Some x \<and> (\<forall>st. x = Some st \<longrightarrow> payload_vouched h p st))
        (Sleep 50 (\<lambda>delay. payload_wait_loop mx (payload_block_hash p) (elapsed + 50 + delay))) h'" for h'
      using True by (intro safe_Sleep less.hyps) auto
    show ?thesis
      unfolding payload_wait_loop.simps [of mx "payload_block_hash p" elapsed] if_P [OF True]
      by (rule safe_bind_task [OF safe_get_cached_payload_status])
        (use rest in \<open>auto split: option.split\<close>)
  next
    case False
    then show ?thesis by (simp add: payload_wait_loop.simps)
  qed
qed

lemma safe_await_recent_payload:
  "safe mux_inv same_state
     (\<lambda>h r. \<exists>x. r = Some x \<and> (\<forall>st. x = Some st \<longrightarrow> payload_vouched h p st))
     (await_recent_payload mx (payload_block_hash p) n) h"
proof -
  have "safe mux_inv same_state (\<lambda>h r. r \<noteq> None) (is_recent_payload mx n) h"
    unfolding is_recent_payload_def Let_def by (rule safe_bind_atomically) simp
  then show ?thesis
    unfolding await_recent_payload_def
    by (rule safe_bind_task) (use safe_payload_wait_loop in \<open>auto intro!: safe_Sleep\<close>)
qed

lemma safe_client_payload_status:
  "safe mux_inv same_state
     (\<lambda>h r. \<exists>x. r = Some x \<and> (case x of
        Inl e \<Rightarrow> answers i (Inl e)
      | Inr st \<Rightarrow> st = synthetic_syncing \<or> payload_vouched h p st))
     (client_payload_status mx i p q) h"
proof -
  let ?Q = "\<lambda>h r. \<exists>x. r = Some x \<and> (case x of Inl e \<Rightarrow> answers i (Inl e)
      | Inr st \<Rightarrow> st = synthetic_syncing \<or> payload_vouched h p st)"
  have again: "safe mux_inv same_state ?Q
      (bind_task (atomically (get_cached_payload_status mx (payload_block_hash p) False)) (\<lambda>cached.
              case cached of
                Some status \<Rightarrow> Done (Inr status)
              | None \<Rightarrow>
                  (case verify_versioned_hashes (lighthouse mx) q of
                     Inl e \<Rightarrow> Done (Inl (invalid_request i ''incorrect versioned hashes''))
                   | Inr _ \<Rightarrow> Done (Inr synthetic_syncing)))) h'" for h'
    by (rule safe_bind_task [OF safe_get_cached_payload_status]) (auto split: option.split sum.split)
  show ?thesis
  proof (cases "verify_payload_block_hash (lighthouse mx) q")
    case (Inl e)
    then show ?thesis by (simp add: client_payload_status_def)
  next
    case (Inr u)
    show ?thesis
      unfolding client_payload_status_def Let_def Inr sum.case
    proof (rule safe_bind_task [OF safe_await_recent_payload], goal_cases)
      case (1 h' definite)
      then show ?case
      proof (cases definite)
        case None
        show ?thesis unfolding None option.case by (rule again)
      qed simp
    qed simp
  qed
qed

lemma put_payload_status_inv:
  assumes inv: "mux_inv h s" and replied: "payload_replied h p st"
  shows "mux_inv h (snd (put_payload_status mx (payload_block_hash p)
    \<lparr>npe_status = st, npe_block_number = payload_block_number p\<rparr> s))"
proof -
  let ?e = "\<lparr>npe_status = st, npe_block_number = payload_block_number p\<rparr>"
  let ?c = "lru_put (new_payload_ops (caches mx)) (new_payload_cache s) (payload_block_hash p) ?e"
  from inv have wf: "lru_wf (new_payload_cache s)" by (simp add: mux_inv_def mux_wf_def)
  have "\<exists>p. payload_replied h p (npe_status e) \<and> payload_block_hash p = b \<and> payload_block_number p = npe_block_number e"
    if "lru_lookup ?c b = Some e" for b e
    using forgetful_updD [OF np.put_forgetful [OF wf] that]
  proof (elim disjE conjE)
    assume "b = payload_block_hash p" "e = ?e"
    with replied show ?thesis by auto
  qed (use inv in \<open>auto simp: mux_inv_def payload_inv_def\<close>)
  with inv np.put_wf [OF wf] show ?thesis
    by (simp add: put_payload_status_def mux_inv_def fcu_inv_def payload_inv_def mux_wf_def)
qed

lemma safe_store_payload_status:
  assumes replied: "payload_replied h p st"
  shows "safe mux_inv fcu_stable (\<lambda>h' r. r = Some st \<and> payload_replied h' p st) (store_payload_status mx p st) h"
  unfolding store_payload_status_def
proof (rule safe_bind_atomically, intro conjI)
  fix h' s assume h': "h \<subseteq> h'" and inv: "mux_inv h' s"
  let ?u = "put_payload_status mx (payload_block_hash p)
    \<lparr>npe_status = st, npe_block_number = payload_block_number p\<rparr> s"
  note replied' = payload_replied_mono [OF replied h']
  show "mux_inv h' (snd ?u)" by (rule put_payload_status_inv [OF inv replied'])
  show "fcu_stable s (snd ?u)" by (simp add: put_payload_status_def)
  have "safe mux_inv fcu_stable (\<lambda>h r. r \<noteq> None) (register_canonical_payload mx p (ps_status st)) h'"
    by (rule safe_register_canonical_payload [OF replied']) simp
  then show "safe mux_inv fcu_stable (\<lambda>h' r. r = Some st \<and> payload_replied h' p st)
      (bind_task (register_canonical_payload mx p (ps_status st)) (\<lambda>_. Done st)) h'"
    by (rule safe_bind_task) (auto intro: payload_replied_mono [OF replied'])
qed

lemma safe_controller_payload_status:
  assumes "request_payload q = p"
  shows "safe mux_inv fcu_stable
     (\<lambda>h r. \<exists>x. r = Some x \<and> (case x of
        Inl e \<Rightarrow> answers i (Inl e)
      | Inr st \<Rightarrow> payload_vouched h p st))
     (controller_payload_status mx i p q) h"
proof -
  let ?Q = "\<lambda>h r. \<exists>x. r = Some x \<and> (case x of Inl e \<Rightarrow> answers i (Inl e) | Inr st \<Rightarrow> payload_vouched h p st)"
  have ask: "safe mux_inv fcu_stable ?Q
      (Await (NewPayload q) (\<lambda>reply.
         case reply_new_payload reply of
           Inr json_status \<Rightarrow> bind_task (store_payload_status mx p json_status) (\<lambda>status. Done (Inr status))
         | Inl e \<Rightarrow> Done (Inl (invalid_request i ''payload verification failed: see eleel logs'')))) h'" for h'
  proof (rule safe_Await)
    fix h'' :: history and r :: EngineReply
    assume r: "(NewPayload q, r) \<in> h''"
    show "safe mux_inv fcu_stable ?Q (case reply_new_payload r of
           Inr json_status \<Rightarrow> bind_task (store_payload_status mx p json_status) (\<lambda>status. Done (Inr status))
         | Inl e \<Rightarrow> Done (Inl (invalid_request i ''payload verification failed: see eleel logs''))) h''"
    proof (cases "reply_new_payload r")
      case (Inr st)
      with r assms have "payload_replied h'' p st" by (auto simp: payload_replied_def)
      from safe_store_payload_status [OF this] show ?thesis
        unfolding Inr sum.case by (rule safe_bind_task) (auto simp: payload_vouched_def)
    qed simp
  qed
  have get: "safe mux_inv fcu_stable
      (\<lambda>h r. \<exists>x. r = Some x \<and> (\<forall>st. x = Some st \<longrightarrow> payload_vouched h p st))
      (atomically (get_cached_payload_status mx (payload_block_hash p) True)) h"
    by (rule safe_weaken [OF safe_get_cached_payload_status _ same_state_fcu_stable])
  show ?thesis
    unfolding controller_payload_status_def
  proof (rule safe_bind_task [OF get], goal_cases)
    case (1 h' cached)
    then show ?case
    proof (cases cached)
      case None
      show ?thesis unfolding None option.case by (rule ask)
    qed simp
  qed auto
qed

end

context mux_engine
begin

lemma safe_handle_new_payload:
  assumes m: "req_method request \<in> set new_payload_methods"
  shows "safe mux_inv same_state (client_payload_post mx request) (handle_new_payload mx request) h"
proof (cases "decode_new_payload mx request")
  case (Inl e)
  then show ?thesis
    by (simp add: handle_new_payload_def try_task_def client_payload_post_def payload_reply_ok_error
        decode_new_payload_error)
next
  case (Inr d)
  obtain jp vh root er where "d = (req_id request, jp, vh, root, er)"
    using decode_new_payload_id [of mx request] Inr by (cases d) auto
  note dec = Inr [unfolded this]
  let ?p = "execution_payload_from (lighthouse mx) jp"
  from decoded_request [OF dec m] obtain q where
    q: "new_payload_request_from_parts ?p vh root er = Some q" by blast
  show ?thesis
    unfolding handle_new_payload_def dec try_task_def [of "Inr _"] sum.case prod.case Let_def q unwrap_task_def
      option.case
  proof (rule safe_bind_task [OF safe_client_payload_status], goal_cases)
    case (1 h' r)
    then show ?case
      by (cases r) (auto simp: try_task_def client_payload_post_def payload_reply_ok_error
          intro!: payload_reply_ok_response [OF dec])
  qed (simp add: client_payload_post_def)
qed

lemma safe_handle_controller_new_payload:
  assumes m: "req_method request \<in> set new_payload_methods"
  shows "safe mux_inv fcu_stable (controller_payload_post mx request) (handle_controller_new_payload mx request) h"
proof (cases "decode_new_payload mx request")
  case (Inl e)
  then show ?thesis
    by (simp add: handle_controller_new_payload_def try_task_def controller_payload_post_def
        payload_reply_ok_error decode_new_payload_error)
next
  case (Inr d)
  obtain jp vh root er where "d = (req_id request, jp, vh, root, er)"
    using decode_new_payload_id [of mx request] Inr by (cases d) auto
  note dec = Inr [unfolded this]
  let ?p = "execution_payload_from (lighthouse mx) jp"
  from decoded_request [OF dec m] obtain q where
    q: "new_payload_request_from_parts ?p vh root er = Some q" "request_payload q = ?p" by blast
  show ?thesis
    unfolding handle_controller_new_payload_def dec try_task_def [of "Inr _"] sum.case prod.case Let_def q(1)
      unwrap_task_def option.case
  proof (rule safe_bind_task [OF safe_controller_payload_status [OF q(2)]], goal_cases)
    case (1 h' r)
    then show ?case
      by (cases r) (auto simp: try_task_def controller_payload_post_def payload_reply_ok_error
          intro!: payload_reply_ok_response [OF dec])
  qed (simp add: controller_payload_post_def)
qed

end


section \<open>Polling\<close>

lemma only_awaits_payload_wait_loop: "only_awaits P (payload_wait_loop mx b elapsed)"
proof (induction mx b elapsed rule: payload_wait_loop.induct)
  case (1 mx b elapsed)
  then show ?case
    by (subst payload_wait_loop.simps) (auto intro!: only_awaits_bind_task split: option.split)
qed

lemma only_awaits_handle_new_payload: "only_awaits P (handle_new_payload mx request)"
  by (auto simp: handle_new_payload_def client_payload_status_def await_recent_payload_def
      is_recent_payload_def Let_def
      intro!: only_awaits_try_task only_awaits_unwrap_task only_awaits_bind_task only_awaits_payload_wait_loop
      split: option.split sum.split)

lemma sleeps_payload_wait_loop:
  "sleeps_at_most (payload_wait_loop mx b elapsed) (poll_rounds (new_payload_wait_millis (config mx) - elapsed))"
proof (induction mx b elapsed rule: payload_wait_loop.induct)
  case (1 mx b elapsed)
  let ?w = "new_payload_wait_millis (config mx)"
  show ?case
  proof (cases "elapsed < ?w")
    case True
    have "sleeps_at_most (payload_wait_loop mx b (elapsed + 50 + delay)) (poll_rounds (?w - elapsed) - 1)" for delay
      using sleeps_at_most_mono [OF 1 [OF True] poll_rounds_step(2) [OF True]] .
    then have rest: "sleeps_at_most (Sleep 50 (\<lambda>delay. payload_wait_loop mx b (elapsed + 50 + delay)))
        (poll_rounds (?w - elapsed))"
      using poll_rounds_step(1) [OF True] by simp
    show ?thesis
      unfolding payload_wait_loop.simps [of mx b elapsed] if_P [OF True]
      by (rule sleeps_bind_poll) (use rest in \<open>auto simp: atomically_def split: option.split\<close>)
  qed (simp add: payload_wait_loop.simps)
qed

lemma sleeps_handle_new_payload:
  "sleeps_at_most (handle_new_payload mx request) (poll_rounds (new_payload_wait_millis (config mx)))"
proof -
  have "sleeps_at_most (payload_wait_loop mx b elapsed) (poll_rounds (new_payload_wait_millis (config mx)))"
    for b elapsed
    by (rule sleeps_at_most_mono [OF sleeps_payload_wait_loop]) (simp add: poll_rounds_def div_le_mono)
  then have "sleeps_at_most (await_recent_payload mx b n) (poll_rounds (new_payload_wait_millis (config mx)))" for b n
    by (auto simp: await_recent_payload_def is_recent_payload_def Let_def)
  then have "sleeps_at_most (client_payload_status mx i p q) (poll_rounds (new_payload_wait_millis (config mx)))" for i p q
    by (auto simp: client_payload_status_def Let_def intro!: sleeps_at_most_bind_task split: option.split sum.split)
  then show ?thesis
    by (auto simp: handle_new_payload_def try_task_def unwrap_task_def Let_def
        intro!: sleeps_at_most_bind_task split: option.split sum.split)
qed


section \<open>One handler after another\<close>

definition cached_payload_status :: "ExecutionBlockHash \<Rightarrow> bool \<Rightarrow> MuxState \<Rightarrow> JsonPayloadStatusV1 option" where
  "cached_payload_status b definite_only s =
     (case lru_lookup (new_payload_cache s) b of
        Some e \<Rightarrow> if \<not> definite_only \<or> is_definite (npe_status e) then Some (npe_status e) else None
      | None \<Rightarrow> None)"

lemma cached_payload_status_same: "same_state s s' \<Longrightarrow> cached_payload_status b x s' = cached_payload_status b x s"
  by (simp add: cached_payload_status_def same_state_def)

lemma cached_payload_status_definite:
  "cached_payload_status b True s = Some st \<Longrightarrow> cached_payload_status b False s = Some st"
  by (auto simp: cached_payload_status_def split: option.splits if_splits)

text \<open>
  The wait as a specification, for a client that finds the states \<open>\<sigma>\<close> and whose pauses are \<open>\<delta>\<close> longer
  than asked for: the milliseconds since the start when round \<open>k\<close> begins, and whether that round is
  followed by another one. Then the test of the block number, without machine arithmetic, and what the
  last lookup makes of the state it finds.
\<close>

primrec waited :: "(nat \<Rightarrow> nat) \<Rightarrow> nat \<Rightarrow> nat" where
  "waited \<delta> 0 = \<delta> 0"
| "waited \<delta> (Suc k) = waited \<delta> k + 50 + \<delta> (Suc k)"

definition keeps_polling ::
  "Multiplexer \<Rightarrow> ExecutionBlockHash \<Rightarrow> (nat \<Rightarrow> MuxState) \<Rightarrow> (nat \<Rightarrow> nat) \<Rightarrow> nat \<Rightarrow> bool" where
  "keeps_polling mx b \<sigma> \<delta> k \<longleftrightarrow>
     waited \<delta> k < new_payload_wait_millis (config mx) \<and> cached_payload_status b True (\<sigma> (Suc k)) = None"

definition is_recent_in :: "Multiplexer \<Rightarrow> u64 \<Rightarrow> MuxState \<Rightarrow> bool" where
  "is_recent_in mx n s \<longleftrightarrow>
     (\<forall>(b, e) \<in> set (lru_iter (new_payload_cache s)).
        unat (npe_block_number e) \<le> unat n + unat (new_payload_wait_cutoff (config mx)))"

lemma fold_max_Max: "fold max ns (n :: 'a::linorder) = Max (set (n # ns))"
proof (induction ns arbitrary: n)
  case (Cons m ns)
  then show ?case by (cases "ns = []") (simp_all add: max.commute max.left_commute)
qed simp

lemma highest_cached_payload_number_Max:
  "highest_cached_payload_number s = (if lru_iter (new_payload_cache s) = [] then 0
    else Max ((npe_block_number \<circ> snd) ` set (lru_iter (new_payload_cache s))))"
proof (cases "lru_iter (new_payload_cache s)")
  case (Cons e es)
  have "set (map (\<lambda>(_, entry). npe_block_number entry) es) = (npe_block_number \<circ> snd) ` set es"
    by (simp add: comp_def case_prod_beta)
  with Cons show ?thesis
    by (cases e) (simp add: highest_cached_payload_number_def fold_max_Max)
qed (simp add: highest_cached_payload_number_def)

lemma is_recent_in_highest:
  "is_recent_in mx n s \<longleftrightarrow>
     unat (highest_cached_payload_number s) \<le> unat n + unat (new_payload_wait_cutoff (config mx))"
proof (cases "lru_iter (new_payload_cache s)")
  case (Cons e es)
  let ?ns = "(npe_block_number \<circ> snd) ` set (lru_iter (new_payload_cache s))"
  have "Max ?ns \<in> ?ns" by (rule Max_in) (simp_all add: Cons)
  moreover have "unat m \<le> unat (Max ?ns)" if "m \<in> ?ns" for m
    using that by (simp add: word_le_nat_alt [symmetric])
  ultimately have "unat (Max ?ns) \<le> x \<longleftrightarrow> (\<forall>m\<in>?ns. unat m \<le> x)" for x
    using le_trans by blast
  moreover have "highest_cached_payload_number s = Max ?ns"
    by (simp add: highest_cached_payload_number_Max Cons)
  ultimately show ?thesis
    by (simp add: is_recent_in_def case_prod_beta)
qed (simp add: highest_cached_payload_number_def is_recent_in_def)

definition status_from ::
  "Multiplexer \<Rightarrow> JsonValue \<Rightarrow> ExecutionPayload \<Rightarrow> NewPayloadRequest \<Rightarrow> MuxState \<Rightarrow>
   ErrorResponse + JsonPayloadStatusV1" where
  "status_from mx i p q s =
     (case cached_payload_status (payload_block_hash p) False s of
        Some st \<Rightarrow> Inr st
      | None \<Rightarrow>
          if verify_versioned_hashes (lighthouse mx) q = Inr () then Inr synthetic_syncing
          else Inl (invalid_request i ''incorrect versioned hashes''))"

context mux
begin

lemma run_get_cached_payload_status:
  assumes "mux_wf s"
  shows "\<exists>s'. get_cached_payload_status mx b x s = (cached_payload_status b x s, s') \<and> mux_wf s' \<and> same_state s s'"
  using get_cached_payload_status_same [OF assms, of b x] get_cached_payload_status_value [OF assms, of b x]
  by (cases "get_cached_payload_status mx b x s") (simp add: cached_payload_status_def)

lemma run_payload_wait_loop:
  assumes "mux_wf s"
  shows "\<exists>r s'. run ans d (payload_wait_loop mx b elapsed) s = (Some r, s') \<and> mux_wf s' \<and> same_state s s' \<and>
    (r = None \<or> r = cached_payload_status b True s)"
  using assms
proof (induction "new_payload_wait_millis (config mx) - elapsed" arbitrary: elapsed s rule: less_induct)
  case less
  show ?case
  proof (cases "elapsed < new_payload_wait_millis (config mx)")
    case True
    from run_get_cached_payload_status [OF less.prems, of b True] obtain s1 where
      s1: "get_cached_payload_status mx b True s = (cached_payload_status b True s, s1)"
        "mux_wf s1" "same_state s s1" by blast
    have "new_payload_wait_millis (config mx) - (elapsed + 50 + d) < new_payload_wait_millis (config mx) - elapsed"
      using True by simp
    from less.hyps [OF this s1(2)] obtain r s2 where
      s2: "run ans d (payload_wait_loop mx b (elapsed + 50 + d)) s1 = (Some r, s2)" "mux_wf s2" "same_state s1 s2"
        "r = None \<or> r = cached_payload_status b True s1" by blast
    show ?thesis
      using s1 s2 cached_payload_status_same [OF s1(3)] same_state_trans [OF s1(3) s2(3)]
      by (subst payload_wait_loop.simps) (auto simp: True split: option.split)
  next
    case False
    with less.prems show ?thesis by (simp add: payload_wait_loop.simps)
  qed
qed

text \<open>The client's status, alone: the cached one if there is any.\<close>

lemma run_client_payload_status:
  assumes "mux_wf s"
  shows "\<exists>s'. run ans d (client_payload_status mx i p q) s = (Some
      (case verify_payload_block_hash (lighthouse mx) q of
         Inl e \<Rightarrow> Inl (invalid_request i (''incorrect block hash '' @ debug_hash (lighthouse mx) (payload_block_hash p)))
       | Inr _ \<Rightarrow> (case cached_payload_status (payload_block_hash p) False s of
           Some st \<Rightarrow> Inr st
         | None \<Rightarrow> (case verify_versioned_hashes (lighthouse mx) q of
             Inl e \<Rightarrow> Inl (invalid_request i ''incorrect versioned hashes'')
           | Inr _ \<Rightarrow> Inr synthetic_syncing))), s') \<and> mux_wf s' \<and> same_state s s'"
proof (cases "verify_payload_block_hash (lighthouse mx) q")
  case (Inl e)
  with assms show ?thesis by (simp add: client_payload_status_def)
next
  case (Inr u)
  let ?b = "payload_block_hash p"
  have "\<exists>r s'. run ans d (await_recent_payload mx ?b (payload_block_number p)) s = (Some r, s') \<and> mux_wf s' \<and>
      same_state s s' \<and> (r = None \<or> r = cached_payload_status ?b True s)"
    using run_payload_wait_loop [OF assms, of ans d ?b d] assms
    by (auto simp: await_recent_payload_def is_recent_payload_def Let_def)
  then obtain r s1 where
    s1: "run ans d (await_recent_payload mx ?b (payload_block_number p)) s = (Some r, s1)" "mux_wf s1" "same_state s s1"
      and r: "r = None \<or> r = cached_payload_status ?b True s" by blast
  from run_get_cached_payload_status [OF s1(2), of ?b False] obtain s2 where
    s2: "get_cached_payload_status mx ?b False s1 = (cached_payload_status ?b False s1, s2)" "mux_wf s2"
      "same_state s1 s2" by blast
  have "cached_payload_status ?b False s = Some st" if "r = Some st" for st
    using r that cached_payload_status_definite [of ?b s st] by simp
  with Inr s1 s2 same_state_trans [OF s1(3) s2(3)] cached_payload_status_same [OF s1(3)] show ?thesis
    by (auto simp: client_payload_status_def Let_def run_bind_task split: option.splits sum.splits)
qed

lemma observe_get_cached_payload_status:
  assumes "\<forall>l. mux_wf (\<sigma> l)"
  shows "observe \<sigma> \<delta> ans (atomically (get_cached_payload_status mx b x)) l j time =
    (Some (cached_payload_status b x (\<sigma> l)), Suc l, j, time)"
  using run_get_cached_payload_status [OF assms [rule_format], of b x l] by auto

lemma observe_payload_wait_loop:
  assumes wf: "\<forall>l. mux_wf (\<sigma> l)"
  shows "\<exists>n\<ge>k. (\<forall>l. k \<le> l \<and> l < n \<longrightarrow> keeps_polling mx b \<sigma> \<delta> l) \<and> \<not> keeps_polling mx b \<sigma> \<delta> n \<and>
    observe \<sigma> \<delta> ans (payload_wait_loop mx b (waited \<delta> k)) (Suc k) (Suc k) (waited \<delta> k) =
      (if waited \<delta> n < new_payload_wait_millis (config mx)
       then (Some (cached_payload_status b True (\<sigma> (Suc n))), Suc (Suc n), Suc n, waited \<delta> n)
       else (Some None, Suc n, Suc n, waited \<delta> n))"
proof (induction "new_payload_wait_millis (config mx) - waited \<delta> k" arbitrary: k rule: less_induct)
  case less
  let ?w = "new_payload_wait_millis (config mx)"
  note loop = payload_wait_loop.simps [of mx b "waited \<delta> k"] observe_bind_task
    observe_get_cached_payload_status [OF wf, where b = b and x = True]
  show ?case
  proof (cases "keeps_polling mx b \<sigma> \<delta> k")
    case True
    then have "?w - waited \<delta> (Suc k) < ?w - waited \<delta> k" by (auto simp: keeps_polling_def)
    from less.hyps [OF this] obtain n where n: "n \<ge> Suc k"
      "\<forall>l. Suc k \<le> l \<and> l < n \<longrightarrow> keeps_polling mx b \<sigma> \<delta> l" "\<not> keeps_polling mx b \<sigma> \<delta> n"
      "observe \<sigma> \<delta> ans (payload_wait_loop mx b (waited \<delta> (Suc k))) (Suc (Suc k)) (Suc (Suc k)) (waited \<delta> (Suc k)) =
        (if waited \<delta> n < ?w
         then (Some (cached_payload_status b True (\<sigma> (Suc n))), Suc (Suc n), Suc n, waited \<delta> n)
         else (Some None, Suc n, Suc n, waited \<delta> n))" by blast
    have "observe \<sigma> \<delta> ans (payload_wait_loop mx b (waited \<delta> k)) (Suc k) (Suc k) (waited \<delta> k) =
        observe \<sigma> \<delta> ans (payload_wait_loop mx b (waited \<delta> (Suc k))) (Suc (Suc k)) (Suc (Suc k)) (waited \<delta> (Suc k))"
      using True unfolding loop(1) by (simp add: keeps_polling_def loop(2,3) del: bind_atomically observe_atomically)
    moreover have "\<forall>l. k \<le> l \<and> l < n \<longrightarrow> keeps_polling mx b \<sigma> \<delta> l"
      using n(2) True by (metis Suc_leI le_neq_implies_less)
    ultimately show ?thesis using n by (intro exI [of _ n]) simp
  next
    case False
    then show ?thesis
      unfolding loop(1) by (intro exI [of _ k])
        (auto simp: keeps_polling_def loop(2,3) simp del: bind_atomically observe_atomically split: option.split)
  qed
qed

text \<open>
  The client's status under interference: the test of the block number in the first section, the
  rounds of the wait, and the last lookup.
\<close>

lemma observe_await_recent_payload:
  assumes wf: "\<forall>l. mux_wf (\<sigma> l)"
  shows "if is_recent_in mx b_number (\<sigma> 0)
    then \<exists>n. (\<forall>l<n. keeps_polling mx b \<sigma> \<delta> l) \<and> \<not> keeps_polling mx b \<sigma> \<delta> n \<and>
      observe \<sigma> \<delta> ans (await_recent_payload mx b b_number) 0 0 0 =
        (if waited \<delta> n < new_payload_wait_millis (config mx)
         then (Some (cached_payload_status b True (\<sigma> (Suc n))), Suc (Suc n), Suc n, waited \<delta> n)
         else (Some None, Suc n, Suc n, waited \<delta> n))
    else observe \<sigma> \<delta> ans (await_recent_payload mx b b_number) 0 0 0 = (Some None, 1, 0, 0)"
proof -
  have recent: "saturating_sub (highest_cached_payload_number s) (new_payload_wait_cutoff (config mx)) \<le> b_number \<longleftrightarrow>
      is_recent_in mx b_number s" for s
    by (auto simp: is_recent_in_highest word_le_nat_alt word_nat)
  have "waited \<delta> 0 = \<delta> 0" by simp
  with observe_payload_wait_loop [OF wf, of 0 b \<delta> ans] show ?thesis
    by (simp add: await_recent_payload_def is_recent_payload_def recent)
qed

lemma observe_client_payload_status:
  fixes p :: ExecutionPayload
  assumes wf: "\<forall>l. mux_wf (\<sigma> l)" and ok: "verify_payload_block_hash (lighthouse mx) q = Inr ()"
  defines "b \<equiv> payload_block_hash p"
  shows "if is_recent_in mx (payload_block_number p) (\<sigma> 0)
    then \<exists>n. (\<forall>l<n. keeps_polling mx b \<sigma> \<delta> l) \<and> \<not> keeps_polling mx b \<sigma> \<delta> n \<and>
      observe \<sigma> \<delta> ans (client_payload_status mx i p q) 0 0 0 =
        (Some (status_from mx i p q (\<sigma> (Suc n))), Suc (Suc n), Suc n, waited \<delta> n)
    else observe \<sigma> \<delta> ans (client_payload_status mx i p q) 0 0 0 = (Some (status_from mx i p q (\<sigma> 1)), 2, 0, 0)"
proof -
  define fallback :: "(ErrorResponse + JsonPayloadStatusV1) handler" where "fallback =
    bind_task (atomically (get_cached_payload_status mx b False)) (\<lambda>cached.
              case cached of
                Some status \<Rightarrow> Done (Inr status)
              | None \<Rightarrow>
                  (case verify_versioned_hashes (lighthouse mx) q of
                     Inl e \<Rightarrow> Done (Inl (invalid_request i ''incorrect versioned hashes''))
                   | Inr _ \<Rightarrow> Done (Inr synthetic_syncing)))"
  have last: "observe \<sigma> \<delta> ans fallback l j time = (Some (status_from mx i p q (\<sigma> l)), Suc l, j, time)" for l j time
    unfolding fallback_def observe_bind_task observe_get_cached_payload_status [OF wf]
    by (auto simp: status_from_def b_def split: option.split sum.split)
  have split: "client_payload_status mx i p q =
      bind_task (await_recent_payload mx b (payload_block_number p)) (\<lambda>definite.
        case definite of Some status \<Rightarrow> Done (Inr status) | None \<Rightarrow> fallback)"
    unfolding client_payload_status_def Let_def ok sum.case b_def fallback_def by (rule refl)
  have definite: "status_from mx i p q s = Inr st" if "cached_payload_status b True s = Some st" for s st
    using cached_payload_status_definite [OF that] by (simp add: status_from_def b_def)
  show ?thesis
  proof (cases "is_recent_in mx (payload_block_number p) (\<sigma> 0)")
    case True
    from observe_await_recent_payload [OF wf, where b_number = "payload_block_number p" and b = b and \<delta> = \<delta> and ans = ans] True obtain n where
      n: "\<forall>l<n. keeps_polling mx b \<sigma> \<delta> l" "\<not> keeps_polling mx b \<sigma> \<delta> n"
      and obs: "observe \<sigma> \<delta> ans (await_recent_payload mx b (payload_block_number p)) 0 0 0 =
        (if waited \<delta> n < new_payload_wait_millis (config mx)
         then (Some (cached_payload_status b True (\<sigma> (Suc n))), Suc (Suc n), Suc n, waited \<delta> n)
         else (Some None, Suc n, Suc n, waited \<delta> n))" by auto
    have "observe \<sigma> \<delta> ans (client_payload_status mx i p q) 0 0 0 =
        (Some (status_from mx i p q (\<sigma> (Suc n))), Suc (Suc n), Suc n, waited \<delta> n)"
      using n(2) definite [of "\<sigma> (Suc n)"]
      unfolding split observe_bind_task obs by (auto simp: last keeps_polling_def)
    with True n show ?thesis by auto
  next
    case False
    with observe_await_recent_payload [OF wf, where b_number = "payload_block_number p" and b = b and \<delta> = \<delta> and ans = ans] show ?thesis
      by (simp add: split observe_bind_task last)
  qed
qed

lemma run_store_payload_status:
  assumes "mux_wf s"
  shows "\<exists>s'. run ans d (store_payload_status mx p st) s = (Some st, s') \<and> mux_wf s' \<and>
    lru_lookup (new_payload_cache s') (payload_block_hash p) =
      Some \<lparr>npe_status = st, npe_block_number = payload_block_number p\<rparr> \<and>
    (not_invalid st \<longrightarrow> lru_lookup (payload_info (payload_builder s')) (payload_block_hash p) =
       Some (case lru_lookup (payload_info (payload_builder s)) (payload_block_hash p) of
         None \<Rightarrow> payload_info_of p | Some info \<Rightarrow> info))"
proof -
  let ?c = "payload_info (payload_builder s)" and ?b = "payload_block_hash p"
  have wf: "lru_wf ?c" and np_wf: "lru_wf (new_payload_cache s)"
    using assms by (simp_all add: mux_wf_def builder_wf_def)
  have known: "lru_lookup (snd (lru_get_or_insert (info_ops (caches mx)) ?c ?b (payload_info_of p))) ?b =
      Some (case lru_lookup ?c ?b of None \<Rightarrow> payload_info_of p | Some info \<Rightarrow> info)"
    using info.get_or_insert_hit [OF wf, of ?b _ "payload_info_of p"]
      info.get_or_insert_miss [OF wf, of ?b "payload_info_of p"] info.put_same [OF wf, of ?b "payload_info_of p"]
    by (cases "lru_lookup ?c ?b") auto
  show ?thesis
  proof (cases "not_invalid st")
    case True
    then have "ps_status st \<noteq> Invalid" "ps_status st \<noteq> InvalidBlockHash" by (simp_all add: not_invalid_def)
    with assms known show ?thesis
      by (simp add: store_payload_status_def put_payload_status_def register_canonical_payload_def with_builder_def
          canonical_insert_def np.put_same [OF np_wf] np.put_wf [OF np_wf] mux_wf_def builder_wf_def
          info.get_or_insert_wf)
  next
    case False
    then have "ps_status st = Invalid \<or> ps_status st = InvalidBlockHash" by (auto simp: not_invalid_def)
    with False assms show ?thesis
      by (simp add: store_payload_status_def put_payload_status_def register_canonical_payload_def
          np.put_same [OF np_wf] np.put_wf [OF np_wf] mux_wf_def)
  qed
qed

lemma run_controller_payload_asks:
  assumes "mux_wf s" and "cached_payload_status (payload_block_hash p) True s = None"
  shows "\<exists>s1. mux_wf s1 \<and> same_state s s1 \<and>
    requests ans d (controller_payload_status mx i p q) s = [NewPayload q] \<and>
    run ans d (controller_payload_status mx i p q) s =
      (case reply_new_payload (ans (NewPayload q)) of
         Inl e \<Rightarrow> (Some (Inl (invalid_request i ''payload verification failed: see eleel logs'')), s1)
       | Inr st \<Rightarrow> run ans d (bind_task (store_payload_status mx p st) (\<lambda>st. Done (Inr st))) s1)"
proof -
  from run_get_cached_payload_status [OF assms(1), of "payload_block_hash p" True] assms(2) obtain s1 where
    s1: "get_cached_payload_status mx (payload_block_hash p) True s = (None, s1)" "mux_wf s1" "same_state s s1"
    by auto
  have "only_awaits (\<lambda>_. False) (bind_task (store_payload_status mx p st)
      (\<lambda>st. Done (Inr st) :: (ErrorResponse + JsonPayloadStatusV1) handler))" for st
    by (auto simp: store_payload_status_def register_canonical_payload_def intro!: only_awaits_bind_task)
  note this [THEN only_awaits_no_requests, of ans d]
  with s1 show ?thesis
    by (intro exI [of _ s1]) (auto simp: controller_payload_status_def split: sum.split)
qed

lemma run_controller_payload_cached:
  assumes "mux_wf s" and "cached_payload_status (payload_block_hash p) True s = Some st"
  shows "\<exists>s'. run ans d (controller_payload_status mx i p q) s = (Some (Inr st), s') \<and> mux_wf s' \<and> same_state s s' \<and>
    requests ans d (controller_payload_status mx i p q) s = []"
  using run_get_cached_payload_status [OF assms(1), of "payload_block_hash p" True] assms(2)
  by (auto simp: controller_payload_status_def)

end


section \<open>Properties\<close>

text \<open>
  A request together with what it is decoded to: the payload and the request for the engine.
\<close>

definition decodes_to :: "Multiplexer \<Rightarrow> Request \<Rightarrow> ExecutionPayload \<Rightarrow> NewPayloadRequest \<Rightarrow> bool" where
  "decodes_to mx request p q \<longleftrightarrow>
     (\<exists>jp vh root er. decode_new_payload mx request = Inr (req_id request, jp, vh, root, er) \<and>
        p = execution_payload_from (lighthouse mx) jp \<and>
        new_payload_request_from_parts p vh root er = Some q)"

lemma decodes_to_total:
  assumes "mux_engine mx" and "req_method request \<in> set new_payload_methods"
  shows "(\<exists>e. decode_new_payload mx request = Inl e) \<or> (\<exists>p q. decodes_to mx request p q)"
proof (cases "decode_new_payload mx request")
  case (Inr d)
  obtain jp vh root er where "d = (req_id request, jp, vh, root, er)"
    using decode_new_payload_id [of mx request] Inr by (cases d) auto
  note dec = Inr [unfolded this]
  obtain q where "new_payload_request_from_parts (execution_payload_from (lighthouse mx) jp) vh root er = Some q"
    by (rule mux_engine.decoded_request [OF assms(1) dec assms(2)])
  with dec have "decodes_to mx request (execution_payload_from (lighthouse mx) jp) q"
    unfolding decodes_to_def by blast
  then show ?thesis by blast
qed simp

lemma handle_new_payload_decoded:
  assumes "decodes_to mx request p q"
  shows "handle_new_payload mx request =
      bind_task (client_payload_status mx (req_id request) p q) (\<lambda>r. try_task r (\<lambda>status.
        Done (response_new (to_value (serde mx)) (req_id request) (PayloadStatusResult status))))"
    and "handle_controller_new_payload mx request =
      bind_task (controller_payload_status mx (req_id request) p q) (\<lambda>r. try_task r (\<lambda>status.
        Done (response_new (to_value (serde mx)) (req_id request) (PayloadStatusResult status))))"
proof -
  from assms obtain jp vh root er where
    dec: "decode_new_payload mx request = Inr (req_id request, jp, vh, root, er)"
    and p: "execution_payload_from (lighthouse mx) jp = p"
    and q: "new_payload_request_from_parts p vh root er = Some q"
    unfolding decodes_to_def by blast
  show "handle_new_payload mx request =
      bind_task (client_payload_status mx (req_id request) p q) (\<lambda>r. try_task r (\<lambda>status.
        Done (response_new (to_value (serde mx)) (req_id request) (PayloadStatusResult status))))"
    unfolding handle_new_payload_def dec try_task_def [of "Inr _"] sum.case prod.case Let_def p q
      unwrap_task_def option.case by (rule refl)
  show "handle_controller_new_payload mx request =
      bind_task (controller_payload_status mx (req_id request) p q) (\<lambda>r. try_task r (\<lambda>status.
        Done (response_new (to_value (serde mx)) (req_id request) (PayloadStatusResult status))))"
    unfolding handle_controller_new_payload_def dec try_task_def [of "Inr _"] sum.case prod.case Let_def p q
      unwrap_task_def option.case by (rule refl)
qed

text \<open>A Capella payload with block hash 8 on the parent 7, and the request that carries it.\<close>

definition example_payload_json :: JsonValue where
  "example_payload_json = JObject [(''parentHash'', JNumber 7), (''stateRoot'', JNumber 80),
     (''blockNumber'', JNumber 6), (''gasLimit'', JNumber 30000000), (''gasUsed'', JNumber 100),
     (''timestamp'', JNumber 1168), (''baseFeePerGas'', JNumber 800), (''blockHash'', JNumber 8)]"

definition example_payload :: ExecutionPayload where
  "example_payload = Capella (ref_capella example_payload_json)"

definition example_new_payload :: Request where
  "example_new_payload = \<lparr>req_jsonrpc = ''2.0'', req_method = ENGINE_NEW_PAYLOAD_V2,
     req_params = JArray [example_payload_json], req_id = JNumber 1\<rparr>"

lemma example_decodes:
  "decodes_to example_multiplexer example_new_payload example_payload
     (NewPayloadRequestCapella (ref_capella example_payload_json))"
proof -
  have "decode_new_payload example_multiplexer example_new_payload =
      Inr (JNumber 1, JsonPayloadV2 (ref_capella example_payload_json), None, None, None)"
    by code_simp
  moreover have "req_id example_new_payload = JNumber 1"
    by (simp add: example_new_payload_def)
  moreover have "execution_payload_from (lighthouse example_multiplexer)
      (JsonPayloadV2 (ref_capella example_payload_json)) = example_payload"
    by (simp add: example.from_json example_payload_def)
  ultimately show ?thesis
    by (auto simp: decodes_to_def example_payload_def new_payload_request_from_parts_def intro!: exI)
qed

lemma example_hash_ok: "verify_payload_block_hash (lighthouse example_multiplexer) q = Inr ()"
  by (simp add: example_multiplexer_def External.defs ref_external_def ref_lighthouse_def)

lemma example_nothing_cached: "cached_payload_status b x (initial_state ref_external small_config) = None"
  by (simp add: cached_payload_status_def initial_state_def lru_list_def lru_lookup_def)

lemma example_np_method: "req_method example_new_payload \<in> set new_payload_methods"
  by (simp add: example_new_payload_def new_payload_methods_def)

text \<open>
  C12. What a client is told about a payload and when, on every branch and whatever the other tasks do
  meanwhile (\<open>\<sigma> i\<close> is the state its \<open>i\<close>-th section finds, \<open>\<delta> j\<close> the delay of its \<open>j\<close>-th pause). A request
  that does not decode and an incorrect block hash are errors at once, without a look at the state. A
  payload is old when the number of some cached one is more than the cutoff above its own: it is
  answered at once, from the state of the second section. A recent one is answered from the state of
  the first round in which a definite status is cached or the time is up, and the pauses take exactly
  the time until that round. The answer is the cached status if there is one, definite or not, otherwise
  an error when the versioned hashes are wrong, otherwise \<open>SYNCING\<close>. There is no panic.
\<close>

theorem client_new_payload_behaviour:
  assumes "mux_engine mx" and "\<forall>i. mux_wf (\<sigma> i)" and "req_method request \<in> set new_payload_methods"
  shows "(\<exists>e. decode_new_payload mx request = Inl e \<and>
      observe \<sigma> \<delta> ans (handle_new_payload mx request) 0 0 0 = (Some (Inl e), 0, 0, 0)) \<or>
    (\<exists>p q. decodes_to mx request p q \<and>
      (if verify_payload_block_hash (lighthouse mx) q \<noteq> Inr () then
         observe \<sigma> \<delta> ans (handle_new_payload mx request) 0 0 0 = (Some (Inl (invalid_request (req_id request)
           (''incorrect block hash '' @ debug_hash (lighthouse mx) (payload_block_hash p)))), 0, 0, 0)
       else if is_recent_in mx (payload_block_number p) (\<sigma> 0) then
         \<exists>n. (\<forall>k<n. keeps_polling mx (payload_block_hash p) \<sigma> \<delta> k) \<and>
           \<not> keeps_polling mx (payload_block_hash p) \<sigma> \<delta> n \<and>
           observe \<sigma> \<delta> ans (handle_new_payload mx request) 0 0 0 =
             (Some (and_then (status_from mx (req_id request) p q (\<sigma> (Suc n)))
                (\<lambda>st. response_new (to_value (serde mx)) (req_id request) (PayloadStatusResult st))),
              Suc (Suc n), Suc n, waited \<delta> n)
       else
         observe \<sigma> \<delta> ans (handle_new_payload mx request) 0 0 0 =
           (Some (and_then (status_from mx (req_id request) p q (\<sigma> 1))
              (\<lambda>st. response_new (to_value (serde mx)) (req_id request) (PayloadStatusResult st))), 2, 0, 0)))"
  using decodes_to_total [OF assms(1,3)]
proof (elim disjE exE)
  fix e assume "decode_new_payload mx request = Inl e"
  then show ?thesis by (simp add: handle_new_payload_def try_task_def)
next
  fix p q assume dec: "decodes_to mx request p q"
  have m: "mux mx" using assms(1) by (simp add: mux_engine_def)
  have reply: "observe \<sigma> \<delta> ans (handle_new_payload mx request) 0 0 0 =
      (Some (and_then r (\<lambda>st. response_new (to_value (serde mx)) (req_id request) (PayloadStatusResult st))), i, j, time)"
    if "observe \<sigma> \<delta> ans (client_payload_status mx (req_id request) p q) 0 0 0 = (Some r, i, j, time)" for r i j time
    by (cases r) (simp_all add: handle_new_payload_decoded(1) [OF dec] observe_bind_task that try_task_def)
  show ?thesis
  proof (cases "verify_payload_block_hash (lighthouse mx) q")
    case (Inl e)
    then have "observe \<sigma> \<delta> ans (client_payload_status mx (req_id request) p q) 0 0 0 =
        (Some (Inl (invalid_request (req_id request)
           (''incorrect block hash '' @ debug_hash (lighthouse mx) (payload_block_hash p)))), 0, 0, 0)"
      by (simp add: client_payload_status_def)
    from reply [OF this] Inl show ?thesis
      by (intro disjI2 exI [of _ p] exI [of _ q] conjI dec) simp
  next
    case (Inr u)
    then have Inr': "verify_payload_block_hash (lighthouse mx) q = Inr ()" by simp
    note alone = mux.observe_client_payload_status [OF m assms(2) Inr', of p \<delta> ans "req_id request"]
    from reply Inr alone show ?thesis
      by (intro disjI2 exI [of _ p] exI [of _ q] conjI dec) (auto split: if_splits)
  qed
qed

text \<open>
  The specification of the decoding: the version of a method, the version of the payloads of a fork, and
  how a payload of a given version is read.
\<close>

definition method_version :: "string \<Rightarrow> nat" where
  "method_version m =
     (if m = ENGINE_NEW_PAYLOAD_V1 then 1
      else if m = ENGINE_NEW_PAYLOAD_V2 then 2
      else if m = ENGINE_NEW_PAYLOAD_V3 then 3
      else 4)"

definition fork_version :: "ForkName \<Rightarrow> nat" where
  "fork_version fork = (case fork of Fork_Bellatrix \<Rightarrow> 1 | Fork_Capella \<Rightarrow> 2 | Fork_Deneb \<Rightarrow> 3 | _ \<Rightarrow> 4)"

definition reads_payload :: "Multiplexer \<Rightarrow> nat \<Rightarrow> JsonValue \<Rightarrow> JsonExecutionPayload \<Rightarrow> bool" where
  "reads_payload mx version v payload =
     (case payload of
        JsonPayloadV1 p \<Rightarrow> version = 1 \<and> decode_payload_v1 (serde mx) v = Inr p
      | JsonPayloadV2 p \<Rightarrow> version = 2 \<and> decode_payload_v2 (serde mx) v = Inr p
      | JsonPayloadV3 p \<Rightarrow> version = 3 \<and> decode_payload_v3 (serde mx) v = Inr p
      | JsonPayloadV4 p \<Rightarrow> version = 4 \<and> decode_payload_v4 (serde mx) v = Inr p
      | JsonPayloadV5 p \<Rightarrow> False)"

lemma decode_payload_reads:
  assumes "m \<in> set new_payload_methods"
  shows "decode_payload mx m fork v = Inr payload \<longleftrightarrow>
    reads_payload mx (min (method_version m) (fork_version fork)) v payload"
  using assms
  by (cases fork; cases payload)
    (auto simp: new_payload_methods_def decode_payload_def reads_payload_def method_version_def fork_version_def
      and_then_Inr_iff)

lemma decode_extra_params_reads:
  assumes "m \<in> set new_payload_methods"
  shows "decode_extra_params mx i m params = Inr (vh, root, er) \<longleftrightarrow>
    length params = (if method_version m < 3 then 1 else method_version m) \<and>
    (if method_version m < 3 then vh = None \<and> root = None
     else (\<exists>hs. decode_versioned_hashes (serde mx) (params ! 1) = Inr hs \<and> vh = Some hs) \<and>
       (\<exists>r. decode_hash (serde mx) (params ! 2) = Inr r \<and> root = Some r)) \<and>
    (if method_version m < 4 then er = None
     else \<exists>json r. decode_execution_requests (serde mx) (params ! 3) = Inr json \<and>
       execution_requests_try_from (lighthouse mx) json = Inr r \<and> er = Some r)"
  using assms
  by (auto simp: new_payload_methods_def decode_extra_params_def method_version_def and_then_Inr_iff)

lemma decode_timestamp_reads:
  "decode_timestamp mx i v = Inr t \<longleftrightarrow>
    (\<exists>json. json_get (serde mx) v ''timestamp'' = Some json \<and> decode_quantity (serde mx) json = Inr t)"
  by (auto simp: decode_timestamp_def split: option.split)

lemma decode_new_payload_parse_error:
  assumes "decode_new_payload mx request = Inl e"
  shows "err_code (eresp_error e) = ParseError"
proof -
  have "err_code (eresp_error e) = ParseError" if "decode_extra_params mx i m ps = Inl e" for i m ps
    using that by (auto simp: decode_extra_params_def error_response_defs and_then_Inl_iff map_err_Inl_iff split: if_splits)
  moreover have "err_code (eresp_error e) = ParseError" if "decode_timestamp mx i v = Inl e" for i v
    using that by (auto simp: decode_timestamp_def error_response_defs map_err_Inl_iff split: option.splits)
  ultimately show ?thesis
    using assms
    by (auto simp: decode_new_payload_def Let_def and_then_Inl_iff map_err_Inl_iff parse_as_Inl
        error_response_defs)
qed

lemma decode_new_payload_steps:
  "decode_new_payload mx request = Inr (i, payload, vh, root, er) \<longleftrightarrow>
    i = req_id request \<and>
    (\<exists>params t slot. decode_values (serde mx) (req_params request) = Inr params \<and>
      decode_extra_params mx (req_id request) (req_method request) params = Inr (vh, root, er) \<and>
      decode_timestamp mx (req_id request) (params ! 0) = Inr t \<and>
      timestamp_to_slot mx t = Some slot \<and>
      decode_payload mx (req_method request) (fork_name_at_slot (spec mx) slot) (params ! 0) = Inr payload)"
  by (auto simp: decode_new_payload_def Let_def and_then_Inr_iff parse_as_Inr)

text \<open>
  C13. How a new-payload request is decoded, as an exact condition. It needs one parameter for the first two
  versions of the method and as many as the version for the others; the versioned hashes, the parent
  beacon block root and the execution requests are read from the second, third and fourth of them, from
  the versions on that have them. The payload needs a timestamp with a slot, and it is read in the
  version of the method or in that of the fork at its slot, whichever is smaller. Everything else is a
  parse error under the request's id.
\<close>

theorem decode_new_payload_correct:
  assumes "req_method request \<in> set new_payload_methods"
  defines "version \<equiv> method_version (req_method request)"
  shows "(decode_new_payload mx request = Inr (i, payload, vh, root, er) \<longleftrightarrow>
      i = req_id request \<and>
      (\<exists>params t slot. decode_values (serde mx) (req_params request) = Inr params \<and>
        length params = (if version < 3 then 1 else version) \<and>
        (if version < 3 then vh = None \<and> root = None
         else (\<exists>hs. decode_versioned_hashes (serde mx) (params ! 1) = Inr hs \<and> vh = Some hs) \<and>
           (\<exists>r. decode_hash (serde mx) (params ! 2) = Inr r \<and> root = Some r)) \<and>
        (if version < 4 then er = None
         else \<exists>json r. decode_execution_requests (serde mx) (params ! 3) = Inr json \<and>
           execution_requests_try_from (lighthouse mx) json = Inr r \<and> er = Some r) \<and>
        (\<exists>json. json_get (serde mx) (params ! 0) ''timestamp'' = Some json \<and>
           decode_quantity (serde mx) json = Inr t) \<and>
        timestamp_to_slot mx t = Some slot \<and>
        reads_payload mx (min version (fork_version (fork_name_at_slot (spec mx) slot))) (params ! 0) payload)) \<and>
    (\<forall>e. decode_new_payload mx request = Inl e \<longrightarrow>
      err_code (eresp_error e) = ParseError \<and> answers (req_id request) (Inl e))"
  unfolding decode_new_payload_steps decode_extra_params_reads [OF assms(1)] decode_payload_reads [OF assms(1)]
    decode_timestamp_reads version_def
  using decode_new_payload_parse_error [of mx request] decode_new_payload_error [of mx request]
  by (simp only: conj_assoc) simp

theorem decode_new_payload_correct_witness:
  "\<exists>params t slot. decode_values (serde example_multiplexer) (req_params example_new_payload) = Inr params \<and>
    length params = 1 \<and> timestamp_to_slot example_multiplexer t = Some slot \<and>
    reads_payload example_multiplexer (min 2 (fork_version (fork_name_at_slot (spec example_multiplexer) slot)))
      (params ! 0) (JsonPayloadV2 (ref_capella example_payload_json))"
proof -
  have "decode_new_payload example_multiplexer example_new_payload =
      Inr (JNumber 1, JsonPayloadV2 (ref_capella example_payload_json), None, None, None)"
    by code_simp
  moreover have "method_version (req_method example_new_payload) = 2"
    by code_simp
  ultimately show ?thesis
    using decode_new_payload_correct [OF example_np_method, of example_multiplexer "JNumber 1"
        "JsonPayloadV2 (ref_capella example_payload_json)" None None None]
    by auto
qed

text \<open>A wait of two rounds: the controller's \<open>VALID\<close> is stored between them.\<close>

definition example_waiting :: "nat \<Rightarrow> MuxState" where
  "example_waiting l =
     (if l < 2 then initial_state ref_external small_config
      else snd (put_payload_status example_multiplexer 8 \<lparr>npe_status = example_valid, npe_block_number = 6\<rparr>
        (initial_state ref_external small_config)))"

lemma example_waiting_wf: "mux_wf (example_waiting l)"
  using example_state_wf example.np.put_wf
  by (auto simp: example_waiting_def put_payload_status_def mux_wf_def)

theorem client_new_payload_behaviour_witness:
  "observe example_waiting (\<lambda>_. 0) (\<lambda>q. example_reply) (handle_new_payload example_multiplexer example_new_payload) 0 0 0 =
     (Some (Inr \<lparr>resp_jsonrpc = ''2.0'', resp_id = JNumber 1, resp_result = JString ''VALID''\<rparr>), 3, 2, 50)"
proof -
  let ?b = "payload_block_hash example_payload" and ?t = "handle_new_payload example_multiplexer example_new_payload"
  have no_error: "\<not> (\<exists>e. decode_new_payload example_multiplexer example_new_payload = Inl e)"
    using example_decodes by (auto simp: decodes_to_def)
  have payload: "p = example_payload" if "decodes_to example_multiplexer example_new_payload p q" for p q
    using that example_decodes by (auto simp: decodes_to_def)
  have recent: "is_recent_in example_multiplexer (payload_block_number example_payload) (example_waiting 0)"
    and rounds: "keeps_polling example_multiplexer ?b example_waiting (\<lambda>_. 0) 0"
      "\<not> keeps_polling example_multiplexer ?b example_waiting (\<lambda>_. 0) 1"
    and status: "cached_payload_status ?b False (example_waiting 2) = Some example_valid"
    by code_simp+
  from no_error client_new_payload_behaviour [OF example.mux_engine_axioms _ example_np_method,
      of example_waiting "\<lambda>_. 0" "\<lambda>q. example_reply"] example_waiting_wf
  obtain p q where dec: "decodes_to example_multiplexer example_new_payload p q"
    and behaviour: "if is_recent_in example_multiplexer (payload_block_number p) (example_waiting 0) then
        \<exists>n. (\<forall>k<n. keeps_polling example_multiplexer (payload_block_hash p) example_waiting (\<lambda>_. 0) k) \<and>
          \<not> keeps_polling example_multiplexer (payload_block_hash p) example_waiting (\<lambda>_. 0) n \<and>
          observe example_waiting (\<lambda>_. 0) (\<lambda>q. example_reply) ?t 0 0 0 =
            (Some (and_then (status_from example_multiplexer (req_id example_new_payload) p q (example_waiting (Suc n)))
               (\<lambda>st. response_new (to_value (serde example_multiplexer)) (req_id example_new_payload)
                 (PayloadStatusResult st))), Suc (Suc n), Suc n, waited (\<lambda>_. 0) n)
      else True"
    by (auto simp: example_hash_ok)
  from behaviour [unfolded payload [OF dec] if_P [OF recent]] obtain n where
    n: "\<forall>k<n. keeps_polling example_multiplexer ?b example_waiting (\<lambda>_. 0) k"
      "\<not> keeps_polling example_multiplexer ?b example_waiting (\<lambda>_. 0) n"
    and obs: "observe example_waiting (\<lambda>_. 0) (\<lambda>q. example_reply) ?t 0 0 0 =
      (Some (and_then (status_from example_multiplexer (req_id example_new_payload) example_payload q
           (example_waiting (Suc n)))
         (\<lambda>st. response_new (to_value (serde example_multiplexer)) (req_id example_new_payload)
           (PayloadStatusResult st))), Suc (Suc n), Suc n, waited (\<lambda>_. 0) n)" by auto
  from n rounds have "n = 1" by (metis less_one linorder_neqE_nat)
  with obs status show ?thesis
    by (simp add: status_from_def response_new_def example_to_value example_valid_def numeral_2_eq_2 numeral_3_eq_3)
      (simp add: example_new_payload_def)
qed

text \<open>
  C11. A status that the engine gives to the controller's payload reaches the clients: a client that
  sends the same payload afterwards, with a correct block hash, is told the engine's status, definite
  or not, without its versioned hashes being looked at.
\<close>

theorem payload_status_reaches_client:
  assumes "mux mx" and "mux_wf s"
    and "decodes_to mx creq p cq" and "decodes_to mx request p q"
    and "cached_payload_status (payload_block_hash p) True s = None"
    and "reply_new_payload (ans (NewPayload cq)) = Inr st"
    and "verify_payload_block_hash (lighthouse mx) q = Inr ()"
  shows "\<exists>s' s''.
    run ans d (handle_controller_new_payload mx creq) s =
      (Some (response_new (to_value (serde mx)) (req_id creq) (PayloadStatusResult st)), s') \<and>
    run ans' d' (handle_new_payload mx request) s' =
      (Some (response_new (to_value (serde mx)) (req_id request) (PayloadStatusResult st)), s'')"
proof -
  from mux.run_controller_payload_asks [OF assms(1,2,5), of ans d "req_id creq" cq] assms(6) obtain s1 where
    s1: "mux_wf s1" "run ans d (controller_payload_status mx (req_id creq) p cq) s =
      run ans d (bind_task (store_payload_status mx p st) (\<lambda>st. Done (Inr st))) s1" by auto
  from mux.run_store_payload_status [OF assms(1) s1(1), of ans d p st] obtain s2 where
    s2: "run ans d (store_payload_status mx p st) s1 = (Some st, s2)" "mux_wf s2"
      "cached_payload_status (payload_block_hash p) False s2 = Some st"
    by (auto simp: cached_payload_status_def)
  have "run ans d (handle_controller_new_payload mx creq) s =
      (Some (response_new (to_value (serde mx)) (req_id creq) (PayloadStatusResult st)), s2)"
    using s1(2) s2(1) by (simp add: handle_new_payload_decoded(2) [OF assms(3)] run_bind_task try_task_def)
  with mux.run_client_payload_status [OF assms(1) s2(2), of ans' d' "req_id request" p q] s2(3) assms(7)
  show ?thesis by (auto simp: handle_new_payload_decoded(1) [OF assms(4)] run_bind_task try_task_def)
qed

theorem payload_status_reaches_client_witness:
  "\<exists>s' s''. run (\<lambda>q. example_reply) 0 (handle_controller_new_payload example_multiplexer example_new_payload)
      (initial_state ref_external small_config) =
      (Some (Inr \<lparr>resp_jsonrpc = ''2.0'', resp_id = JNumber 1, resp_result = JString ''VALID''\<rparr>), s') \<and>
    run (\<lambda>q. example_reply) 0 (handle_new_payload example_multiplexer example_new_payload) s' =
      (Some (Inr \<lparr>resp_jsonrpc = ''2.0'', resp_id = JNumber 1, resp_result = JString ''VALID''\<rparr>), s'')"
proof -
  have "reply_new_payload example_reply = Inr example_valid"
    by (simp add: example_reply_def example_valid_def Let_def)
  from payload_status_reaches_client [OF example.mux_axioms example_state_wf example_decodes example_decodes
      example_nothing_cached, of "\<lambda>q. example_reply", OF this example_hash_ok, of 0 "\<lambda>q. example_reply" 0]
  show ?thesis
    by (simp add: response_new_def example_to_value example_valid_def example_new_payload_def)
qed

text \<open>
  C15. What the controller's payload sends to the engine: the payload, once, when no definite status is
  cached for its block hash, and nothing when one is.
\<close>

theorem controller_new_payload_requests:
  assumes "mux mx" and "mux_wf s" and "decodes_to mx creq p q"
  shows "requests ans d (handle_controller_new_payload mx creq) s =
    (if cached_payload_status (payload_block_hash p) True s = None then [NewPayload q] else [])"
proof -
  have "requests ans d (try_task r (\<lambda>status.
      Done (response_new (to_value (serde mx)) (req_id creq) (PayloadStatusResult status)))) s' = []" for r s'
    by (simp add: try_task_def split: sum.split)
  with mux.run_controller_payload_asks [OF assms(1,2), of p ans d "req_id creq" q]
    mux.run_controller_payload_cached [OF assms(1,2), of p _ ans d "req_id creq" q]
  show ?thesis
    unfolding handle_new_payload_decoded(2) [OF assms(3)]
    by (cases "cached_payload_status (payload_block_hash p) True s")
      (auto simp: requests_bind_task split: option.split prod.split)
qed

theorem controller_new_payload_requests_witness:
  "requests (\<lambda>q. example_reply) 0 (handle_controller_new_payload example_multiplexer example_new_payload)
     (initial_state ref_external small_config) =
   [NewPayload (NewPayloadRequestCapella (ref_capella example_payload_json))]"
  using controller_new_payload_requests [OF example.mux_axioms example_state_wf example_decodes,
      of "\<lambda>q. example_reply" 0] example_nothing_cached by simp

text \<open>
  C20. A client's new payload ends: it sleeps at most as often as 50 millisecond rounds fit into the
  configured waiting time, and on no path does it send anything to the engine.
\<close>

theorem client_new_payload_bounded:
  "sleeps_at_most (handle_new_payload mx request) ((new_payload_wait_millis (config mx) + 49) div 50) \<and>
   only_awaits (\<lambda>_. False) (handle_new_payload mx request)"
  using sleeps_handle_new_payload [of mx request] only_awaits_handle_new_payload by (simp add: poll_rounds_def)

text \<open>
  C28. A payload counts as recent exactly when its block number is at most the cutoff below the highest
  cached one, with no wrap-around on either side; the highest is the maximum of the cached numbers, and
  0 for an empty cache, in which every payload is recent.
\<close>

theorem is_recent_payload_correct:
  "run ans d (is_recent_payload mx n) s =
     (Some (unat (highest_cached_payload_number s) \<le> unat n + unat (new_payload_wait_cutoff (config mx))), s) \<and>
   highest_cached_payload_number s =
     (if lru_iter (new_payload_cache s) = [] then 0
      else Max ((npe_block_number \<circ> snd) ` set (lru_iter (new_payload_cache s))))"
  by (auto simp: is_recent_payload_def Let_def word_le_nat_alt word_nat highest_cached_payload_number_Max)

text \<open>Two requests of the controller with the same payload, in flight at the same time.\<close>

definition racing_payloads :: "nat \<Rightarrow> (MuxState, EngineCall, EngineReply, ErrorResponse + Response) choice list" where
  "racing_payloads n =
     (let t = handle_controller_new_payload example_multiplexer example_new_payload in
      take n [Start t, Start t, Section 0, Section 1, Reply 0 example_reply, Section 0,
        Reply 1 (example_reply\<lparr>reply_new_payload := Inr synthetic_syncing\<rparr>), Section 1])"

lemma racing_payloads_run:
  "(case schedule (racing_payloads 6) (initial_state ref_external small_config, []) of
      None \<Rightarrow> False
    | Some (s, ts) \<Rightarrow> cached_payload_status 8 True s = Some example_valid \<and>
        (case schedule (drop 6 (racing_payloads 8)) (s, ts) of
           None \<Rightarrow> False
         | Some (s', ts') \<Rightarrow> cached_payload_status 8 False s' = Some synthetic_syncing))"
  by code_simp

text \<open>
  C36. Unlike the forkchoice cache, the payload cache can lose a definite status: with two requests for
  the same payload in flight, the engine's \<open>VALID\<close> that was cached for one of them is replaced by the
  \<open>SYNCING\<close> that it gave to the other.
\<close>

theorem definite_payload_status_lost:
  "\<exists>h s ts h' s' ts'. reachable {handle_controller_new_payload example_multiplexer example_new_payload}
       (initial_state ref_external small_config) (h, s, ts) \<and>
     cached_payload_status 8 True s = Some example_valid \<and>
     (sys_step {handle_controller_new_payload example_multiplexer example_new_payload})\<^sup>*\<^sup>* (h, s, ts) (h', s', ts') \<and>
     cached_payload_status 8 False s' = Some synthetic_syncing"
proof -
  let ?T = "{handle_controller_new_payload example_multiplexer example_new_payload}"
  obtain s ts where 1: "schedule (racing_payloads 6) (initial_state ref_external small_config, []) = Some (s, ts)"
    and valid: "cached_payload_status 8 True s = Some example_valid"
    using racing_payloads_run by (auto split: option.splits)
  then obtain s' ts' where 2: "schedule (drop 6 (racing_payloads 8)) (s, ts) = Some (s', ts')"
    and lost: "cached_payload_status 8 False s' = Some synthetic_syncing"
    using racing_payloads_run by (auto split: option.splits)
  have "started (racing_payloads 6) \<subseteq> ?T" and "started (drop 6 (racing_payloads 8)) \<subseteq> ?T"
    by (simp_all add: racing_payloads_def Let_def)
  with schedule_reachable [OF 1] schedule_steps [OF 2] valid lost show ?thesis by metis
qed

text \<open>
  C24. The controller's payload becomes a parent to build on: when the engine does not call it invalid,
  the builder knows the block's number, state root, base fee and gas afterwards, as the payload gives
  them if the block was not known before.
\<close>

theorem controller_payload_is_buildable:
  assumes "mux mx" and "mux_wf s" and "decodes_to mx creq p q"
    and "cached_payload_status (payload_block_hash p) True s = None"
    and "reply_new_payload (ans (NewPayload q)) = Inr st" and "not_invalid st"
    and "lru_lookup (payload_info (payload_builder s)) (payload_block_hash p) = None"
  shows "\<exists>r s'. run ans d (handle_controller_new_payload mx creq) s = (Some r, s') \<and> mux_wf s' \<and>
    lru_lookup (payload_info (payload_builder s')) (payload_block_hash p) = Some (payload_info_of p)"
proof -
  from mux.run_controller_payload_asks [OF assms(1,2,4), of ans d "req_id creq" q] assms(5) obtain s1 where
    s1: "mux_wf s1" "same_state s s1" "run ans d (controller_payload_status mx (req_id creq) p q) s =
      run ans d (bind_task (store_payload_status mx p st) (\<lambda>st. Done (Inr st))) s1" by auto
  have "lru_lookup (payload_info (payload_builder s1)) (payload_block_hash p) = None"
    using s1(2) assms(7) by (simp add: same_state_def same_contents_def)
  with mux.run_store_payload_status [OF assms(1) s1(1), of ans d p st] assms(6) obtain s2 where
    "run ans d (store_payload_status mx p st) s1 = (Some st, s2)" "mux_wf s2"
      "lru_lookup (payload_info (payload_builder s2)) (payload_block_hash p) = Some (payload_info_of p)" by auto
  with s1(3) show ?thesis
    by (auto simp: handle_new_payload_decoded(2) [OF assms(3)] run_bind_task try_task_def)
qed

theorem controller_payload_is_buildable_witness:
  "\<exists>r s'. run (\<lambda>q. example_reply) 0 (handle_controller_new_payload example_multiplexer example_new_payload)
      (initial_state ref_external small_config) = (Some r, s') \<and>
    lru_lookup (payload_info (payload_builder s')) 8 = Some (payload_info_of example_payload)"
proof -
  have "reply_new_payload example_reply = Inr example_valid" and "not_invalid example_valid"
    by (simp_all add: example_reply_def example_valid_def not_invalid_def Let_def)
  moreover have "lru_lookup (payload_info (payload_builder (initial_state ref_external small_config))) b = None" for b
    by (simp add: initial_state_def lru_list_def lru_lookup_def)
  moreover have "payload_block_hash example_payload = 8"
    by code_simp
  ultimately show ?thesis
    using controller_payload_is_buildable [OF example.mux_axioms example_state_wf example_decodes
        example_nothing_cached, of "\<lambda>q. example_reply" example_valid 0] by auto
qed

end
