(* ===== verification/Meta.thy ===== *)
theory Meta
  imports Mux_Invariant
begin

text \<open>
  The meta methods of \<open>meta.rs\<close>: the constant answer on syncing, the chain id and the capabilities
  asked of the engine, and the requests passed on to the engine unchanged. None of them touches the
  shared state. Timeouts of the requests are part of the engine's reply (an error).
\<close>

definition handle_syncing :: "Multiplexer \<Rightarrow> Request \<Rightarrow> rpc_handler" where
  "handle_syncing mx request =
     try_task (parse_as (decode_units (serde mx)) request) (\<lambda>(i, _).
     Done (response_new (to_value (serde mx)) i (BoolResult False)))"

definition handle_chain_id :: "Multiplexer \<Rightarrow> Request \<Rightarrow> rpc_handler" where
  "handle_chain_id mx request =
     try_task (parse_as (decode_units (serde mx)) request) (\<lambda>(i, _).
     Await GetChainId (\<lambda>reply.
     try_task (map_err (parse_error_generic i) (reply_chain_id reply)) (\<lambda>chain_id.
     Done (response_new (to_value (serde mx)) i (QuantityResult chain_id)))))"

definition handle_engine_capabilities :: "Multiplexer \<Rightarrow> Request \<Rightarrow> rpc_handler" where
  "handle_engine_capabilities mx request =
     try_task (parse_as (decode_capabilities (serde mx)) request) (\<lambda>(i, cl_capabilities).
     Await GetEngineCapabilities (\<lambda>reply.
     try_task (map_err (parse_error_generic i) (reply_capabilities reply)) (\<lambda>engine_capabilities.
     Done (response_new (to_value (serde mx)) i (CapabilitiesResult engine_capabilities)))))"

definition proxy_directly :: "Multiplexer \<Rightarrow> Request \<Rightarrow> rpc_handler" where
  "proxy_directly mx request =
     (let i = req_id request in
      Await (RpcRequest (req_method request) (req_params request)) (\<lambda>reply.
      try_task (map_err (parse_error_generic i) (reply_rpc reply)) (\<lambda>result.
      Done (response_new (to_value (serde mx)) i (ValueResult result)))))"

lemmas meta_defs = handle_syncing_def handle_chain_id_def handle_engine_capabilities_def proxy_directly_def


section \<open>Every reply answers its request\<close>

text \<open>A task that returns a reply to the request with the given id.\<close>

definition answered :: "JsonValue \<Rightarrow> history \<Rightarrow> (ErrorResponse + Response) option \<Rightarrow> bool" where
  "answered i h r \<longleftrightarrow> (\<exists>x. r = Some x \<and> answers i x)"

lemma answered_simps [simp]: "answered i h (Some x) = answers i x" "\<not> answered i h None"
  by (simp_all add: answered_def)

lemma parse_as_error_answers: "parse_as f request = Inl e \<Longrightarrow> answers (req_id request) (Inl e)"
  by (auto simp: parse_as_Inl)

lemma safe_reply:
  "safe I G (answered i) (try_task (map_err (parse_error_generic i) x)
     (\<lambda>v. Done (response_new f i (g v)))) h"
  by (rule safe_try_task) (auto simp: map_err_Inl_iff)

lemma safe_handle_syncing: "safe I G (answered (req_id request)) (handle_syncing mx request) h"
  unfolding handle_syncing_def
  by (rule safe_try_task) (auto simp: parse_as_Inr parse_as_error_answers)

lemma safe_handle_chain_id: "safe I G (answered (req_id request)) (handle_chain_id mx request) h"
  unfolding handle_chain_id_def
  by (rule safe_try_task) (auto simp: parse_as_Inr parse_as_error_answers simp del: safe.simps
      intro!: safe_Done safe_Await safe_reply)

lemma safe_handle_engine_capabilities:
  "safe I G (answered (req_id request)) (handle_engine_capabilities mx request) h"
  unfolding handle_engine_capabilities_def
  by (rule safe_try_task) (auto simp: parse_as_Inr parse_as_error_answers simp del: safe.simps
      intro!: safe_Done safe_Await safe_reply)

lemma safe_proxy_directly: "safe I G (answered (req_id request)) (proxy_directly mx request) h"
  unfolding proxy_directly_def Let_def by (rule safe_Await, rule safe_reply)

text \<open>
  C33. A request that is passed on reaches the engine with its method and its parameters unchanged,
  once; the engine's value comes back under the request's id, its error as a parse error, and the
  shared state is left alone.
\<close>

theorem proxy_directly_transparent:
  "requests ans d (proxy_directly mx request) s = [RpcRequest (req_method request) (req_params request)] \<and>
   run ans d (proxy_directly mx request) s =
     (Some (case reply_rpc (ans (RpcRequest (req_method request) (req_params request))) of
        Inl e \<Rightarrow> Inl (parse_error_generic (req_id request) e)
      | Inr v \<Rightarrow> response_new (to_value (serde mx)) (req_id request) (ValueResult v)), s)"
  by (auto simp: proxy_directly_def Let_def try_task_def split: sum.split)

end
