(* ===== verification/Jwt.thy ===== *)
theory Jwt
  imports Eleel_Config "HOL-Library.AList"
begin

text \<open>
  The authentication of \<open>jwt.rs\<close>: the collection of client secrets by id and its verification of
  tokens, and the loading of secrets. What other crates do (reading files, TOML, hexadecimal decoding,
  HMAC keys, parsing and verifying tokens) is the record \<open>JwtOps\<close>, for an arbitrary type of keys; the
  locale \<open>jwt_crate\<close> says what the code relies on. A hash map is the list of its entries in the order
  in which it is iterated; a theorem shows that this order has no influence.
\<close>

record Claims =
  iat :: u64
  cl_id :: "string option"
  clv :: "string option"

text \<open>A parsed token: its text and the claims in it. A verified token is known by its claims.\<close>

record UnverifiedToken =
  ut_text :: string
  ut_claims :: Claims

record HexError =
  hex_debug :: string
  hex_display :: string

record 'k JwtOps =
  fs_read_to_string :: "string \<Rightarrow> string + string"
  toml_from_str :: "string \<Rightarrow> string + ClientJwtSecrets"
  hex_decode :: "string \<Rightarrow> HexError + u8 list"
  new_from_slice :: "u8 list \<Rightarrow> string + 'k"
  parse_unverified :: "string \<Rightarrow> string + UnverifiedToken"
  token_verify_with_key :: "UnverifiedToken \<Rightarrow> 'k \<Rightarrow> string + Claims"
  str_verify_with_key :: "string \<Rightarrow> 'k \<Rightarrow> string + Claims"

record 'k KeyCollection =
  secrets :: "(string \<times> 'k) list"

definition convert_err :: "string \<Rightarrow> string" where
  "convert_err e = ''JWT verification error: '' @ e"

definition verify_single_token :: "'k JwtOps \<Rightarrow> string \<Rightarrow> 'k \<Rightarrow> string + Claims" where
  "verify_single_token ops token secret = map_err convert_err (str_verify_with_key ops token secret)"

definition verify_parsed_token :: "'k JwtOps \<Rightarrow> UnverifiedToken \<Rightarrow> 'k \<Rightarrow> string + Claims" where
  "verify_parsed_token ops token secret = map_err convert_err (token_verify_with_key ops token secret)"

definition jwt_secret_from_path :: "'k JwtOps \<Rightarrow> string \<Rightarrow> string + 'k" where
  "jwt_secret_from_path ops path =
     map_err (\<lambda>e. ''Invalid JWT secret at path '' @ path @ '': '' @ e)
       (and_then (and_then (fs_read_to_string ops path)
          (\<lambda>hex_secret. map_err hex_display (hex_decode ops hex_secret)))
          (\<lambda>byte_secret. new_from_slice ops byte_secret))"

text \<open>The loop over all secrets: the first that verifies the token.\<close>

primrec verify_any :: "'k JwtOps \<Rightarrow> string \<Rightarrow> (string \<times> 'k) list \<Rightarrow> string + Claims" where
  "verify_any ops token [] = Inl ''No matching JWT secret found''"
| "verify_any ops token (entry # entries) =
     (case verify_single_token ops token (snd entry) of
        Inr verified \<Rightarrow> Inr verified
      | Inl _ \<Rightarrow> verify_any ops token entries)"

definition key_collection_verify :: "'k JwtOps \<Rightarrow> 'k KeyCollection \<Rightarrow> string \<Rightarrow> string + Claims" where
  "key_collection_verify ops collection token =
     and_then (map_err convert_err (parse_unverified ops token)) (\<lambda>parsed_token.
     let secret = Option.bind (cl_id (ut_claims parsed_token)) (map_of (secrets collection)) in
     case secret of
       Some secret \<Rightarrow> verify_parsed_token ops parsed_token secret
     | None \<Rightarrow> verify_any ops token (secrets collection))"

definition load_secret :: "'k JwtOps \<Rightarrow> string \<Rightarrow> string + 'k" where
  "load_secret ops hex_secret =
     and_then (map_err (\<lambda>e. ''Invalid JWT secret: '' @ hex_debug e) (hex_decode ops hex_secret)) (\<lambda>byte_secret.
     map_err (\<lambda>e. ''Invalid JWT secret: '' @ e) (new_from_slice ops byte_secret))"

primrec load_secrets ::
  "'k JwtOps \<Rightarrow> (string \<times> string) list \<Rightarrow> (string \<times> 'k) list \<Rightarrow> string + (string \<times> 'k) list" where
  "load_secrets ops [] acc = Inr acc"
| "load_secrets ops (entry # entries) acc =
     and_then (load_secret ops (snd entry)) (\<lambda>secret.
     load_secrets ops entries (AList.update (fst entry) secret acc))"

definition key_collection_load :: "'k JwtOps \<Rightarrow> string \<Rightarrow> string + 'k KeyCollection" where
  "key_collection_load ops path =
     and_then (client_jwt_secrets_from_file (fs_read_to_string ops) (toml_from_str ops) path) (\<lambda>raw.
     and_then (load_secrets ops (raw_secrets raw) []) (\<lambda>loaded.
     Inr \<lparr>secrets = loaded\<rparr>))"


section \<open>What the code relies on\<close>

text \<open>
  Verifying a string is parsing it and verifying the parsed token, and a verified token has the claims
  that were parsed.
\<close>

definition signed_by :: "'k JwtOps \<Rightarrow> UnverifiedToken \<Rightarrow> 'k \<Rightarrow> bool" where
  "signed_by ops t k \<longleftrightarrow> token_verify_with_key ops t k = Inr (ut_claims t)"

text \<open>The key that a token's id names, if the collection has it.\<close>

definition named_key :: "'k KeyCollection \<Rightarrow> UnverifiedToken \<Rightarrow> 'k option" where
  "named_key c t = Option.bind (cl_id (ut_claims t)) (map_of (secrets c))"

locale jwt_crate =
  fixes ops :: "'k JwtOps"
  assumes str_verify: "str_verify_with_key ops token k =
      and_then (parse_unverified ops token) (\<lambda>t. token_verify_with_key ops t k)"
    and verified_claims: "token_verify_with_key ops t k = Inr c \<Longrightarrow> c = ut_claims t"
begin

lemma verify_parsed_iff: "verify_parsed_token ops t k = Inr c \<longleftrightarrow> signed_by ops t k \<and> c = ut_claims t"
  using verified_claims by (auto simp: verify_parsed_token_def signed_by_def)

lemma verify_single_iff:
  "verify_single_token ops token k = Inr c \<longleftrightarrow>
     (\<exists>t. parse_unverified ops token = Inr t \<and> signed_by ops t k \<and> c = ut_claims t)"
  using verified_claims
  by (auto simp: verify_single_token_def str_verify and_then_Inr_iff signed_by_def)

lemma verify_any_iff:
  assumes "parse_unverified ops token = Inr t"
  shows "verify_any ops token entries =
    (if \<exists>k \<in> snd ` set entries. signed_by ops t k then Inr (ut_claims t) else Inl ''No matching JWT secret found'')"
proof (induction entries)
  case (Cons e entries)
  show ?case
  proof (cases "verify_single_token ops token (snd e)")
    case (Inl x)
    then have "\<not> signed_by ops t (snd e)"
      using assms verify_single_iff [of token "snd e" "ut_claims t"] by auto
    with Inl Cons show ?thesis by auto
  next
    case (Inr c)
    then have "signed_by ops t (snd e)" "c = ut_claims t"
      using assms verify_single_iff [of token "snd e" c] by auto
    with Inr show ?thesis by auto
  qed
qed simp

lemma key_collection_verify_iff:
  "key_collection_verify ops c token = Inr claims \<longleftrightarrow>
     (\<exists>t. parse_unverified ops token = Inr t \<and> claims = ut_claims t \<and>
        (case named_key c t of
           Some k \<Rightarrow> signed_by ops t k
         | None \<Rightarrow> \<exists>k \<in> snd ` set (secrets c). signed_by ops t k))"
proof (cases "parse_unverified ops token")
  case (Inl e)
  then show ?thesis by (simp add: key_collection_verify_def)
next
  case (Inr t)
  then show ?thesis
    by (cases "named_key c t")
      (auto simp: key_collection_verify_def named_key_def [symmetric] Let_def verify_parsed_iff
        verify_any_iff [OF Inr] split: if_splits)
qed

lemma key_collection_verify_order:
  assumes "map_of (secrets c) = map_of (secrets c')" and "set (secrets c) = set (secrets c')"
  shows "key_collection_verify ops c token = key_collection_verify ops c' token"
  using assms
  by (cases "parse_unverified ops token")
    (auto simp: key_collection_verify_def Let_def verify_any_iff split: option.split)

end


section \<open>An example\<close>

text \<open>Tokens of the form \<open>id.key\<close>, where the id may be empty; the characters of the key are its bytes.\<close>

definition ref_token :: "string \<Rightarrow> string + UnverifiedToken" where
  "ref_token token = (let i = takeWhile (\<lambda>c. c \<noteq> CHR ''.'') token in
     if i = token then Inl ''no claims''
     else Inr \<lparr>ut_text = token, ut_claims = \<lparr>iat = 0, cl_id = (if i = [] then None else Some i), clv = None\<rparr>\<rparr>)"

definition ref_verify :: "UnverifiedToken \<Rightarrow> u8 list \<Rightarrow> string + Claims" where
  "ref_verify t k =
     (if map of_char (drop 1 (dropWhile (\<lambda>c. c \<noteq> CHR ''.'') (ut_text t))) = k then Inr (ut_claims t)
      else Inl ''invalid signature'')"

definition ref_jwt :: "u8 list JwtOps" where
  "ref_jwt = \<lparr>fs_read_to_string = (\<lambda>path. if path = ''missing'' then Inl ''not found'' else Inr ''secret''),
     toml_from_str = (\<lambda>text. Inr \<lparr>raw_secrets = [(''node1'', ''aa''), (''node2'', ''bb'')]\<rparr>),
     hex_decode = (\<lambda>text. if text = [] then Inl \<lparr>hex_debug = ''empty'', hex_display = ''empty''\<rparr>
        else Inr (map of_char text)),
     new_from_slice = Inr, parse_unverified = ref_token, token_verify_with_key = ref_verify,
     str_verify_with_key = (\<lambda>token k. and_then (ref_token token) (\<lambda>t. ref_verify t k))\<rparr>"

interpretation ref_jwt: jwt_crate ref_jwt
  by unfold_locales (auto simp: ref_jwt_def ref_verify_def split: if_splits)

definition example_keys :: "u8 list KeyCollection" where
  "example_keys = \<lparr>secrets = [(''node1'', map of_char ''aa''), (''node2'', map of_char ''bb'')]\<rparr>"


section \<open>Properties\<close>

lemma load_secrets_map:
  "load_secrets ops raw acc = Inr loaded \<Longrightarrow> distinct (map fst raw) \<Longrightarrow>
     map_of loaded i = (case map_of raw i of
       None \<Rightarrow> map_of acc i
     | Some h \<Rightarrow> (case load_secret ops h of Inr k \<Rightarrow> Some k | Inl e \<Rightarrow> None))"
proof (induction raw arbitrary: acc)
  case (Cons e raw)
  then obtain k where k: "load_secret ops (snd e) = Inr k"
    and rest: "load_secrets ops raw (AList.update (fst e) k acc) = Inr loaded"
    by (auto simp: and_then_Inr_iff)
  have "map_of raw (fst e) = None"
    using Cons.prems(2) by (auto simp: map_of_eq_None_iff)
  with Cons.IH [OF rest] Cons.prems(2) k show ?case
    by (cases e) (auto simp: update_conv' split: option.split)
qed simp

lemma load_secrets_distinct:
  "load_secrets ops raw acc = Inr loaded \<Longrightarrow> distinct (map fst acc) \<Longrightarrow> distinct (map fst loaded)"
  by (induction raw arbitrary: acc) (auto simp: and_then_Inr_iff distinct_update)

lemma load_secrets_all:
  "load_secrets ops raw acc = Inr loaded \<Longrightarrow> e \<in> set raw \<Longrightarrow> \<exists>k. load_secret ops (snd e) = Inr k"
  by (induction raw arbitrary: acc) (auto simp: and_then_Inr_iff)

text \<open>
  C16. When a client's token is accepted: it parses, and it is signed with the key that its id names;
  only if it has no id, or one that no key has, any key of the collection will do. The claims of an
  accepted token are the ones it carries. In particular a token whose id names a key is never accepted
  under another key.
\<close>

theorem client_token_accepted_iff:
  assumes "jwt_crate ops"
  shows "key_collection_verify ops c token = Inr claims \<longleftrightarrow>
     (\<exists>t. parse_unverified ops token = Inr t \<and> claims = ut_claims t \<and>
        (case named_key c t of
           Some k \<Rightarrow> signed_by ops t k
         | None \<Rightarrow> \<exists>k \<in> snd ` set (secrets c). signed_by ops t k))"
  using assms by (rule jwt_crate.key_collection_verify_iff)

theorem client_token_accepted_iff_witness:
  "key_collection_verify ref_jwt example_keys ''node1.aa'' =
     Inr \<lparr>iat = 0, cl_id = Some ''node1'', clv = None\<rparr> \<and>
   \<not> (\<exists>claims. key_collection_verify ref_jwt example_keys ''node1.bb'' = Inr claims) \<and>
   (\<exists>claims. key_collection_verify ref_jwt example_keys ''other.bb'' = Inr claims)"
proof -
  note iff = client_token_accepted_iff [OF ref_jwt.jwt_crate_axioms]
  have parse: "parse_unverified ref_jwt ''node1.aa'' =
      Inr \<lparr>ut_text = ''node1.aa'', ut_claims = \<lparr>iat = 0, cl_id = Some ''node1'', clv = None\<rparr>\<rparr>"
    "parse_unverified ref_jwt ''node1.bb'' =
      Inr \<lparr>ut_text = ''node1.bb'', ut_claims = \<lparr>iat = 0, cl_id = Some ''node1'', clv = None\<rparr>\<rparr>"
    "parse_unverified ref_jwt ''other.bb'' =
      Inr \<lparr>ut_text = ''other.bb'', ut_claims = \<lparr>iat = 0, cl_id = Some ''other'', clv = None\<rparr>\<rparr>"
    by code_simp+
  show ?thesis
    unfolding iff parse by (simp add: named_key_def example_keys_def signed_by_def ref_jwt_def ref_verify_def)
qed

text \<open>
  C30. The result of a verification does not depend on the order in which the secrets are iterated:
  two collections with the same entries give the same result for every token.
\<close>

theorem verification_order_independent:
  assumes "jwt_crate ops" and "distinct (map fst (secrets c))" and "distinct (map fst (secrets c'))"
    and "set (secrets c) = set (secrets c')"
  shows "key_collection_verify ops c token = key_collection_verify ops c' token"
  using assms map_of_inject_set [of "secrets c" "secrets c'"]
  by (intro jwt_crate.key_collection_verify_order [OF assms(1)]) auto

theorem verification_order_independent_witness:
  "key_collection_verify ref_jwt example_keys ''.bb'' =
     key_collection_verify ref_jwt \<lparr>secrets = rev (secrets example_keys)\<rparr> ''.bb''"
  by (rule verification_order_independent [OF ref_jwt.jwt_crate_axioms]) (auto simp: example_keys_def)

text \<open>
  C31. Loading the clients' secrets keeps the file's mapping: after a successful load the ids are those
  of the file, each with the key made from its own hexadecimal text, and no id occurs twice.
\<close>

theorem key_collection_load_correct:
  assumes "key_collection_load ops path = Inr c"
    and "client_jwt_secrets_from_file (fs_read_to_string ops) (toml_from_str ops) path = Inr raw"
    and "distinct (map fst (raw_secrets raw))"
  shows "distinct (map fst (secrets c)) \<and>
    map_of (secrets c) i = Option.bind (map_of (raw_secrets raw) i)
      (\<lambda>h. case load_secret ops h of Inr k \<Rightarrow> Some k | Inl e \<Rightarrow> None) \<and>
    (map_of (secrets c) i = None \<longleftrightarrow> map_of (raw_secrets raw) i = None)"
proof -
  from assms(1,2) have c: "load_secrets ops (raw_secrets raw) [] = Inr (secrets c)"
    by (auto simp: key_collection_load_def and_then_Inr_iff)
  have "\<exists>k. load_secret ops h = Inr k" if "map_of (raw_secrets raw) i = Some h" for h
    using load_secrets_all [OF c] map_of_SomeD [OF that] by auto
  with load_secrets_map [OF c assms(3), of i] load_secrets_distinct [OF c] show ?thesis
    by (auto split: option.splits)
qed

theorem key_collection_load_correct_witness:
  "\<exists>c. key_collection_load ref_jwt ''clients.toml'' = Inr c \<and>
     map_of (secrets c) ''node2'' = Some (map of_char ''bb'')"
proof -
  have toml: "client_jwt_secrets_from_file (fs_read_to_string ref_jwt) (toml_from_str ref_jwt) ''clients.toml'' =
      Inr \<lparr>raw_secrets = [(''node1'', ''aa''), (''node2'', ''bb'')]\<rparr>"
    by (simp add: client_jwt_secrets_from_file_def ref_jwt_def)
  have "key_collection_load ref_jwt ''clients.toml'' = Inr example_keys"
    unfolding key_collection_load_def toml
    by (simp add: load_secret_def example_keys_def ref_jwt_def)
  from key_collection_load_correct [OF this toml, of "''node2''"] this show ?thesis
    by (simp add: load_secret_def ref_jwt_def)
qed

end
