(* ===== verification/Server.thy ===== *)
theory Server
  imports New_Payload Meta Jwt
begin

text \<open>
  The server of \<open>main.rs\<close>: the start-up, the two JSON-RPC endpoints with their authentication, the
  dispatch of methods to the handlers, batches, and the health check. A body that axum could not
  decode (or that is over the limit) arrives as the text of the rejection. \<open>serve\<close> is one HTTP request
  as a task; the locale \<open>server\<close> is a started server, for which the program logic holds.
\<close>

abbreviation ETH_SYNCING :: string where
  "ETH_SYNCING \<equiv> ''eth_syncing''"

abbreviation ENGINE_EXCHANGE_CAPABILITIES :: string where
  "ENGINE_EXCHANGE_CAPABILITIES \<equiv> ''engine_exchangeCapabilities''"

definition fcu_methods :: "string list" where
  "fcu_methods = [ENGINE_FORKCHOICE_UPDATED_V1, ENGINE_FORKCHOICE_UPDATED_V2, ENGINE_FORKCHOICE_UPDATED_V3]"

definition proxied_methods :: "string list" where
  "proxied_methods = [''engine_getBlobsV1'', ''eth_getBlockByNumber'', ''eth_getBlockByHash'', ''eth_getLogs'',
     ''eth_call'', ''eth_blockNumber'', ''engine_getPayloadBodiesByHashV1'',
     ''engine_getPayloadBodiesByRangeV1'', ''engine_getClientVersionV1'']"

definition get_payload_methods :: "string list" where
  "get_payload_methods =
     [''engine_getPayloadV1'', ''engine_getPayloadV2'', ''engine_getPayloadV3'', ''engine_getPayloadV4'']"

definition MEGABYTE :: u64 where
  "MEGABYTE = 1024 * 1024"

record 'k AppState =
  app_controller_jwt_secret :: 'k
  app_client_jwt_collection :: "'k KeyCollection"
  app_multiplexer :: Multiplexer


section \<open>Dispatch\<close>

definition process_client_request :: "Multiplexer \<Rightarrow> Request \<Rightarrow> rpc_handler" where
  "process_client_request mx request =
     (let method = req_method request in
      if method \<in> set fcu_methods then handle_fcu mx request
      else if method \<in> set new_payload_methods then handle_new_payload mx request
      else if method = ETH_SYNCING then handle_syncing mx request
      else if method = ''eth_chainId'' then handle_chain_id mx request
      else if method = ENGINE_EXCHANGE_CAPABILITIES then handle_engine_capabilities mx request
      else if method \<in> set proxied_methods then proxy_directly mx request
      else if method \<in> set get_payload_methods then handle_get_payload mx request
      else Done (Inl (unsupported_method (req_id request) method)))"

text \<open>The batch loop: one request after the other, the results in the same order.\<close>

primrec process_client_requests :: "Multiplexer \<Rightarrow> Request list \<Rightarrow> MaybeErrorResponse list handler" where
  "process_client_requests mx [] = Done []"
| "process_client_requests mx (request # batch) =
     bind_task (process_client_request mx request) (\<lambda>result.
     bind_task (process_client_requests mx batch) (\<lambda>results.
     Done (maybe_error_response_from result # results)))"

definition handle_client_json_rpc ::
  "'k JwtOps \<Rightarrow> 'k AppState \<Rightarrow> string \<Rightarrow> string + Requests \<Rightarrow> Responses handler" where
  "handle_client_json_rpc ops state jwt_token maybe_requests =
     (case key_collection_verify ops (app_client_jwt_collection state) jwt_token of
        Inl e \<Rightarrow> Done (Single_response (MaybeErr (parse_error_generic (JNumber 0) e)))
      | Inr _ \<Rightarrow>
          (case maybe_requests of
             Inl body_text \<Rightarrow> Done (Single_response (MaybeErr (parse_error_generic (JNumber 0) body_text)))
           | Inr (Single_request request) \<Rightarrow>
               bind_task (process_client_request (app_multiplexer state) request) (\<lambda>result.
               Done (Single_response (maybe_error_response_from result)))
           | Inr (Multiple_requests batch) \<Rightarrow>
               bind_task (process_client_requests (app_multiplexer state) batch) (\<lambda>results.
               Done (Multiple_responses results))))"

definition process_controller_request :: "Multiplexer \<Rightarrow> Request \<Rightarrow> rpc_handler" where
  "process_controller_request mx request =
     (let method = req_method request in
      if method \<in> set fcu_methods then handle_controller_fcu mx request
      else if method \<in> set new_payload_methods then handle_controller_new_payload mx request
      else if method = ETH_SYNCING then handle_syncing mx request
      else if method = ''eth_chainId'' then handle_chain_id mx request
      else if method = ENGINE_EXCHANGE_CAPABILITIES then handle_engine_capabilities mx request
      else if method \<in> set proxied_methods then proxy_directly mx request
      else if method \<in> set get_payload_methods then handle_get_payload mx request
      else Done (Inl (unsupported_method (req_id request) method)))"

definition handle_controller_json_rpc ::
  "'k JwtOps \<Rightarrow> 'k AppState \<Rightarrow> string \<Rightarrow> string + Request \<Rightarrow> rpc_handler" where
  "handle_controller_json_rpc ops state jwt_token maybe_request =
     (case verify_single_token ops jwt_token (app_controller_jwt_secret state) of
        Inl e \<Rightarrow> Done (Inl (parse_error_generic (JNumber 0) e))
      | Inr _ \<Rightarrow>
          try_task (map_err (parse_error_generic (JNumber 0)) maybe_request) (\<lambda>request.
          process_controller_request (app_multiplexer state) request))"


section \<open>Routes and start-up\<close>

text \<open>The three routes, with the token and the body that their handlers receive.\<close>

datatype HttpRequest =
    PostRoot string "string + Requests"
  | PostCanonical string "string + Request"
  | GetHealth

datatype HttpReply =
    ClientReply Responses
  | ControllerReply "ErrorResponse + Response"
  | StatusCode nat

definition handle_health :: "HttpReply" where
  "handle_health = StatusCode 200"

definition serve :: "'k JwtOps \<Rightarrow> 'k AppState \<Rightarrow> HttpRequest \<Rightarrow> HttpReply handler" where
  "serve ops state http_request =
     (case http_request of
        PostRoot jwt_token maybe_requests \<Rightarrow>
          bind_task (handle_client_json_rpc ops state jwt_token maybe_requests) (\<lambda>r. Done (ClientReply r))
      | PostCanonical jwt_token maybe_request \<Rightarrow>
          bind_task (handle_controller_json_rpc ops state jwt_token maybe_request) (\<lambda>r. Done (ControllerReply r))
      | GetHealth \<Rightarrow> Done handle_health)"

definition body_limit :: "Config \<Rightarrow> u64" where
  "body_limit cfg = body_limit_mb cfg * MEGABYTE"

text \<open>
  \<open>main\<close> up to serving: the state that is shared by all requests, or \<open>None\<close> when one of the
  \<open>unwrap\<close>s panics.
\<close>

definition start_server ::
  "'k JwtOps \<Rightarrow> External \<Rightarrow> EngineSetup \<Rightarrow> Config \<Rightarrow> ('k AppState \<times> MuxState) option" where
  "start_server ops ext setup cfg =
     (case jwt_secret_from_path ops (controller_jwt_secret cfg) of
        Inl _ \<Rightarrow> None
      | Inr secret \<Rightarrow>
          (case key_collection_load ops (client_jwt_secrets cfg) of
             Inl _ \<Rightarrow> None
           | Inr collection \<Rightarrow>
               (case multiplexer_new ext setup cfg of
                  None \<Rightarrow> None
                | Some (Inl _) \<Rightarrow> None
                | Some (Inr (mx, s)) \<Rightarrow>
                    Some (\<lparr>app_controller_jwt_secret = secret, app_client_jwt_collection = collection,
                           app_multiplexer = mx\<rparr>, s))))"


section \<open>What a reply has to satisfy\<close>

definition client_request_post ::
  "Multiplexer \<Rightarrow> Request \<Rightarrow> history \<Rightarrow> (ErrorResponse + Response) option \<Rightarrow> bool" where
  "client_request_post mx request h r \<longleftrightarrow>
     (if req_method request \<in> set fcu_methods then client_fcu_post mx request h r
      else if req_method request \<in> set new_payload_methods then client_payload_post mx request h r
      else answered (req_id request) h r)"

definition controller_request_post ::
  "Multiplexer \<Rightarrow> Request \<Rightarrow> history \<Rightarrow> (ErrorResponse + Response) option \<Rightarrow> bool" where
  "controller_request_post mx request h r \<longleftrightarrow>
     (if req_method request \<in> set fcu_methods then controller_fcu_post mx request h r
      else if req_method request \<in> set new_payload_methods then controller_payload_post mx request h r
      else answered (req_id request) h r)"

lemma client_request_post_mono:
  "client_request_post mx q h r \<Longrightarrow> h \<subseteq> h' \<Longrightarrow> client_request_post mx q h' r"
  by (auto simp: client_request_post_def answered_def
      intro: client_fcu_post_mono client_payload_post_mono split: if_splits)

lemma controller_request_post_mono:
  "controller_request_post mx q h r \<Longrightarrow> h \<subseteq> h' \<Longrightarrow> controller_request_post mx q h' r"
  by (auto simp: controller_request_post_def answered_def
      intro: controller_fcu_post_mono controller_payload_post_mono split: if_splits)

text \<open>A client's request never ends in a panic, and its reply carries its id.\<close>

lemma client_request_post_reply:
  assumes "client_request_post mx q h r"
  obtains x where "r = Some x" and "answers (req_id q) x"
  using assms
  by (auto simp: client_request_post_def client_fcu_post_def fcu_reply_ok_def client_payload_post_def
      payload_reply_ok_def answered_def split: if_splits)

lemma methods_disjoint:
  "m \<in> set new_payload_methods \<Longrightarrow> m \<notin> set fcu_methods"
  by (auto simp: new_payload_methods_def fcu_methods_def)

context mux_engine
begin

lemma served_payload:
  "\<not> is_fulu p \<Longrightarrow> \<exists>r. get_payload_response (json_execution_payload_from (lighthouse mx) p) = Some r"
  by (cases p) (simp_all add: to_json get_payload_response_def Let_def)

lemma safe_handle_get_payload:
  "safe mux_inv same_state (answered (req_id request)) (handle_get_payload mx request) h"
  unfolding handle_get_payload_def
proof (rule safe_try_task)
  fix e assume "parse_as (decode_payload_id (serde mx)) request = Inl e"
  then show "answered (req_id request) h (Some (Inl e))" by (simp add: parse_as_error_answers)
next
  fix a assume "parse_as (decode_payload_id (serde mx)) request = Inr a"
  then obtain i where a: "a = (req_id request, i)" by (cases a) (simp add: parse_as_Inr)
  show "safe mux_inv same_state (answered (req_id request))
      (case a of (i, payload_id) \<Rightarrow> bind_task (atomically (get_payload mx payload_id)) (\<lambda>r.
         case r of Inl message \<Rightarrow> Done (Inl (unknown_payload i message))
         | Inr payload \<Rightarrow>
             unwrap_task (get_payload_response (json_execution_payload_from (lighthouse mx) payload))
               (\<lambda>response. Done (response_new (to_value (serde mx)) i (GetPayloadResult response))))) h"
    unfolding a prod.case
  proof (rule safe_bind_atomically, intro conjI)
    fix h' s assume inv: "mux_inv h' s"
    show "mux_inv h' (snd (get_payload mx i s))" and "same_state s (snd (get_payload mx i s))"
      using mux_inv_reading [OF inv get_payload_same] by blast+
    have not_fulu: "\<not> is_fulu p" if "fst (get_payload mx i s) = Inr p" for p
      using get_payload_builder [OF mux_wfD(5) [OF mux_inv_wf [OF inv]], of i] that inv
      by (auto simp: mux_inv_def payload_inv_def is_dummy_def)
    show "safe mux_inv same_state (answered (req_id request))
      (case fst (get_payload mx i s) of Inl message \<Rightarrow> Done (Inl (unknown_payload (req_id request) message))
         | Inr payload \<Rightarrow>
             unwrap_task (get_payload_response (json_execution_payload_from (lighthouse mx) payload))
               (\<lambda>response. Done (response_new (to_value (serde mx)) (req_id request) (GetPayloadResult response)))) h'"
    proof (cases "fst (get_payload mx i s)")
      case (Inr p)
      from not_fulu [OF Inr] obtain r where
        "get_payload_response (json_execution_payload_from (lighthouse mx) p) = Some r"
        using served_payload by blast
      with Inr show ?thesis by (simp add: unwrap_task_def)
    qed simp
  qed
qed

lemma safe_process_client_request:
  "safe mux_inv same_state (client_request_post mx request) (process_client_request mx request) h"
proof -
  have answered: "safe mux_inv same_state (client_request_post mx request) t h"
    if "safe mux_inv same_state (answered (req_id request)) t h"
      "req_method request \<notin> set fcu_methods" "req_method request \<notin> set new_payload_methods" for t
    using safe_weaken [OF that(1), of "client_request_post mx request"] that(2,3)
    by (simp add: client_request_post_def)
  have fcu: "safe mux_inv same_state (client_request_post mx request) (handle_fcu mx request) h"
    if "req_method request \<in> set fcu_methods"
    by (rule safe_weaken [OF safe_handle_fcu]) (simp_all add: client_request_post_def that)
  have payload: "safe mux_inv same_state (client_request_post mx request) (handle_new_payload mx request) h"
    if "req_method request \<in> set new_payload_methods"
    by (rule safe_weaken [OF safe_handle_new_payload [OF that]])
      (simp_all add: client_request_post_def that methods_disjoint [OF that])
  have unsupported: "safe mux_inv same_state (answered (req_id request))
      (Done (Inl (unsupported_method (req_id request) (req_method request)))) h"
    by simp
  show ?thesis
    unfolding process_client_request_def Let_def
    by (simp add: fcu payload answered [OF safe_handle_syncing] answered [OF safe_handle_chain_id]
        answered [OF safe_handle_engine_capabilities] answered [OF safe_proxy_directly]
        answered [OF safe_handle_get_payload] answered [OF unsupported] del: safe.simps)
qed

lemma safe_process_controller_request:
  "safe mux_inv fcu_stable (controller_request_post mx request) (process_controller_request mx request) h"
proof -
  have answered: "safe mux_inv fcu_stable (controller_request_post mx request) t h"
    if "safe mux_inv fcu_stable (answered (req_id request)) t h"
      "req_method request \<notin> set fcu_methods" "req_method request \<notin> set new_payload_methods" for t
    using safe_weaken [OF that(1), of "controller_request_post mx request"] that(2,3)
    by (simp add: controller_request_post_def)
  have fcu: "safe mux_inv fcu_stable (controller_request_post mx request) (handle_controller_fcu mx request) h"
    if "req_method request \<in> set fcu_methods"
    by (rule safe_weaken [OF safe_handle_controller_fcu]) (simp_all add: controller_request_post_def that)
  have payload: "safe mux_inv fcu_stable (controller_request_post mx request) (handle_controller_new_payload mx request) h"
    if "req_method request \<in> set new_payload_methods"
    by (rule safe_weaken [OF safe_handle_controller_new_payload [OF that]])
      (simp_all add: controller_request_post_def that methods_disjoint [OF that])
  have get: "safe mux_inv fcu_stable (answered (req_id request)) (handle_get_payload mx request) h"
    by (rule safe_weaken [OF safe_handle_get_payload _ same_state_fcu_stable])
  have unsupported: "safe mux_inv fcu_stable (answered (req_id request))
      (Done (Inl (unsupported_method (req_id request) (req_method request)))) h"
    by simp
  show ?thesis
    unfolding process_controller_request_def Let_def
    by (simp add: fcu payload answered [OF safe_handle_syncing] answered [OF safe_handle_chain_id]
        answered [OF safe_handle_engine_capabilities] answered [OF safe_proxy_directly]
        answered [OF get] answered [OF unsupported] del: safe.simps)
qed

end


section \<open>Batches and endpoints\<close>

text \<open>One result per request of a batch, in the same order, each satisfying its condition.\<close>

definition batch_post ::
  "Multiplexer \<Rightarrow> Request list \<Rightarrow> history \<Rightarrow> MaybeErrorResponse list option \<Rightarrow> bool" where
  "batch_post mx batch h r \<longleftrightarrow>
     (\<exists>xs. r = Some (map maybe_error_response_from xs) \<and>
        list_all2 (\<lambda>q x. client_request_post mx q h (Some x)) batch xs)"

definition client_rpc_post ::
  "'k JwtOps \<Rightarrow> 'k AppState \<Rightarrow> string \<Rightarrow> string + Requests \<Rightarrow> history \<Rightarrow> Responses option \<Rightarrow> bool" where
  "client_rpc_post ops state token body h r \<longleftrightarrow>
     (case key_collection_verify ops (app_client_jwt_collection state) token of
        Inl e \<Rightarrow> r = Some (Single_response (MaybeErr (parse_error_generic (JNumber 0) e)))
      | Inr _ \<Rightarrow>
          (case body of
             Inl text \<Rightarrow> r = Some (Single_response (MaybeErr (parse_error_generic (JNumber 0) text)))
           | Inr (Single_request q) \<Rightarrow>
               (\<exists>x. r = Some (Single_response (maybe_error_response_from x)) \<and>
                  client_request_post (app_multiplexer state) q h (Some x))
           | Inr (Multiple_requests batch) \<Rightarrow>
               (\<exists>xs. r = Some (Multiple_responses xs) \<and> batch_post (app_multiplexer state) batch h (Some xs))))"

definition controller_rpc_post ::
  "'k JwtOps \<Rightarrow> 'k AppState \<Rightarrow> string \<Rightarrow> string + Request \<Rightarrow> history \<Rightarrow>
   (ErrorResponse + Response) option \<Rightarrow> bool" where
  "controller_rpc_post ops state token body h r \<longleftrightarrow>
     (case verify_single_token ops token (app_controller_jwt_secret state) of
        Inl e \<Rightarrow> r = Some (Inl (parse_error_generic (JNumber 0) e))
      | Inr _ \<Rightarrow>
          (case body of
             Inl text \<Rightarrow> r = Some (Inl (parse_error_generic (JNumber 0) text))
           | Inr q \<Rightarrow> controller_request_post (app_multiplexer state) q h r))"

text \<open>The condition on a finished request; a panic is only possible on the controller's endpoint.\<close>

definition serve_post :: "'k JwtOps \<Rightarrow> 'k AppState \<Rightarrow> HttpRequest \<Rightarrow> history \<Rightarrow> HttpReply option \<Rightarrow> bool" where
  "serve_post ops state http h r \<longleftrightarrow>
     (case http of
        PostRoot token body \<Rightarrow> (\<exists>x. r = Some (ClientReply x) \<and> client_rpc_post ops state token body h (Some x))
      | PostCanonical token body \<Rightarrow>
          (case r of
             None \<Rightarrow> controller_rpc_post ops state token body h None
           | Some reply \<Rightarrow> \<exists>x. reply = ControllerReply x \<and> controller_rpc_post ops state token body h (Some x))
      | GetHealth \<Rightarrow> r = Some handle_health)"

lemma batch_post_mono: "batch_post mx batch h r \<Longrightarrow> h \<subseteq> h' \<Longrightarrow> batch_post mx batch h' r"
  unfolding batch_post_def by (blast intro: list_all2_mono client_request_post_mono)

lemma client_rpc_post_mono:
  "client_rpc_post ops app token body h r \<Longrightarrow> h \<subseteq> h' \<Longrightarrow> client_rpc_post ops app token body h' r"
  by (auto simp: client_rpc_post_def split: sum.splits Requests.splits
      intro: client_request_post_mono batch_post_mono)

lemma controller_rpc_post_mono:
  "controller_rpc_post ops app token body h r \<Longrightarrow> h \<subseteq> h' \<Longrightarrow> controller_rpc_post ops app token body h' r"
  by (auto simp: controller_rpc_post_def split: sum.splits intro: controller_request_post_mono)

lemma serve_post_mono: "serve_post ops app http h r \<Longrightarrow> h \<subseteq> h' \<Longrightarrow> serve_post ops app http h' r"
  by (auto simp: serve_post_def split: HttpRequest.splits option.splits
      intro: client_rpc_post_mono controller_rpc_post_mono)

context mux_engine
begin

lemma safe_process_client_requests:
  "safe mux_inv same_state (batch_post mx batch) (process_client_requests mx batch) h"
proof (induction batch arbitrary: h)
  case Nil
  then show ?case by (simp add: batch_post_def)
next
  case (Cons q batch)
  have rest: "safe mux_inv same_state (batch_post mx (q # batch))
      (bind_task (process_client_requests mx batch) (\<lambda>results. Done (maybe_error_response_from x # results))) h'"
    if x: "client_request_post mx q h' (Some x)" for x h'
  proof (rule safe_bind_task [OF Cons.IH])
    fix h'' results assume h': "h' \<subseteq> h''" and "batch_post mx batch h'' (Some results)"
    then obtain xs where "results = map maybe_error_response_from xs"
      "list_all2 (\<lambda>q x. client_request_post mx q h'' (Some x)) batch xs"
      by (auto simp: batch_post_def)
    with client_request_post_mono [OF x h']
    show "safe mux_inv same_state (batch_post mx (q # batch)) (Done (maybe_error_response_from x # results)) h''"
      by (auto simp: batch_post_def intro!: exI [of _ "x # xs"])
  qed (simp add: batch_post_def)
  show ?case
    unfolding process_client_requests.simps
  proof (rule safe_bind_task [OF safe_process_client_request])
    fix h' x assume "client_request_post mx q h' (Some x)"
    then show "safe mux_inv same_state (batch_post mx (q # batch))
      (bind_task (process_client_requests mx batch) (\<lambda>results. Done (maybe_error_response_from x # results))) h'"
      by (rule rest)
  qed (auto elim: client_request_post_reply)
qed

lemma safe_handle_client_json_rpc:
  assumes mx: "app_multiplexer app = mx"
  shows "safe mux_inv same_state (client_rpc_post ops app token body) (handle_client_json_rpc ops app token body) h"
proof (cases "key_collection_verify ops (app_client_jwt_collection app) token")
  case (Inl e)
  then show ?thesis by (simp add: handle_client_json_rpc_def client_rpc_post_def)
next
  case auth: (Inr c)
  show ?thesis
  proof (cases body)
    case (Inl msg)
    with auth show ?thesis by (simp add: handle_client_json_rpc_def client_rpc_post_def)
  next
    case (Inr reqs)
    show ?thesis
    proof (cases reqs)
      case (Single_request q)
      show ?thesis
        unfolding handle_client_json_rpc_def auth Inr Single_request sum.case Requests.case mx
        by (rule safe_bind_task [OF safe_process_client_request])
          (auto simp: client_rpc_post_def auth Inr Single_request mx elim: client_request_post_reply)
    next
      case (Multiple_requests batch)
      show ?thesis
        unfolding handle_client_json_rpc_def auth Inr Multiple_requests sum.case Requests.case mx
        by (rule safe_bind_task [OF safe_process_client_requests])
          (auto simp: client_rpc_post_def auth Inr Multiple_requests mx batch_post_def)
    qed
  qed
qed

lemma safe_handle_controller_json_rpc:
  assumes mx: "app_multiplexer app = mx"
  shows "safe mux_inv fcu_stable (controller_rpc_post ops app token body)
    (handle_controller_json_rpc ops app token body) h"
proof (cases "verify_single_token ops token (app_controller_jwt_secret app)")
  case (Inl e)
  then show ?thesis by (simp add: handle_controller_json_rpc_def controller_rpc_post_def)
next
  case auth: (Inr c)
  show ?thesis
  proof (cases body)
    case (Inl msg)
    with auth show ?thesis by (simp add: handle_controller_json_rpc_def controller_rpc_post_def try_task_def)
  next
    case (Inr q)
    from safe_weaken [OF safe_process_controller_request, of q "controller_rpc_post ops app token body"]
    show ?thesis
      using auth Inr mx by (simp add: handle_controller_json_rpc_def controller_rpc_post_def try_task_def)
  qed
qed

lemma safe_serve:
  assumes mx: "app_multiplexer app = mx"
  shows "safe mux_inv fcu_stable (serve_post ops app http) (serve ops app http) h"
proof (cases http)
  case (PostRoot token body)
  show ?thesis
    unfolding serve_def PostRoot HttpRequest.case
    by (rule safe_bind_task [OF safe_weaken [OF safe_handle_client_json_rpc [OF mx] _ same_state_fcu_stable]],
        assumption) (auto simp: serve_post_def PostRoot client_rpc_post_def split: sum.splits Requests.splits)
next
  case (PostCanonical token body)
  show ?thesis
    unfolding serve_def PostCanonical HttpRequest.case
    by (rule safe_bind_task [OF safe_handle_controller_json_rpc [OF mx]]) (auto simp: serve_post_def PostCanonical)
next
  case GetHealth
  then show ?thesis by (simp add: serve_def serve_post_def)
qed

end


section \<open>What clients may ask of the engine\<close>

text \<open>Requests that only read: everything but new payloads and forkchoice updates.\<close>

definition passive_call :: "EngineCall \<Rightarrow> bool" where
  "passive_call c = (case c of
     GetChainId \<Rightarrow> True
   | GetEngineCapabilities \<Rightarrow> True
   | RpcRequest method params \<Rightarrow> method \<in> set proxied_methods
   | NewPayload q \<Rightarrow> False
   | NotifyForkchoiceUpdated f \<Rightarrow> False)"

lemma only_awaits_handle_get_payload: "only_awaits P (handle_get_payload mx request)"
  by (auto simp: handle_get_payload_def intro!: only_awaits_try_task only_awaits_bind_task only_awaits_unwrap_task
      split: sum.split)

lemma passive_meta:
  "only_awaits passive_call (handle_syncing mx request)"
  "only_awaits passive_call (handle_chain_id mx request)"
  "only_awaits passive_call (handle_engine_capabilities mx request)"
  "req_method request \<in> set proxied_methods \<Longrightarrow> only_awaits passive_call (proxy_directly mx request)"
  by (auto simp: meta_defs passive_call_def Let_def intro!: only_awaits_try_task)

lemma passive_process_client_request: "only_awaits passive_call (process_client_request mx request)"
  by (auto simp: process_client_request_def Let_def only_awaits_handle_fcu only_awaits_handle_new_payload
      only_awaits_handle_get_payload passive_meta)

lemma passive_process_client_requests: "only_awaits passive_call (process_client_requests mx batch)"
  by (induction batch) (auto intro!: only_awaits_bind_task passive_process_client_request)

lemma passive_handle_client_json_rpc: "only_awaits passive_call (handle_client_json_rpc ops app token body)"
  by (auto simp: handle_client_json_rpc_def split: sum.split Requests.split
      intro!: only_awaits_bind_task passive_process_client_request passive_process_client_requests)

text \<open>A request that the controller's secret does not vouch for.\<close>

definition not_controller :: "'k JwtOps \<Rightarrow> 'k AppState \<Rightarrow> HttpRequest \<Rightarrow> bool" where
  "not_controller ops app http = (case http of
     PostCanonical token body \<Rightarrow> (\<forall>c. verify_single_token ops token (app_controller_jwt_secret app) \<noteq> Inr c)
   | PostRoot token body \<Rightarrow> True
   | GetHealth \<Rightarrow> True)"

lemma passive_serve: "not_controller ops app http \<Longrightarrow> only_awaits passive_call (serve ops app http)"
  by (auto simp: serve_def not_controller_def handle_controller_json_rpc_def split: HttpRequest.splits sum.splits
      intro!: only_awaits_bind_task passive_handle_client_json_rpc)


section \<open>A started server\<close>

text \<open>A request as a task that remembers what was asked, and the condition on its result.\<close>

definition request_task ::
  "'k JwtOps \<Rightarrow> 'k AppState \<Rightarrow> HttpRequest \<Rightarrow> (HttpRequest \<times> HttpReply) handler" where
  "request_task ops app http = bind_task (serve ops app http) (\<lambda>reply. Done (http, reply))"

definition system_post ::
  "'k JwtOps \<Rightarrow> 'k AppState \<Rightarrow> history \<Rightarrow> (HttpRequest \<times> HttpReply) option \<Rightarrow> bool" where
  "system_post ops app h r \<longleftrightarrow> (\<forall>http reply. r = Some (http, reply) \<longrightarrow> serve_post ops app http h (Some reply))"

locale server = mux_engine "app_multiplexer app" for app :: "'k AppState" +
  fixes ops :: "'k JwtOps" and s0 :: MuxState
  assumes initial_wf: "mux_wf s0" and initial_empty: "mux_empty s0"
begin

lemma initial_inv: "mux_inv h s0"
  by (rule mux_inv_empty [OF initial_wf initial_empty])

lemma request_task_safe: "safe mux_inv fcu_stable (system_post ops app) (request_task ops app http) h"
  unfolding request_task_def
  by (rule safe_bind_task [OF safe_serve [OF refl]]) (auto simp: system_post_def)

lemma system_post_mono: "system_post ops app h r \<Longrightarrow> h \<subseteq> h' \<Longrightarrow> system_post ops app h' r"
  unfolding system_post_def using serve_post_mono by blast

end

sublocale server \<subseteq> task_logic mux_inv fcu_stable "system_post ops app" "range (request_task ops app)" s0
  by unfold_locales (auto intro: mux_inv_mono system_post_mono initial_inv request_task_safe)

text \<open>The system without a controller: every request then ends with a reply.\<close>

lemma not_controller_safe:
  assumes "server app s0" and "not_controller ops app http"
  shows "safe mux_inv fcu_stable (\<lambda>h r. r \<noteq> None) (request_task ops app http) h"
proof -
  have m: "mux_engine (app_multiplexer app)" using assms(1) by (simp add: server_def)
  have "serve_post ops app http h' r \<Longrightarrow> r \<noteq> None" for h' r
    using assms(2) by (cases r) (auto simp: serve_post_def not_controller_def controller_rpc_post_def
        split: HttpRequest.splits sum.splits)
  then show ?thesis
    unfolding request_task_def by (intro safe_bind_task [OF mux_engine.safe_serve [OF m refl]]) auto
qed

sublocale server \<subseteq> uncontrolled: task_logic mux_inv fcu_stable "\<lambda>h r. r \<noteq> None"
    "request_task ops app ` {http. not_controller ops app http}" s0
proof (unfold_locales, goal_cases)
  case (4 t)
  then obtain http where "not_controller ops app http" "t = request_task ops app http" by auto
  then show ?case using not_controller_safe [OF server_axioms] by simp
qed (auto intro: mux_inv_mono initial_inv)

context server
begin

lemmas running_invariant = reachable_invariant
lemmas running_result = reachable_result
lemmas running_guarantee = reachable_step_guarantee
lemmas uncontrolled_invariant = uncontrolled.reachable_invariant
lemmas uncontrolled_no_panic = uncontrolled.reachable_no_panic

end

lemma start_server_server:
  assumes "mux_caches ext" and "payload_conversions (lighthouse ext)" and "bounded_list (lighthouse ext)"
    and "start_server ops ext setup cfg = Some (app, s0)"
  shows "server app s0"
proof -
  from assms(4) have new: "multiplexer_new ext setup cfg = Some (Inr (app_multiplexer app, s0))"
    by (auto simp: start_server_def split: sum.splits option.splits)
  from multiplexer_new_success [OF assms(3) new] have size: "sizes_positive cfg"
    and trunc: "External.truncate (app_multiplexer app) = ext" and s0: "s0 = initial_state ext cfg"
    by blast+
  have ext: "caches (app_multiplexer app) = caches ext" "lighthouse (app_multiplexer app) = lighthouse ext"
    using arg_cong [OF trunc, of caches] arg_cong [OF trunc, of lighthouse] by (simp_all add: External.truncate_def)
  have "mux (app_multiplexer app)"
    using assms(1) ext(1) by (simp add: mux_def mux_caches_def)
  then show ?thesis
    using assms(2) ext(2) mux_caches.initial_state_ok [OF assms(1) size refl] s0
    by (simp add: server_def server_axioms_def mux_engine_def)
qed


section \<open>An example\<close>

definition example_app :: "u8 list AppState" where
  "example_app = \<lparr>app_controller_jwt_secret = map of_char ''secret'', app_client_jwt_collection = example_keys,
     app_multiplexer = example_multiplexer\<rparr>"

lemma example_start:
  "start_server ref_jwt ref_external example_setup example_config =
     Some (example_app, initial_state ref_external example_config)"
proof -
  have "jwt_secret_from_path ref_jwt ''controller.jwt'' = Inr (map of_char ''secret'')"
    by (simp add: jwt_secret_from_path_def ref_jwt_def)
  moreover have "key_collection_load ref_jwt ''clients.toml'' = Inr example_keys"
    by (simp add: key_collection_load_def client_jwt_secrets_from_file_def load_secret_def example_keys_def ref_jwt_def)
  moreover have "controller_jwt_secret example_config = ''controller.jwt''"
    and "client_jwt_secrets example_config = ''clients.toml''"
    by (simp_all add: example_config_def default_config_def)
  moreover obtain s where "multiplexer_new ref_external example_setup example_config = Some (Inr (example_multiplexer, s))"
    using example_new by blast
  moreover from this have "s = initial_state ref_external example_config"
    using multiplexer_new_success [OF ref_ops(2)] by blast
  ultimately show ?thesis by (simp add: start_server_def example_app_def)
qed

lemma ref_lighthouse_conversions: "payload_conversions (lighthouse ref_external)"
  by (simp add: ref.payload_conversions_axioms)

interpretation example_server: server example_app ref_jwt "initial_state ref_external example_config"
  by (rule start_server_server [OF ref_ops(1) ref_lighthouse_conversions ref_ops(2) example_start])

lemma example_tokens:
  "\<exists>c. key_collection_verify ref_jwt (app_client_jwt_collection example_app) ''node1.aa'' = Inr c"
  "\<exists>e. key_collection_verify ref_jwt (app_client_jwt_collection example_app) ''node1.bb'' = Inl e"
  "\<exists>c. verify_single_token ref_jwt ''.secret'' (app_controller_jwt_secret example_app) = Inr c"
  "\<exists>e. verify_single_token ref_jwt ''.aa'' (app_controller_jwt_secret example_app) = Inl e"
  by (simp_all add: key_collection_verify_def verify_single_token_def verify_parsed_token_def example_app_def
      example_keys_def ref_jwt_def ref_token_def ref_verify_def Let_def)


section \<open>Properties\<close>

text \<open>
  C8. Authentication comes first on both endpoints: a request whose token is not accepted ends at once
  with an error under id 0, whatever its body is, without a step on the shared state and without a
  request to the engine. A client's token does not open the controller's endpoint.
\<close>

theorem authentication_gate:
  assumes "key_collection_verify ops (app_client_jwt_collection app) token = Inl e"
    and "verify_single_token ops token' (app_controller_jwt_secret app) = Inl e'"
  shows "serve ops app (PostRoot token body) =
      Done (ClientReply (Single_response (MaybeErr (parse_error_generic (JNumber 0) e)))) \<and>
    serve ops app (PostCanonical token' body') = Done (ControllerReply (Inl (parse_error_generic (JNumber 0) e')))"
  using assms by (simp add: serve_def handle_client_json_rpc_def handle_controller_json_rpc_def)

theorem authentication_gate_witness:
  "\<exists>e e'. serve ref_jwt example_app (PostRoot ''node1.bb'' (Inr (Single_request example_new_payload))) =
      Done (ClientReply (Single_response (MaybeErr (parse_error_generic (JNumber 0) e)))) \<and>
    serve ref_jwt example_app (PostCanonical ''.aa'' (Inr example_new_payload)) =
      Done (ControllerReply (Inl (parse_error_generic (JNumber 0) e')))"
  using authentication_gate example_tokens(2,4) by metis

text \<open>
  C6. Clients cannot drive the engine: on no path of a client's request, single or batch, accepted or
  not, is a new payload or a forkchoice update sent to the engine; all it can cause are requests for
  the chain id, the capabilities and the listed proxied methods.
\<close>

theorem clients_cannot_drive_engine:
  "only_awaits passive_call (serve ops app (PostRoot token body))"
  by (rule passive_serve) (simp add: not_controller_def)

text \<open>
  C7. Clients only read, under every interleaving: while other tasks keep the invariant of the caches, a
  request on the clients' endpoint keeps it too, none of its sections changes the contents of a cache,
  and it ends with a reply, never with a panic.
\<close>

theorem clients_only_read:
  assumes "mux_engine (app_multiplexer app)"
  shows "safe mux_inv same_state (\<lambda>h r. \<exists>reply. r = Some (ClientReply reply)) (serve ops app (PostRoot token body)) h"
proof -
  have reply: "\<exists>x. r = Some x" if "client_rpc_post ops app token body h' r" for h' r
    using that by (auto simp: client_rpc_post_def split: sum.splits Requests.splits)
  show ?thesis
    unfolding serve_def HttpRequest.case
    by (rule safe_bind_task [OF mux_engine.safe_handle_client_json_rpc [OF assms refl]]) (use reply in auto)
qed

theorem clients_only_read_witness:
  "safe mux_inv same_state (\<lambda>h r. \<exists>reply. r = Some (ClientReply reply))
     (serve ref_jwt example_app (PostRoot ''node1.aa'' (Inr (Single_request example_new_payload)))) {}"
proof (rule clients_only_read)
  show "mux_engine (app_multiplexer example_app)"
    using example.mux_engine_axioms by (simp add: example_app_def)
qed

text \<open>
  C9. A client's batch is answered completely and in order: one result per request, each carrying the
  id of its request and the protocol version; it never panics, and no cache changes its contents.
\<close>

theorem client_batch_answered:
  assumes "mux_engine (app_multiplexer app)" and "mux_inv h s"
    and "key_collection_verify ops (app_client_jwt_collection app) token = Inr claims"
    and "run ans d (serve ops app (PostRoot token (Inr (Multiple_requests batch)))) s = (r, s')"
  shows "same_state s s' \<and>
    (\<exists>xs. r = Some (ClientReply (Multiple_responses (map maybe_error_response_from xs))) \<and>
       list_all2 (\<lambda>q x. answers (req_id q) x) batch xs)"
proof -
  let ?t = "handle_client_json_rpc ops app token (Inr (Multiple_requests batch))"
  obtain r1 where r1: "run ans d ?t s = (r1, s')" and r: "r = map_option ClientReply r1"
    using assms(4) by (auto simp: serve_def run_bind_task split: prod.splits option.splits)
  from safe_run [OF mux_engine.safe_handle_client_json_rpc [OF assms(1) refl] assms(2) _ _ _ r1]
  obtain h' where "same_state s s'" and "client_rpc_post ops app token (Inr (Multiple_requests batch)) h' r1"
    using mux_inv_mono same_state_refl same_state_trans by metis
  moreover from this(2) assms(3) obtain xs where
    "r1 = Some (Multiple_responses (map maybe_error_response_from xs))"
    "list_all2 (\<lambda>q x. client_request_post (app_multiplexer app) q h' (Some x)) batch xs"
    by (auto simp: client_rpc_post_def batch_post_def)
  moreover from this(2) have "list_all2 (\<lambda>q x. answers (req_id q) x) batch xs"
    by (rule list_all2_mono) (auto elim: client_request_post_reply)
  ultimately show ?thesis using r by auto
qed

text \<open>A request with the given method and no parameters.\<close>

definition simple_request :: "string \<Rightarrow> int \<Rightarrow> Request" where
  "simple_request method n = \<lparr>req_jsonrpc = ''2.0'', req_method = method, req_params = JArray [], req_id = JNumber n\<rparr>"

theorem client_batch_answered_witness:
  "\<exists>s' xs. run (\<lambda>q. example_reply) 0 (serve ref_jwt example_app (PostRoot ''node1.aa''
      (Inr (Multiple_requests [simple_request ETH_SYNCING 5, example_new_payload, simple_request ''eth_foo'' 6]))))
      (initial_state ref_external example_config) =
      (Some (ClientReply (Multiple_responses (map maybe_error_response_from xs))), s') \<and>
    list_all2 (\<lambda>i x. answers i x) [JNumber 5, JNumber 1, JNumber 6] xs"
proof -
  let ?batch = "[simple_request ETH_SYNCING 5, example_new_payload, simple_request ''eth_foo'' 6]"
  obtain r s' where run: "run (\<lambda>q. example_reply) 0 (serve ref_jwt example_app (PostRoot ''node1.aa''
      (Inr (Multiple_requests ?batch)))) (initial_state ref_external example_config) = (r, s')" by fastforce
  have m: "mux_engine (app_multiplexer example_app)"
    using example.mux_engine_axioms by (simp add: example_app_def)
  obtain c where c: "key_collection_verify ref_jwt (app_client_jwt_collection example_app) ''node1.aa'' = Inr c"
    using example_tokens(1) by blast
  from client_batch_answered [OF m example_server.initial_inv c run] obtain xs where
    "r = Some (ClientReply (Multiple_responses (map maybe_error_response_from xs)))"
    "list_all2 (\<lambda>q x. answers (req_id q) x) ?batch xs" by blast
  moreover from this(2) have "list_all2 (\<lambda>i x. answers i x) (map req_id ?batch) xs"
    unfolding list_all2_map1 .
  ultimately show ?thesis
    using run by (auto simp: simple_request_def example_new_payload_def)
qed

text \<open>
  C34. A method outside the four groups of supported methods is refused on both endpoints with the
  error for an unknown method, under the request's id and without any other effect.
\<close>

theorem unsupported_methods_refused:
  assumes "req_method q \<notin> set (fcu_methods @ new_payload_methods @ proxied_methods @ get_payload_methods @
      [ETH_SYNCING, ''eth_chainId'', ENGINE_EXCHANGE_CAPABILITIES])"
  shows "process_client_request mx q = Done (Inl (unsupported_method (req_id q) (req_method q))) \<and>
    process_controller_request mx q = Done (Inl (unsupported_method (req_id q) (req_method q))) \<and>
    err_code (eresp_error (unsupported_method (req_id q) (req_method q))) = MethodNotFound"
  using assms
  by (simp add: process_client_request_def process_controller_request_def Let_def error_response_defs)

theorem unsupported_methods_refused_witness:
  "process_client_request example_multiplexer (simple_request ''engine_getPayloadV5'' 3) =
     Done (Inl (unsupported_method (JNumber 3) ''engine_getPayloadV5''))"
proof -
  have "req_method (simple_request ''engine_getPayloadV5'' 3) \<notin>
      set (fcu_methods @ new_payload_methods @ proxied_methods @ get_payload_methods @
      [ETH_SYNCING, ''eth_chainId'', ENGINE_EXCHANGE_CAPABILITIES])"
    by (simp add: simple_request_def fcu_methods_def new_payload_methods_def proxied_methods_def
        get_payload_methods_def)
  from unsupported_methods_refused [OF this, of example_multiplexer] show ?thesis
    by (simp add: simple_request_def)
qed

end
