(* ===== verification/Spec2Isabelle.thy ===== *)
theory Spec2Isabelle
  imports Server
begin

text \<open>
  A model of eleel, a multiplexer between several Ethereum consensus clients and one execution engine,
  with the theorems that make it correct.

  The program. One consensus client, the controller, drives the engine: its forkchoice updates and new
  payloads (\<open>POST /canonical\<close>) are sent on, and the engine's verdicts are cached. All other clients
  (\<open>POST /\<close>) are answered from these caches, after waiting a bounded time for a definite verdict, and
  with \<open>SYNCING\<close> when there is none. A builder makes dummy payloads on canonical blocks. Requests are
  asynchronous tasks that share five mutex-protected structures; each endpoint checks a JWT first.

  The theories, and what they model (files under \<open>src/\<close>):
  \<^item> \<open>Eleel_Prelude\<close>: words with Rust's checked and saturating operations, bytes, results, lists.
  \<^item> \<open>Lru_Cache\<close>: the interface of the \<open>lru\<close> crate, as a forgetful map (\<open>lru_map\<close>) and with its recency
    order (\<open>lru_crate\<close>), and a list implementation that satisfies both.
  \<^item> \<open>Async_Task\<close>, \<open>Task_Schedule\<close>: handlers as trees of atomic sections, requests to the engine and
    sleeps; running one alone (\<open>run\<close>), running one while others interfere (\<open>observe\<close>), the interleaving of any number of them (\<open>sys_step\<close>,
    \<open>reachable\<close>), a program logic with invariant, guarantee and result (\<open>safe\<close>), its soundness for
    every interleaving (locale \<open>task_logic\<close>), and executable schedules for concrete interleavings.
  \<^item> \<open>Json_Rpc\<close>, \<open>Engine_Types\<close> (\<open>types.rs\<close>): messages, error codes, forkchoice states, payloads; the
    record \<open>External\<close> of all third-party operations. \<open>Reference_Ops\<close> is a concrete instance of it.
  \<^item> \<open>Base_Fee\<close> (\<open>base_fee.rs\<close>), \<open>Eleel_Config\<close> (\<open>config.rs\<close>), \<open>Multiplexer\<close> (\<open>multiplexer.rs\<close>): the fee
    calculation, the options, the shared state \<open>MuxState\<close> and its construction.
  \<^item> \<open>Payload_Builder\<close> (\<open>payload_builder.rs\<close>): building, registering and serving payloads.
  \<^item> \<open>Mux_Invariant\<close>: the invariant \<open>mux_inv\<close> of the shared state, relative to the engine's replies.
  \<^item> \<open>Fcu\<close> (\<open>fcu.rs\<close>), \<open>New_Payload\<close> (\<open>new_payload.rs\<close>), \<open>Meta\<close> (\<open>meta.rs\<close>): the handlers.
  \<^item> \<open>Jwt\<close> (\<open>jwt.rs\<close>), \<open>Server\<close> (\<open>main.rs\<close>): authentication, dispatch, batches, start-up.

  How state and operations correspond. \<open>MuxState\<close> has one field per mutex of \<open>struct Multiplexer\<close>; the
  fields that never change, and the third-party operations, are the record \<open>Multiplexer\<close>. Each time the
  code takes a lock is one \<open>Atomic\<close> section; where the code holds one lock while it takes another
  (\<open>get_cached_fcu\<close>), the model lets other tasks run in between, so it has all interleavings of the
  code and more. \<open>Result\<close> is a sum with the error on the left, a panic is \<open>None\<close> or \<open>Panic\<close>. Integers
  are words of the code's width with the wrap-around of a release build. Log output is left out.

  What the theorems show. This theory: in every reachable state of a started server the caches hold
  only what the engine said about that key, clients are told only such verdicts or the synthetic
  \<open>SYNCING\<close>, definite forkchoice verdicts are never overwritten, and without the controller's secret
  nothing is sent or cached. \<open>Server\<close>: authentication comes first, clients only read and cannot drive the
  engine, batches are answered in order. \<open>Fcu\<close> and \<open>New_Payload\<close>: a verdict given to the controller
  reaches the clients, exactly which requests go to the engine, exactly which new payloads decode and to
  what, every branch of the client's payload handler under interference with the time it waits, bounded
  polling, error paths. \<open>Payload_Builder\<close> and \<open>Base_Fee\<close>: the builder's invariant, the
  round trip from attributes to payload, agreement with EIP-1559. \<open>Jwt\<close>: which tokens are accepted,
  whatever the order of the keys. Some theorems state defects: an ignored option, a stale payload id, a
  lost definite payload status, a panic on a zero gas target, payload ids that clients never learn.

  Bounds. The polling loops are functions of the elapsed milliseconds with a measure; a round takes at
  least its 50 milliseconds, so they end and no fuel is needed. The builder's invariant is stated for
  fewer than \<open>2 ^ 64\<close> operations, after which ids repeat. The fee agrees with EIP-1559 for base fees
  below \<open>2 ^ 192\<close>, where the 256-bit product cannot overflow.

  Not modelled: the execution engine and its HTTP client (its replies are arbitrary), axum's routing and
  extraction (a request arrives as its token and its decoded body or the rejection's text), clap, the
  logger (\<open>logging.rs\<close>), the executor's set-up, failing memory allocation, and the cryptography; what the code relies on about these
  is named in the locales \<open>uint256\<close>, \<open>lru_map\<close>, \<open>lru_crate\<close>, \<open>payload_conversions\<close>, \<open>bounded_list\<close> and
  \<open>jwt_crate\<close>, each with an instance. Fairness and liveness of the lock scheduler are not modelled; that a
  task whose locks, replies and timers come ends follows from its being a well-founded tree.

  Possible extensions: a refinement of the caches to a timeline of verdicts, the end-to-end building of a
  payload over several requests, and conditions on the controller under which no request panics.
\<close>

section \<open>The running server\<close>

text \<open>
  C1. Whatever the caches of a running server hold was vouched for by the engine, in every state that
  any interleaving of requests reaches: each cached forkchoice status is one that the engine gave to
  that very forkchoice state, each cached payload status one it gave to a payload with that block hash
  and number, and the justified and finalized blocks belong to forkchoice states it called \<open>VALID\<close>.
\<close>

theorem caches_hold_engine_verdicts:
  assumes "mux_caches ext" and "payload_conversions (lighthouse ext)" and "bounded_list (lighthouse ext)"
    and "start_server ops ext setup cfg = Some (app, s0)"
    and "reachable (range (request_task ops app)) s0 (h, s, ts)"
  shows "mux_wf s \<and>
    (\<forall>fcu st. lru_lookup (fcu_cache s) fcu = Some st \<longrightarrow> fcu_replied h fcu st) \<and>
    (\<forall>b e. lru_lookup (new_payload_cache s) b = Some e \<longrightarrow>
       (\<exists>p. payload_replied h p (npe_status e) \<and> payload_block_hash p = b \<and>
          payload_block_number p = npe_block_number e)) \<and>
    (\<forall>b u. lru_lookup (justified_block_cache s) b = Some u \<longrightarrow> safe_block_known h b) \<and>
    (\<forall>b u. lru_lookup (finalized_block_cache s) b = Some u \<longrightarrow> finalized_block_known h b)"
  using server.running_invariant [OF start_server_server [OF assms(1-4)] assms(5)]
  unfolding mux_inv_def fcu_inv_def payload_inv_def by blast

text \<open>The controller's payload, started and answered by the engine, on the example server.\<close>

definition example_schedule :: "(MuxState, EngineCall, EngineReply, HttpRequest \<times> HttpReply) choice list" where
  "example_schedule =
     [Start (request_task ref_jwt example_app (PostCanonical ''.secret'' (Inr example_new_payload))),
      Section 0, Reply 0 example_reply, Section 0, Section 0]"

lemma example_schedule_run:
  "case schedule example_schedule (initial_state ref_external example_config, []) of
     None \<Rightarrow> False
   | Some (s, ts) \<Rightarrow> map_option npe_status (lru_lookup (new_payload_cache s) 8) = Some example_valid \<and> length ts = 1"
  by code_simp

lemma example_reachable:
  "\<exists>h s ts. reachable (range (request_task ref_jwt example_app)) (initial_state ref_external example_config) (h, s, ts) \<and>
     map_option npe_status (lru_lookup (new_payload_cache s) 8) = Some example_valid"
proof -
  obtain s ts where run: "schedule example_schedule (initial_state ref_external example_config, []) = Some (s, ts)"
    and s: "map_option npe_status (lru_lookup (new_payload_cache s) 8) = Some example_valid"
    using example_schedule_run by (auto split: option.splits)
  have "started example_schedule \<subseteq> range (request_task ref_jwt example_app)"
    by (simp add: example_schedule_def)
  from schedule_reachable [OF run this] s show ?thesis by blast
qed

lemmas example_started = ref_ops(1) ref_lighthouse_conversions ref_ops(2) example_start

theorem caches_hold_engine_verdicts_witness:
  "\<exists>h s ts p. reachable (range (request_task ref_jwt example_app)) (initial_state ref_external example_config) (h, s, ts) \<and>
     lru_lookup (new_payload_cache s) 8 \<noteq> None \<and> payload_replied h p example_valid \<and> payload_block_hash p = 8"
proof -
  obtain h s ts where r: "reachable (range (request_task ref_jwt example_app))
      (initial_state ref_external example_config) (h, s, ts)"
    and "map_option npe_status (lru_lookup (new_payload_cache s) 8) = Some example_valid"
    using example_reachable by blast
  then obtain e where "lru_lookup (new_payload_cache s) 8 = Some e" "npe_status e = example_valid" by auto
  moreover from this(1) caches_hold_engine_verdicts [OF example_started r] obtain p where
    "payload_replied h p (npe_status e)" "payload_block_hash p = 8" by metis
  ultimately show ?thesis using r by fastforce
qed

text \<open>
  The controller's forkchoice update, answered by the engine, then the same forkchoice state from a
  client, which finds it in the cache.
\<close>

definition fcu_schedule :: "(MuxState, EngineCall, EngineReply, HttpRequest \<times> HttpReply) choice list" where
  "fcu_schedule =
     (let q = fcu_request ENGINE_FORKCHOICE_UPDATED_V3 example_fcu JNull in
       [Start (request_task ref_jwt example_app (PostCanonical ''.secret'' (Inr q))),
        Section 0, Reply 0 example_reply, Section 0, Section 0, Section 0,
        Start (request_task ref_jwt example_app (PostRoot ''node1.aa'' (Inr (Single_request q)))),
        Wake 1 0, Section 1, Section 1, Section 1])"

text \<open>A finished task of a pool, as a decidable test.\<close>

definition finished :: "(HttpRequest \<times> HttpReply) handler list \<Rightarrow> nat \<Rightarrow> (HttpRequest \<times> HttpReply) option" where
  "finished ts i = (if i < length ts then (case ts ! i of Done x \<Rightarrow> Some x | _ \<Rightarrow> None) else None)"

lemma finished_Done: "finished ts i = Some x \<Longrightarrow> Done x \<in> set ts"
  by (auto simp: finished_def in_set_conv_nth split: if_splits task.splits)

lemma finished_schedule:
  assumes "case schedule xs (s0, []) of None \<Rightarrow> False | Some (s, ts) \<Rightarrow> map_option fst (finished ts i) = Some http"
    and "started xs \<subseteq> T"
  shows "\<exists>h s ts reply. reachable T s0 (h, s, ts) \<and> Done (http, reply) \<in> set ts"
proof -
  from assms(1) obtain s ts where run: "schedule xs (s0, []) = Some (s, ts)"
    and "map_option fst (finished ts i) = Some http" by (auto split: option.splits)
  then obtain reply where "finished ts i = Some (http, reply)" by auto
  with finished_Done schedule_reachable [OF run assms(2)] show ?thesis by blast
qed

text \<open>
  C4. A definite forkchoice status is never overwritten: over any step of a running server, a forkchoice
  state with a definite status in the cache keeps that status or is evicted.
\<close>

theorem definite_fcu_status_never_overwritten:
  assumes "mux_caches ext" and "payload_conversions (lighthouse ext)" and "bounded_list (lighthouse ext)"
    and "start_server ops ext setup cfg = Some (app, s0)"
    and "reachable (range (request_task ops app)) s0 (h, s, ts)"
    and "sys_step (range (request_task ops app)) (h, s, ts) (h', s', ts')"
    and "lru_lookup (fcu_cache s) fcu = Some st" and "is_definite st"
  shows "lru_lookup (fcu_cache s') fcu = Some st \<or> lru_lookup (fcu_cache s') fcu = None"
  using server.running_guarantee [OF start_server_server [OF assms(1-4)] assms(5,6)] assms(7,8)
  unfolding fcu_stable_def by (elim disjE) auto

text \<open>
  Two forkchoice updates of the controller for the same state, in flight at the same time: the engine's
  \<open>VALID\<close> for the first is stored, then its \<open>SYNCING\<close> for the second arrives and is about to be.
\<close>

definition racing_fcus :: "(MuxState, EngineCall, EngineReply, HttpRequest \<times> HttpReply) choice list" where
  "racing_fcus =
     (let t = request_task ref_jwt example_app (PostCanonical ''.secret''
        (Inr (fcu_request ENGINE_FORKCHOICE_UPDATED_V3 example_fcu JNull)));
          syncing = \<lparr>fr_payload_status = synthetic_syncing, fr_payload_id = None\<rparr>
      in [Start t, Start t, Section 0, Section 1, Reply 0 example_reply, Section 0,
        Reply 1 (example_reply\<lparr>reply_forkchoice := Inr syncing\<rparr>)])"

lemma racing_fcus_run:
  "case schedule racing_fcus (initial_state ref_external example_config, []) of
     None \<Rightarrow> False
   | Some (s, ts) \<Rightarrow> lru_lookup (fcu_cache s) example_fcu = Some example_valid \<and>
       (case take_choice (Section 1) (s, ts) of None \<Rightarrow> False | Some _ \<Rightarrow> True)"
  by code_simp

theorem definite_fcu_status_never_overwritten_witness:
  "\<exists>s ts s' ts'. schedule racing_fcus (initial_state ref_external example_config, []) = Some (s, ts) \<and>
     take_choice (Section 1) (s, ts) = Some (s', ts') \<and>
     lru_lookup (fcu_cache s) example_fcu = Some example_valid \<and>
     (lru_lookup (fcu_cache s') example_fcu = Some example_valid \<or> lru_lookup (fcu_cache s') example_fcu = None)"
proof -
  obtain s ts s' ts' where run: "schedule racing_fcus (initial_state ref_external example_config, []) = Some (s, ts)"
    and late: "take_choice (Section 1) (s, ts) = Some (s', ts')"
    and s: "lru_lookup (fcu_cache s) example_fcu = Some example_valid"
    using racing_fcus_run by (auto split: option.splits)
  have "started racing_fcus \<subseteq> range (request_task ref_jwt example_app)"
    by (simp add: racing_fcus_def Let_def)
  from schedule_reachable [OF run this] obtain h where
    r: "reachable (range (request_task ref_jwt example_app)) (initial_state ref_external example_config) (h, s, ts)" ..
  from take_choice_step [OF late, of "range (request_task ref_jwt example_app)" h] obtain h' where
    step: "sys_step (range (request_task ref_jwt example_app)) (h, s, ts) (h', s', ts')" by auto
  have "is_definite example_valid"
    by (simp add: is_definite_def example_valid_def)
  from definite_fcu_status_never_overwritten [OF example_started r step s this] run late s show ?thesis by blast
qed

text \<open>
  C2. What a client is told about a forkchoice state is the engine's verdict or the synthetic
  \<open>SYNCING\<close>: when a single forkchoice update of an authenticated client has finished with a result, the
  status in it is \<open>SYNCING\<close> without details, or one that the engine gave to a forkchoice state that the
  matching mode accepts (the same one in exact mode, one with the same head otherwise, and in loose mode
  with the safe and the finalized block known to the engine as valid). An error carries the request's id.
\<close>

theorem client_fcu_replies_are_verdicts:
  assumes "mux_caches ext" and "payload_conversions (lighthouse ext)" and "bounded_list (lighthouse ext)"
    and "start_server ops ext setup cfg = Some (app, s0)"
    and "reachable (range (request_task ops app)) s0 (h, s, ts)"
    and "Done (PostRoot token (Inr (Single_request q)), reply) \<in> set ts"
    and "key_collection_verify ops (app_client_jwt_collection app) token = Inr claims"
    and "req_method q \<in> set fcu_methods"
  shows "\<exists>x. reply = ClientReply (Single_response (maybe_error_response_from x)) \<and> answers (req_id q) x \<and>
    (\<forall>resp. x = Inr resp \<longrightarrow> (\<exists>fcu attributes st pid.
       decode_client_fcu (serde (app_multiplexer app)) (req_params q) = Inr (fcu, attributes) \<and>
       to_value (serde (app_multiplexer app)) (ForkchoiceUpdatedResult
         \<lparr>fr_payload_status = st, fr_payload_id = pid\<rparr>) = Inr (resp_result resp) \<and>
       (st = synthetic_syncing \<or> fcu_vouched (app_multiplexer app) h fcu st)))"
  using server.running_result [OF start_server_server [OF assms(1-4)] assms(5,6)] assms(7,8)
  by (auto simp: system_post_def serve_post_def client_rpc_post_def client_request_post_def client_fcu_post_def
      fcu_reply_ok_def)

theorem client_fcu_replies_are_verdicts_witness:
  "\<exists>h s ts x. reachable (range (request_task ref_jwt example_app)) (initial_state ref_external example_config) (h, s, ts) \<and>
     Done (PostRoot ''node1.aa'' (Inr (Single_request (fcu_request ENGINE_FORKCHOICE_UPDATED_V3 example_fcu JNull))),
       ClientReply (Single_response (maybe_error_response_from x))) \<in> set ts \<and> answers (JNumber 1) x"
proof -
  let ?q = "fcu_request ENGINE_FORKCHOICE_UPDATED_V3 example_fcu JNull"
  have "case schedule fcu_schedule (initial_state ref_external example_config, []) of None \<Rightarrow> False
      | Some (s, ts) \<Rightarrow> map_option fst (finished ts 1) = Some (PostRoot ''node1.aa'' (Inr (Single_request ?q)))"
    by code_simp
  moreover have "started fcu_schedule \<subseteq> range (request_task ref_jwt example_app)"
    by (simp add: fcu_schedule_def Let_def)
  ultimately obtain h s ts reply where
    r: "reachable (range (request_task ref_jwt example_app)) (initial_state ref_external example_config) (h, s, ts)"
    and d: "Done (PostRoot ''node1.aa'' (Inr (Single_request ?q)), reply) \<in> set ts"
    using finished_schedule by blast
  obtain c where c: "key_collection_verify ref_jwt (app_client_jwt_collection example_app) ''node1.aa'' = Inr c"
    using example_tokens(1) by blast
  have m: "req_method ?q \<in> set fcu_methods" and i: "req_id ?q = JNumber 1"
    by (simp_all add: fcu_request_def fcu_methods_def)
  from client_fcu_replies_are_verdicts [OF example_started r d c m] r d i show ?thesis by auto
qed

text \<open>
  C3. The same for payloads: the status that an authenticated client gets for a payload is the synthetic
  \<open>SYNCING\<close> or one that the engine gave to a payload with the same block hash.
\<close>

theorem client_payload_replies_are_verdicts:
  assumes "mux_caches ext" and "payload_conversions (lighthouse ext)" and "bounded_list (lighthouse ext)"
    and "start_server ops ext setup cfg = Some (app, s0)"
    and "reachable (range (request_task ops app)) s0 (h, s, ts)"
    and "Done (PostRoot token (Inr (Single_request q)), reply) \<in> set ts"
    and "key_collection_verify ops (app_client_jwt_collection app) token = Inr claims"
    and "req_method q \<in> set new_payload_methods"
  shows "\<exists>x. reply = ClientReply (Single_response (maybe_error_response_from x)) \<and> answers (req_id q) x \<and>
    (\<forall>resp. x = Inr resp \<longrightarrow> (\<exists>jp extra st.
       decode_new_payload (app_multiplexer app) q = Inr (req_id q, jp, extra) \<and>
       to_value (serde (app_multiplexer app)) (PayloadStatusResult st) = Inr (resp_result resp) \<and>
       (st = synthetic_syncing \<or>
        payload_vouched h (execution_payload_from (lighthouse (app_multiplexer app)) jp) st)))"
  using server.running_result [OF start_server_server [OF assms(1-4)] assms(5,6)] assms(7,8)
  by (auto simp: system_post_def serve_post_def client_rpc_post_def client_request_post_def client_payload_post_def
      payload_reply_ok_def methods_disjoint simp del: split_paired_Ex)

definition payload_schedule :: "(MuxState, EngineCall, EngineReply, HttpRequest \<times> HttpReply) choice list" where
  "payload_schedule = example_schedule @
     [Start (request_task ref_jwt example_app (PostRoot ''node1.aa'' (Inr (Single_request example_new_payload)))),
      Section 1, Wake 1 0, Section 1]"

theorem client_payload_replies_are_verdicts_witness:
  "\<exists>h s ts x. reachable (range (request_task ref_jwt example_app)) (initial_state ref_external example_config) (h, s, ts) \<and>
     Done (PostRoot ''node1.aa'' (Inr (Single_request example_new_payload)),
       ClientReply (Single_response (maybe_error_response_from x))) \<in> set ts \<and> answers (JNumber 1) x"
proof -
  have "case schedule payload_schedule (initial_state ref_external example_config, []) of None \<Rightarrow> False
      | Some (s, ts) \<Rightarrow> map_option fst (finished ts 1) = Some (PostRoot ''node1.aa'' (Inr (Single_request example_new_payload)))"
    by code_simp
  moreover have "started payload_schedule \<subseteq> range (request_task ref_jwt example_app)"
    by (simp add: payload_schedule_def example_schedule_def)
  ultimately obtain h s ts reply where
    r: "reachable (range (request_task ref_jwt example_app)) (initial_state ref_external example_config) (h, s, ts)"
    and d: "Done (PostRoot ''node1.aa'' (Inr (Single_request example_new_payload)), reply) \<in> set ts"
    using finished_schedule by blast
  obtain c where c: "key_collection_verify ref_jwt (app_client_jwt_collection example_app) ''node1.aa'' = Inr c"
    using example_tokens(1) by blast
  have i: "req_id example_new_payload = JNumber 1" by (simp add: example_new_payload_def)
  from client_payload_replies_are_verdicts [OF example_started r d c example_np_method] r d i show ?thesis
    by auto
qed

text \<open>
  C5. Without the controller's secret nothing moves: as long as no request on the controller's endpoint
  has an accepted token, the engine only ever sees passive requests, no status and no block is cached,
  and no request ends in a panic.
\<close>

theorem nothing_cached_without_controller:
  assumes "mux_caches ext" and "payload_conversions (lighthouse ext)" and "bounded_list (lighthouse ext)"
    and "start_server ops ext setup cfg = Some (app, s0)"
    and "reachable (request_task ops app ` {http. not_controller ops app http}) s0 (h, s, ts)"
  shows "(\<forall>(q, r) \<in> h. passive_call q) \<and> Panic \<notin> set ts \<and>
    (\<forall>fcu. lru_lookup (fcu_cache s) fcu = None) \<and> (\<forall>b. lru_lookup (new_payload_cache s) b = None) \<and>
    (\<forall>b. lru_lookup (justified_block_cache s) b = None) \<and> (\<forall>b. lru_lookup (finalized_block_cache s) b = None)"
proof -
  note server = start_server_server [OF assms(1-4)]
  have harmless: "\<forall>(q, r) \<in> h. passive_call q"
  proof -
    have "only_awaits passive_call t" if "t \<in> request_task ops app ` {http. not_controller ops app http}" for t
      using that by (auto simp: request_task_def intro!: only_awaits_bind_task passive_serve)
    from reachable_awaits [OF assms(5) this] show ?thesis by simp
  qed
  then have never: "\<not> fcu_replied h fcu st" "\<not> payload_replied h p st" for fcu p st
    by (auto simp: fcu_replied_def payload_replied_def passive_call_def)
  have "mux_inv h s" by (rule server.uncontrolled_invariant [OF server assms(5)])
  then have "fcu_inv h s" "payload_inv h s" by (simp_all add: mux_inv_def)
  with never have "lru_lookup (fcu_cache s) fcu = None" "lru_lookup (new_payload_cache s) b = None"
    "lru_lookup (justified_block_cache s) b = None" "lru_lookup (finalized_block_cache s) b = None" for fcu b
    by (auto simp: fcu_inv_def payload_inv_def safe_block_known_def finalized_block_known_def
        simp flip: not_Some_eq)
  moreover have "Panic \<notin> set ts"
    by (rule server.uncontrolled_no_panic [OF server assms(5)]) simp
  ultimately show ?thesis using harmless by simp
qed

theorem nothing_cached_without_controller_witness:
  "\<exists>h s ts reply. reachable (request_task ref_jwt example_app ` {http. not_controller ref_jwt example_app http})
       (initial_state ref_external example_config) (h, s, ts) \<and>
     Done (PostRoot ''node1.aa'' (Inr (Single_request example_new_payload)), reply) \<in> set ts \<and>
     Panic \<notin> set ts \<and> lru_lookup (new_payload_cache s) 8 = None"
proof -
  let ?T = "request_task ref_jwt example_app ` {http. not_controller ref_jwt example_app http}"
  let ?http = "PostRoot ''node1.aa'' (Inr (Single_request example_new_payload))"
  let ?xs = "[Start (request_task ref_jwt example_app ?http), Section 0, Wake 0 5000, Section 0]"
  have "case schedule ?xs (initial_state ref_external example_config, []) of None \<Rightarrow> False
      | Some (s, ts) \<Rightarrow> map_option fst (finished ts 0) = Some ?http"
    by code_simp
  moreover have "started ?xs \<subseteq> ?T"
    by (auto simp: not_controller_def)
  ultimately obtain h s ts reply where r: "reachable ?T (initial_state ref_external example_config) (h, s, ts)"
    and d: "Done (?http, reply) \<in> set ts"
    using finished_schedule by blast
  from nothing_cached_without_controller [OF example_started r] r d show ?thesis by blast
qed

end
